(* ===== verification/Prelude.thy ===== *)
theory Prelude
  imports Main "HOL-Library.Word" "HOL-Library.Code_Target_Nat"
begin

text \<open>
  What every theory of the development shares: the Go data model (machine integers, slices
  that may be nil, error values), the two loop shapes the code uses (a loop that stops at the
  first error while it changes the world, and a loop that builds a slice and stops at the first
  error), the named fact collections and the generic list lemmas.

  A Go \<open>[]T\<close> whose nil value is told apart from an empty one is a \<open>'a slice\<close>: \<open>None\<close> is nil.
  Where the code only ranges over a slice or takes its length, it is a plain list.
  A pointer \<open>*T\<close> to an immutable scalar is an \<open>option\<close>: \<open>None\<close> is nil.
\<close>

section \<open>Go values\<close>

type_synonym u8 = "8 word"
type_synonym u16 = "16 word"
type_synonym u32 = "32 word"

text \<open>
  \<open>Errorf msg args\<close> is \<open>fmt.Errorf\<close> or \<open>errors.New\<close> with the values it prints, \<open>Wrap\<close> is
  \<open>errors.Wrap\<close>, \<open>External\<close> an error a library or the operating system returned, and \<open>Panic\<close>
  a run-time panic (a nil dereference).
\<close>

datatype error =
    Errorf string "string list"
  | Wrap string error
  | External string
  | Panic string

type_synonym 'a slice = "'a list option"

definition elems :: "'a slice \<Rightarrow> 'a list" where
  "elems s = (case s of None \<Rightarrow> [] | Some xs \<Rightarrow> xs)"

text \<open>\<open>append(s, xs...)\<close>: appending nothing keeps a nil slice nil.\<close>

definition slice_append :: "'a slice \<Rightarrow> 'a list \<Rightarrow> 'a slice" where
  "slice_append s xs = (if xs = [] then s else Some (elems s @ xs))"

lemma elems_simps [simp]:
  "elems None = []" "elems (Some xs) = xs"
  by (simp_all add: elems_def)

lemma elems_slice_append [simp]: "elems (slice_append s xs) = elems s @ xs"
  by (auto simp: slice_append_def)

lemma slice_append_Some [simp]: "slice_append (Some ys) xs = Some (ys @ xs)"
  by (simp add: slice_append_def)

section \<open>Fact collections\<close>

named_theorems go_consts \<open>values of the string and number constants of the source\<close>
named_theorems builder_simps \<open>equations of the builder operations\<close>
named_theorems norm_simps \<open>what a normal form keeps of each field\<close>

section \<open>Loops\<close>

text \<open>
  \<open>for _, x := range xs { if err := f(x); err != nil { return err } }\<close> over a world that \<open>f\<close>
  changes.
\<close>

fun each_until_error :: "('a \<Rightarrow> 'w \<Rightarrow> error option \<times> 'w) \<Rightarrow> 'a list \<Rightarrow> 'w \<Rightarrow> error option \<times> 'w" where
  "each_until_error f [] w = (None, w)"
| "each_until_error f (x # xs) w =
     (case f x w of (Some e, w') \<Rightarrow> (Some e, w') | (None, w') \<Rightarrow> each_until_error f xs w')"

text \<open>The same loop over a pure body that appends one value per element.\<close>

fun map_until_error :: "('a \<Rightarrow> error + 'b) \<Rightarrow> 'a list \<Rightarrow> error + 'b list" where
  "map_until_error f [] = Inr []"
| "map_until_error f (x # xs) =
     (case f x of Inl e \<Rightarrow> Inl e
      | Inr y \<Rightarrow> (case map_until_error f xs of Inl e \<Rightarrow> Inl e | Inr ys \<Rightarrow> Inr (y # ys)))"

lemma each_until_error_invariant:
  assumes "each_until_error f xs w = (r, w')" and "P w"
    and "\<And>x v v' r. x \<in> set xs \<Longrightarrow> P v \<Longrightarrow> f x v = (r, v') \<Longrightarrow> P v'"
  shows "P w'"
  using assms
proof (induction xs arbitrary: w)
  case Nil
  then show ?case by simp
next
  case (Cons x xs)
  obtain q v where fx: "f x w = (q, v)" by (cases "f x w")
  with Cons.prems(2,3) have "P v" by auto
  show ?case
  proof (cases q)
    case None
    with fx Cons.prems(1) have "each_until_error f xs v = (r, w')" by simp
    then show ?thesis using \<open>P v\<close> Cons.prems(3) by (rule Cons.IH) auto
  next
    case (Some e)
    with fx Cons.prems(1) \<open>P v\<close> show ?thesis by simp
  qed
qed

lemma map_until_error_Inr_iff:
  "map_until_error f xs = Inr ys \<longleftrightarrow> list_all2 (\<lambda>x y. f x = Inr y) xs ys"
proof (induction xs arbitrary: ys)
  case Nil
  then show ?case by auto
next
  case (Cons x xs)
  show ?case
    by (cases "f x") (auto simp: list_all2_Cons1 Cons.IH [symmetric] split: sum.splits)
qed

lemma map_until_error_Inl:
  "map_until_error f xs = Inl e \<Longrightarrow> \<exists>x\<in>set xs. f x = Inl e"
  by (induction xs) (auto split: sum.splits)

lemma map_until_error_map:
  "(\<And>x. x \<in> set xs \<Longrightarrow> f x = Inr (g x)) \<Longrightarrow> map_until_error f xs = Inr (map g xs)"
  by (induction xs) auto

section \<open>Lists\<close>

lemma inj_on_distinct_map_iff: "distinct (map f xs) \<longleftrightarrow> distinct xs \<and> inj_on f (set xs)"
  by (rule distinct_map)

lemma inj_on_Collect_image:
  "inj_on f A \<Longrightarrow> B \<subseteq> A \<Longrightarrow> {x \<in> A. f x \<notin> f ` B} = A - B"
  by (auto dest: inj_onD)

lemma list_all_concat_map: "list_all P (concat (map f xs)) \<longleftrightarrow> (\<forall>x\<in>set xs. list_all P (f x))"
  by (induction xs) auto

end
