(* ===== verification/Go_Strings.thy ===== *)
theory Go_Strings
  imports Prelude
begin

text \<open>
  The parts of Go's \<open>strings\<close> and \<open>strconv\<close> packages the program uses. A Go string is a list of
  bytes; \<open>ToLower\<close> and \<open>TrimSpace\<close> are the ASCII cases of the library functions, which is what
  Kubernetes names, host names and \<open>tc\<close> keywords consist of. The lemmas give the round trips
  (print then parse a number, join then split) that the drivers' parsers rest on.
\<close>

section \<open>strings\<close>

text \<open>\<open>strings.Split(s, sep)\<close> for a separator of one byte: always at least one piece.\<close>

fun split_on :: "char \<Rightarrow> string \<Rightarrow> string list" where
  "split_on c [] = [[]]"
| "split_on c (x # xs) =
     (if x = c then [] # split_on c xs
      else (case split_on c xs of [] \<Rightarrow> [[x]] | p # ps \<Rightarrow> (x # p) # ps))"

fun join_with :: "string \<Rightarrow> string list \<Rightarrow> string" where
  "join_with sep [] = []"
| "join_with sep [s] = s"
| "join_with sep (s # t # ts) = s @ sep @ join_with sep (t # ts)"

lemma split_on_nonempty [simp]: "split_on c s \<noteq> []"
  by (induction s) (auto split: list.splits)

lemma split_on_no_sep: "c \<notin> set s \<Longrightarrow> split_on c s = [s]"
  by (induction s) auto

lemma split_on_append_sep:
  "c \<notin> set s \<Longrightarrow> split_on c (s @ c # t) = s # split_on c t"
  by (induction s) auto

lemma split_on_pieces: "p \<in> set (split_on c s) \<Longrightarrow> c \<notin> set p"
  by (induction s arbitrary: p) (auto split: list.splits if_splits)

lemma join_split: "join_with [c] (split_on c s) = s"
proof (induction s)
  case Nil
  then show ?case by simp
next
  case (Cons x xs)
  obtain p ps where *: "split_on c xs = p # ps"
    by (cases "split_on c xs") auto
  with Cons show ?case by (cases ps) auto
qed

text \<open>\<open>strings.ReplaceAll(s, old, new)\<close> for an \<open>old\<close> of one byte.\<close>

definition replace_all :: "char \<Rightarrow> string \<Rightarrow> string \<Rightarrow> string" where
  "replace_all old new s = concat (map (\<lambda>x. if x = old then new else [x]) s)"

definition to_lower_char :: "char \<Rightarrow> char" where
  "to_lower_char c =
     (if 65 \<le> (of_char c :: nat) \<and> (of_char c :: nat) \<le> 90
      then char_of ((of_char c :: nat) + 32) else c)"

definition to_lower :: "string \<Rightarrow> string" where
  "to_lower s = map to_lower_char s"

definition is_space :: "char \<Rightarrow> bool" where
  "is_space c \<longleftrightarrow> (of_char c :: nat) \<in> {9, 10, 11, 12, 13, 32}"

definition trim_space :: "string \<Rightarrow> string" where
  "trim_space s = rev (dropWhile is_space (rev (dropWhile is_space s)))"

lemma to_lower_char_idem [simp]: "to_lower_char (to_lower_char c) = to_lower_char c"
proof (cases "65 \<le> (of_char c :: nat) \<and> (of_char c :: nat) \<le> 90")
  case True
  then have "of_char (to_lower_char c) = (of_char c + 32 :: nat)"
    by (simp add: to_lower_char_def take_bit_nat_eq_self_iff)
  with True show ?thesis by (simp add: to_lower_char_def [of "to_lower_char c"])
next
  case False
  then show ?thesis by (auto simp: to_lower_char_def)
qed

lemma to_lower_idem [simp]: "to_lower (to_lower s) = to_lower s"
  by (simp add: to_lower_def)

lemma trim_space_hd: "trim_space s \<noteq> [] \<Longrightarrow> \<not> is_space (hd (trim_space s))"
proof -
  assume ne: "trim_space s \<noteq> []"
  let ?d = "dropWhile is_space s"
  obtain zs where zs: "?d = trim_space s @ zs"
    by (metis rev_append rev_rev_ident takeWhile_dropWhile_id trim_space_def)
  with ne have "hd ?d = hd (trim_space s)" and "?d \<noteq> []"
    by auto
  then show ?thesis by (metis hd_dropWhile)
qed

section \<open>strconv\<close>

datatype num_error = ErrSyntax | ErrRange

text \<open>The value of a digit in the bases up to 36, as \<open>ParseUint\<close> reads it.\<close>

definition digit_val :: "char \<Rightarrow> nat option" where
  "digit_val ch =
     (let c = (of_char ch :: nat) in
      if 48 \<le> c \<and> c \<le> 57 then Some (c - 48)
      else if 97 \<le> c \<and> c \<le> 122 then Some (c - 87)
      else if 65 \<le> c \<and> c \<le> 90 then Some (c - 55)
      else None)"

fun parse_digits :: "bool \<Rightarrow> nat \<Rightarrow> nat \<Rightarrow> nat \<Rightarrow> string \<Rightarrow> num_error + nat" where
  "parse_digits base0 base maxv acc [] = Inr acc"
| "parse_digits base0 base maxv acc (c # cs) =
     (if base0 \<and> c = CHR ''_'' then parse_digits base0 base maxv acc cs
      else (case digit_val c of
              None \<Rightarrow> Inl ErrSyntax
            | Some d \<Rightarrow>
                if base \<le> d then Inl ErrSyntax
                else if maxv < acc * base + d then Inl ErrRange
                else parse_digits base0 base maxv (acc * base + d) cs))"

text \<open>
  \<open>underscoreOK\<close>: an underscore must stand between digits (the base prefix counts as one).
  \<open>saw\<close> is the kind of the byte before.
\<close>

datatype seen = AtStart | SawDigit | SawUnderscore | SawOther

definition is_dec_digit :: "char \<Rightarrow> bool" where
  "is_dec_digit c \<longleftrightarrow> (case digit_val c of None \<Rightarrow> False | Some d \<Rightarrow> d < 10)"

definition is_hex_digit :: "char \<Rightarrow> bool" where
  "is_hex_digit c \<longleftrightarrow> (case digit_val c of None \<Rightarrow> False | Some d \<Rightarrow> d < 16)"

fun underscores_between :: "bool \<Rightarrow> seen \<Rightarrow> string \<Rightarrow> bool" where
  "underscores_between hex saw [] = (saw \<noteq> SawUnderscore)"
| "underscores_between hex saw (c # cs) =
     (if is_dec_digit c \<or> hex \<and> is_hex_digit c then underscores_between hex SawDigit cs
      else if c = CHR ''_'' then saw = SawDigit \<and> underscores_between hex SawUnderscore cs
      else saw \<noteq> SawUnderscore \<and> underscores_between hex SawOther cs)"

definition underscore_ok :: "string \<Rightarrow> bool" where
  "underscore_ok s0 =
     (let s = (case s0 of c # cs \<Rightarrow> if c = CHR ''-'' \<or> c = CHR ''+'' then cs else s0 | [] \<Rightarrow> s0) in
      case s of
        z # b # cs \<Rightarrow>
          if z = CHR ''0'' \<and> to_lower_char b \<in> {CHR ''b'', CHR ''o'', CHR ''x''}
          then underscores_between (to_lower_char b = CHR ''x'') SawDigit cs
          else underscores_between False AtStart s
      | _ \<Rightarrow> underscores_between False AtStart s)"

text \<open>
  \<open>strconv.ParseUint(s, base, bits)\<close> for \<open>bits < 64\<close>. Base 0 reads the base from a prefix
  (\<open>0x\<close>, \<open>0o\<close>, \<open>0b\<close>, \<open>0\<close>) and allows underscores.
\<close>

definition base_prefix :: "string \<Rightarrow> nat \<times> string" where
  "base_prefix s =
     (case s of
        z # b # c # cs \<Rightarrow>
          if z \<noteq> CHR ''0'' then (10, s)
          else if to_lower_char b = CHR ''b'' then (2, c # cs)
          else if to_lower_char b = CHR ''o'' then (8, c # cs)
          else if to_lower_char b = CHR ''x'' then (16, c # cs)
          else (8, b # c # cs)
      | z # cs \<Rightarrow> if z = CHR ''0'' then (8, cs) else (10, s)
      | [] \<Rightarrow> (10, s))"

definition ParseUint :: "string \<Rightarrow> nat \<Rightarrow> nat \<Rightarrow> num_error + nat" where
  "ParseUint s base bits =
     (if s = [] then Inl ErrSyntax
      else
        let base0 = (base = 0);
            (b, ds) = (if base0 then base_prefix s else (base, s))
        in case parse_digits base0 b (2 ^ bits - 1) 0 ds of
             Inl e \<Rightarrow> Inl e
           | Inr n \<Rightarrow>
               if base0 \<and> CHR ''_'' \<in> set ds \<and> \<not> underscore_ok s then Inl ErrSyntax else Inr n)"

definition digit_char :: "nat \<Rightarrow> char" where
  "digit_char d = (if d < 10 then char_of (48 + d) else char_of (87 + d))"

text \<open>\<open>FormatUint(n, base)\<close>, which \<open>Sprintf\<close>'s \<open>%x\<close> and \<open>%d\<close> print too.\<close>

function show_base :: "nat \<Rightarrow> nat \<Rightarrow> string" where
  "show_base b n =
     (if n < b \<or> b < 2 then [digit_char n] else show_base b (n div b) @ [digit_char (n mod b)])"
  by pat_completeness auto
termination
  by (relation "measure snd") auto

declare show_base.simps [simp del]

definition FormatUint :: "nat \<Rightarrow> string" where
  "FormatUint n = show_base 10 n"

definition hex :: "nat \<Rightarrow> string" where
  "hex n = show_base 16 n"

section \<open>Number round trips\<close>

lemma of_char_digit_char:
  "d < 36 \<Longrightarrow> (of_char (digit_char d) :: nat) = (if d < 10 then 48 + d else 87 + d)"
  by (simp add: digit_char_def take_bit_nat_eq_self_iff)

lemma digit_val_digit_char [simp]: "d < 36 \<Longrightarrow> digit_val (digit_char d) = Some d"
  by (simp add: digit_val_def of_char_digit_char Let_def)

lemma digit_char_not_low:
  assumes "d < 36" and "(of_char c :: nat) < 48 \<or> 57 < (of_char c :: nat) \<and> (of_char c :: nat) < 97"
  shows "digit_char d \<noteq> c"
  using assms of_char_digit_char [of d] by (auto split: if_splits)

lemma show_base_nonempty [simp]: "show_base b n \<noteq> []"
  by (subst show_base.simps) simp

lemma show_base_chars:
  "2 \<le> b \<Longrightarrow> c \<in> set (show_base b n) \<Longrightarrow> \<exists>d<b. c = digit_char d"
proof (induction b n rule: show_base.induct)
  case (1 b n)
  show ?case
  proof (cases "n < b")
    case True
    with 1 show ?thesis by (auto simp: show_base.simps [of b n])
  next
    case False
    with "1.prems" have "c \<in> set (show_base b (n div b)) \<or> c = digit_char (n mod b)"
      by (auto simp: show_base.simps [of b n])
    moreover have "n mod b < b" using "1.prems"(1) by simp
    moreover have "\<not> (n < b \<or> b < 2)" using False "1.prems"(1) by simp
    ultimately show ?thesis using "1.IH" "1.prems"(1) by metis
  qed
qed

lemma show_base_no_low:
  assumes "2 \<le> b" and "b \<le> 36"
    and "(of_char c :: nat) < 48 \<or> 57 < (of_char c :: nat) \<and> (of_char c :: nat) < 97"
  shows "c \<notin> set (show_base b n)"
proof
  assume "c \<in> set (show_base b n)"
  then obtain d where "d < b" and "c = digit_char d"
    using show_base_chars assms(1) by blast
  with assms(2,3) show False using digit_char_not_low [of d c] by simp
qed

lemma parse_digits_append:
  "parse_digits False b m a (xs @ ys) =
     (case parse_digits False b m a xs of Inl e \<Rightarrow> Inl e | Inr n \<Rightarrow> parse_digits False b m n ys)"
  by (induction xs arbitrary: a) (auto split: option.splits)

lemma parse_show_base:
  assumes "2 \<le> b" and "b \<le> 36" and "n \<le> m"
  shows "parse_digits False b m 0 (show_base b n) = Inr n"
  using assms
proof (induction b n rule: show_base.induct)
  case (1 b n)
  show ?case
  proof (cases "n < b")
    case True
    with 1 show ?thesis by (simp add: show_base.simps [of b n])
  next
    case False
    have "n div b \<le> m" using "1.prems" by (meson div_le_dividend order_trans)
    with False 1 have "parse_digits False b m 0 (show_base b (n div b)) = Inr (n div b)"
      by simp
    moreover have b: "n mod b < b" using "1.prems" by simp
    moreover have "n mod b < 36" using b "1.prems"(2) by (rule less_le_trans)
    moreover have "n div b * b + n mod b = n" by (rule div_mult_mod_eq)
    moreover have "\<not> (n < b \<or> b < 2)" using False "1.prems" by simp
    ultimately show ?thesis using "1.prems"(3)
      by (simp add: show_base.simps [of b n] parse_digits_append not_le [symmetric])
  qed
qed

lemma ParseUint_show_base:
  assumes "2 \<le> b" and "b \<le> 36" and "n < 2 ^ k"
  shows "ParseUint (show_base b n) b k = Inr n"
  using assms parse_show_base [of b n "2 ^ k - 1"] by (simp add: ParseUint_def)

end
