(* ===== verification/Go_Net.thy ===== *)
theory Go_Net
  imports Go_Strings
begin

text \<open>
  The parts of Go's \<open>net\<close> package the program uses: \<open>IP\<close>, \<open>IPMask\<close>, \<open>IPNet\<close>, \<open>ParseIP\<close>,
  \<open>ParseCIDR\<close>, \<open>CIDRMask\<close> and the \<open>String\<close> methods. An \<open>IP\<close> or \<open>IPMask\<close> is a byte slice and nil
  is the empty one (every function of the package looks at its length only). An IPv4 address
  has two forms, 4 bytes or 16 bytes with the prefix \<open>::ffff:\<close>; \<open>To4\<close> reads both, which is what
  the filter comparison of the program relies on.
\<close>

unbundle bit_operations_syntax

type_synonym IP = "u8 list"
type_synonym IPMask = "u8 list"

record IPNet =
  net_IP :: IP
  net_Mask :: IPMask

section \<open>Addresses\<close>

definition v4InV6Prefix :: "u8 list" where
  "v4InV6Prefix = replicate 10 0 @ [255, 255]"

definition To4 :: "IP \<Rightarrow> IP option" where
  "To4 ip =
     (if length ip = 4 then Some ip
      else if length ip = 16 \<and> take 12 ip = v4InV6Prefix then Some (drop 12 ip)
      else None)"

definition IPv4 :: "u8 list \<Rightarrow> IP" where
  "IPv4 bs = v4InV6Prefix @ bs"

lemma length_v4InV6Prefix [simp]: "length v4InV6Prefix = 12"
  by (simp add: v4InV6Prefix_def)

lemma To4_4 [simp]: "length ip = 4 \<Longrightarrow> To4 ip = Some ip"
  by (simp add: To4_def)

lemma To4_IPv4 [simp]: "length bs = 4 \<Longrightarrow> To4 (IPv4 bs) = Some bs"
  by (simp add: To4_def IPv4_def)

lemma length_To4: "To4 ip = Some p \<Longrightarrow> length p = 4"
  by (auto simp: To4_def split: if_splits)

section \<open>Masks\<close>

text \<open>The bits of a byte, most significant first.\<close>

definition byte_bits :: "u8 \<Rightarrow> bool list" where
  "byte_bits v = map (bit v) [7, 6, 5, 4, 3, 2, 1, 0]"

definition mask_bits :: "IPMask \<Rightarrow> bool list" where
  "mask_bits m = concat (map byte_bits m)"

text \<open>\<open>simpleMaskLength\<close>: the number of leading ones if only zeros follow, else \<open>None\<close> (-1).\<close>

definition simpleMaskLength :: "IPMask \<Rightarrow> nat option" where
  "simpleMaskLength m =
     (let bs = mask_bits m in
      if list_all Not (dropWhile id bs) then Some (length (takeWhile id bs)) else None)"

definition Mask_Size :: "IPMask \<Rightarrow> nat \<times> nat" where
  "Mask_Size m = (case simpleMaskLength m of None \<Rightarrow> (0, 0) | Some n \<Rightarrow> (n, 8 * length m))"

text \<open>The bytes of \<open>CIDRMask\<close>: \<open>n\<close> ones, then zeros, over \<open>l\<close> bytes.\<close>

fun cidr_bytes :: "nat \<Rightarrow> nat \<Rightarrow> u8 list" where
  "cidr_bytes 0 n = []"
| "cidr_bytes (Suc l) n =
     (if 8 \<le> n then 255 # cidr_bytes l (n - 8)
      else NOT (drop_bit n 255) # cidr_bytes l 0)"

definition CIDRMask :: "nat \<Rightarrow> nat \<Rightarrow> IPMask" where
  "CIDRMask ones bits =
     (if bits \<noteq> 32 \<and> bits \<noteq> 128 then [] else if bits < ones then []
      else cidr_bytes (bits div 8) ones)"

text \<open>\<open>ip.Mask(m)\<close>, nil when the lengths do not fit.\<close>

definition IP_Mask :: "IP \<Rightarrow> IPMask \<Rightarrow> IP" where
  "IP_Mask ip0 m0 =
     (let m = (if length m0 = 16 \<and> length ip0 = 4 \<and> list_all (\<lambda>b. b = 255) (take 12 m0)
               then drop 12 m0 else m0);
          ip = (if length m = 4 \<and> length ip0 = 16 \<and> take 12 ip0 = v4InV6Prefix
                then drop 12 ip0 else ip0)
      in if length ip \<noteq> length m then [] else map2 (AND) ip m)"

section \<open>Printing\<close>

definition hex_byte :: "u8 \<Rightarrow> string" where
  "hex_byte b = [digit_char (unat b div 16), digit_char (unat b mod 16)]"

definition hexString :: "u8 list \<Rightarrow> string" where
  "hexString bs = concat (map hex_byte bs)"

definition Mask_String :: "IPMask \<Rightarrow> string" where
  "Mask_String m = (if m = [] then ''<nil>'' else hexString m)"

fun words16 :: "u8 list \<Rightarrow> nat list" where
  "words16 (a # b # rest) = (unat a * 256 + unat b) # words16 rest"
| "words16 _ = []"

text \<open>
  The longest run of zero groups, the first one where two are as long: \<open>(e0, e1)\<close> as group
  indices, \<open>None\<close> when no run is longer than one group.
\<close>

fun zero_run :: "nat list \<Rightarrow> nat" where
  "zero_run (0 # ws) = Suc (zero_run ws)"
| "zero_run _ = 0"

fun longest_zeros :: "nat \<Rightarrow> nat list \<Rightarrow> nat \<times> nat \<Rightarrow> nat \<times> nat" where
  "longest_zeros i [] best = best"
| "longest_zeros i (w # ws) best =
     longest_zeros (Suc i) ws
       (if snd best < zero_run (w # ws) then (i, zero_run (w # ws)) else best)"

definition colon_groups :: "nat list \<Rightarrow> string" where
  "colon_groups ws = join_with '':'' (map hex ws)"

definition IPv6_String :: "nat list \<Rightarrow> string" where
  "IPv6_String ws =
     (let (i, n) = longest_zeros 0 ws (0, 0) in
      if n \<le> 1 then colon_groups ws
      else colon_groups (take i ws) @ ''::'' @ colon_groups (drop (i + n) ws))"

definition dotted :: "u8 list \<Rightarrow> string" where
  "dotted bs = join_with ''.'' (map (\<lambda>b. FormatUint (unat b)) bs)"

definition IP_String :: "IP \<Rightarrow> string" where
  "IP_String ip =
     (if ip = [] then ''<nil>''
      else case To4 ip of
             Some p \<Rightarrow> dotted p
           | None \<Rightarrow> if length ip \<noteq> 16 then ''?'' @ hexString ip else IPv6_String (words16 ip))"

definition networkNumberAndMask :: "IPNet \<Rightarrow> (IP \<times> IPMask) option" where
  "networkNumberAndMask n =
     (let ip = (case To4 (net_IP n) of Some p \<Rightarrow> p | None \<Rightarrow> net_IP n); m = net_Mask n in
      if length ip \<noteq> 4 \<and> length ip \<noteq> 16 then None
      else if length m = 4 then (if length ip \<noteq> 4 then None else Some (ip, m))
      else if length m = 16 then Some (ip, if length ip = 4 then drop 12 m else m)
      else None)"

definition IPNet_String :: "IPNet \<Rightarrow> string" where
  "IPNet_String n =
     (case networkNumberAndMask n of
        None \<Rightarrow> ''<nil>''
      | Some (ip, m) \<Rightarrow>
          (case simpleMaskLength m of
             None \<Rightarrow> IP_String ip @ ''/'' @ Mask_String m
           | Some l \<Rightarrow> IP_String ip @ ''/'' @ FormatUint l))"

section \<open>Parsing\<close>

text \<open>
  \<open>dtoi\<close> and \<open>xtoi\<close>: the number at the start of a string and how many bytes it takes; they
  give up at \<open>0xFFFFFF\<close> and when there is no digit.
\<close>

definition digits_value :: "nat \<Rightarrow> string \<Rightarrow> nat" where
  "digits_value b ds =
     foldl (\<lambda>n c. n * b + (case digit_val c of None \<Rightarrow> 0 | Some d \<Rightarrow> d)) 0 ds"

definition leading_number :: "nat \<Rightarrow> (char \<Rightarrow> bool) \<Rightarrow> string \<Rightarrow> (nat \<times> nat) option" where
  "leading_number b is_digit s =
     (let ds = takeWhile is_digit s; n = digits_value b ds in
      if ds = [] \<or> 16777215 \<le> n then None else Some (n, length ds))"

definition dtoi :: "string \<Rightarrow> (nat \<times> nat) option" where
  "dtoi = leading_number 10 is_dec_digit"

definition xtoi :: "string \<Rightarrow> (nat \<times> nat) option" where
  "xtoi = leading_number 16 is_hex_digit"

fun v4_fields :: "nat \<Rightarrow> bool \<Rightarrow> string \<Rightarrow> u8 list option" where
  "v4_fields 0 first s = (if s = [] then Some [] else None)"
| "v4_fields (Suc k) first s =
     (if s = [] then None
      else if \<not> first \<and> hd s \<noteq> CHR ''.'' then None
      else
        let t = (if first then s else tl s) in
        case dtoi t of
          None \<Rightarrow> None
        | Some (n, c) \<Rightarrow>
            if 255 < n then None
            else if 1 < c \<and> hd t = CHR ''0'' then None
            else map_option ((#) (of_nat n)) (v4_fields k False (drop c t)))"

definition parseIPv4 :: "string \<Rightarrow> u8 list option" where
  "parseIPv4 s = v4_fields 4 True s"

text \<open>
  The loop of \<open>parseIPv6\<close>, one group per step: the bytes so far, where the ellipsis stands, and
  the rest of the string. The first argument is the number of groups that still fit.
\<close>

fun v6_groups ::
  "nat \<Rightarrow> u8 list \<Rightarrow> nat option \<Rightarrow> string \<Rightarrow> (u8 list \<times> nat option \<times> string) option" where
  "v6_groups 0 acc e s = Some (acc, e, s)"
| "v6_groups (Suc k) acc e s =
     (case xtoi s of
        None \<Rightarrow> None
      | Some (n, c) \<Rightarrow>
          if 65535 < n then None
          else if c < length s \<and> s ! c = CHR ''.'' then
            (if e = None \<and> length acc \<noteq> 12 \<or> 16 < length acc + 4 then None
             else (case parseIPv4 s of None \<Rightarrow> None | Some v4 \<Rightarrow> Some (acc @ v4, e, [])))
          else
            let acc' = acc @ [of_nat (n div 256), of_nat (n mod 256)]; s1 = drop c s in
            if s1 = [] then Some (acc', e, [])
            else if hd s1 \<noteq> CHR '':'' \<or> length s1 = 1 then None
            else if hd (tl s1) = CHR '':'' then
              (if e \<noteq> None then None
               else if tl (tl s1) = [] then Some (acc', Some (length acc'), [])
               else v6_groups k acc' (Some (length acc')) (tl (tl s1)))
            else v6_groups k acc' e (tl s1))"

definition v6_expand :: "(u8 list \<times> nat option \<times> string) option \<Rightarrow> u8 list option" where
  "v6_expand r =
     (case r of
        None \<Rightarrow> None
      | Some (acc, e, s) \<Rightarrow>
          if s \<noteq> [] then None
          else if length acc < 16 then
            (case e of None \<Rightarrow> None
             | Some k \<Rightarrow> Some (take k acc @ replicate (16 - length acc) 0 @ drop k acc))
          else if e \<noteq> None then None
          else Some acc)"

definition parseIPv6 :: "string \<Rightarrow> u8 list option" where
  "parseIPv6 s =
     (if take 2 s = ''::'' then
        (if drop 2 s = [] then Some (replicate 16 0)
         else v6_expand (v6_groups 8 [] (Some 0) (drop 2 s)))
      else v6_expand (v6_groups 8 [] None s))"

text \<open>\<open>ParseIP\<close>: the first dot or colon tells the family; nil (here \<open>[]\<close>) on failure.\<close>

fun ParseIP_at :: "string \<Rightarrow> string \<Rightarrow> IP" where
  "ParseIP_at s [] = []"
| "ParseIP_at s (c # cs) =
     (if c = CHR ''.'' then (case parseIPv4 s of None \<Rightarrow> [] | Some bs \<Rightarrow> IPv4 bs)
      else if c = CHR '':'' then (case parseIPv6 s of None \<Rightarrow> [] | Some bs \<Rightarrow> bs)
      else ParseIP_at s cs)"

definition ParseIP :: "string \<Rightarrow> IP" where
  "ParseIP s = ParseIP_at s s"

definition ParseCIDR :: "string \<Rightarrow> error + IPNet" where
  "ParseCIDR s =
     (let addr = takeWhile (\<lambda>c. c \<noteq> CHR ''/'') s; rest = dropWhile (\<lambda>c. c \<noteq> CHR ''/'') s;
          mask = tl rest; bad = Inl (External (''invalid CIDR address: '' @ s)) in
      if rest = [] then bad
      else
        case (case parseIPv4 addr of Some bs \<Rightarrow> Some (IPv4 bs, 32)
              | None \<Rightarrow> map_option (\<lambda>bs. (bs, 128)) (parseIPv6 addr)) of
          None \<Rightarrow> bad
        | Some (ip, bits) \<Rightarrow>
            (case dtoi mask of
               None \<Rightarrow> bad
             | Some (n, i) \<Rightarrow>
                 if i \<noteq> length mask \<or> bits < n then bad
                 else let m = CIDRMask n bits in
                   Inr \<lparr>net_IP = IP_Mask ip m, net_Mask = m\<rparr>))"

section \<open>Facts about addresses and masks\<close>

lemma v4_fields_length: "v4_fields k b s = Some bs \<Longrightarrow> length bs = k"
  by (induction k b s arbitrary: bs rule: v4_fields.induct)
    (auto split: if_splits option.splits simp: Let_def)

lemma parseIPv4_length: "parseIPv4 s = Some bs \<Longrightarrow> length bs = 4"
  by (simp add: parseIPv4_def v4_fields_length)

lemma v6_groups_length:
  "v6_groups k acc e s = Some (bs, e', r) \<Longrightarrow> length acc + 2 * k = 16 \<Longrightarrow> length bs \<le> 16"
proof (induction k arbitrary: acc e s)
  case 0
  then show ?case by simp
next
  case (Suc k)
  obtain n c where x: "xtoi s = Some (n, c)"
    using Suc.prems(1) by (cases "xtoi s") auto
  let ?acc = "acc @ [of_nat (n div 256), of_nat (n mod 256)]"
  have len: "length ?acc + 2 * k = 16" using Suc.prems(2) by simp
  consider (v4) v4 where "parseIPv4 s = Some v4" "bs = acc @ v4" "length acc + 4 \<le> 16"
    | (stop) "bs = ?acc"
    | (go) e2 s2 where "v6_groups k ?acc e2 s2 = Some (bs, e', r)"
    using Suc.prems(1) by (simp add: x Let_def split: if_splits option.splits)
  then show ?case
  proof cases
    case v4
    then show ?thesis using parseIPv4_length [of s v4] by simp
  next
    case stop
    then show ?thesis using len by simp
  next
    case go
    then show ?thesis using Suc.IH len by blast
  qed
qed

lemma parseIPv6_length: "parseIPv6 s = Some bs \<Longrightarrow> length bs = 16"
proof -
  have *: "length bs = 16" if "v6_expand (v6_groups 8 [] e t) = Some bs" for e t
    using that v6_groups_length [of 8 "[]" e t]
    by (auto simp: v6_expand_def split: option.splits if_splits)
  assume "parseIPv6 s = Some bs"
  then show ?thesis using * by (auto simp: parseIPv6_def split: if_splits)
qed

lemma ParseIP_at_length: "ParseIP_at s t = [] \<or> length (ParseIP_at s t) = 16"
  by (induction t)
    (auto split: option.splits simp: IPv4_def dest: parseIPv4_length parseIPv6_length)

lemma ParseIP_length: "ParseIP s \<noteq> [] \<Longrightarrow> length (ParseIP s) = 16"
  using ParseIP_at_length [of s s] by (auto simp: ParseIP_def)

end
