(* ===== verification/K8s_Objects.thy ===== *)
theory K8s_Objects
  imports Go_Net "HOL-Library.AList_Mapping"
begin

text \<open>
  The Kubernetes objects the program reads: namespaces, pods with their network status, the
  MultiNetworkPolicy and the NetworkAttachmentDefinition. Each record has the fields the source
  reads; a field \<open>..._Other\<close> stands for the rest of the object, which no code reads but which
  \<open>reflect.DeepEqual\<close> compares. A label selector is a type parameter: what it selects is decided
  by the apimachinery library, which the renderer calls.
\<close>

datatype NamespacedName = NamespacedName (nn_Namespace: string) (nn_Name: string)

text \<open>
  \<open>map[string]string\<close>, \<open>None\<close> for the nil map; reading a nil map finds nothing. Two mappings
  are equal when they have the same entries, as for \<open>reflect.DeepEqual\<close>.
\<close>

type_synonym labels = "(string, string) mapping option"

definition label_map :: "labels \<Rightarrow> (string \<rightharpoonup> string)" where
  "label_map l = (case l of None \<Rightarrow> Map.empty | Some m \<Rightarrow> Mapping.lookup m)"

section \<open>Namespaces and network attachment definitions\<close>

record Namespace =
  ns_Name :: string
  ns_Labels :: labels
  ns_Other :: nat

record NetAttachDef =
  nad_Namespace :: string
  nad_Name :: string
  nad_Spec :: string
  nad_Other :: nat

section \<open>Pods\<close>

record PciDevice =
  PciAddress :: string

record DeviceInfo =
  dev_Type :: string
  dev_Pci :: "PciDevice option"

record NetworkStatus =
  st_Name :: string
  st_Interface :: string
  st_IPs :: "string slice"
  st_DeviceInfo :: "DeviceInfo option"
  st_Other :: nat

record NetworkSelection =
  sel_Namespace :: string
  sel_Name :: string

record Pod =
  pod_Namespace :: string
  pod_Name :: string
  pod_UID :: string
  pod_Labels :: labels
  pod_Annotations :: labels
  pod_NodeName :: string
  pod_Phase :: string
  pod_HostNetwork :: bool
  pod_Other :: nat

section \<open>Policies\<close>

record IPBlock =
  blk_CIDR :: string
  blk_Except :: "string list"

text \<open>
  A port of the API is a number or the name of a port, or is not given. \<open>String()\<close> of the API
  machinery prints the name or the number, also of the nil pointer.
\<close>

datatype IntOrString = FromInt int | FromString string

definition Itoa :: "int \<Rightarrow> string" where
  "Itoa n = (if n < 0 then CHR ''-'' # FormatUint (nat (- n)) else FormatUint (nat n))"

definition IntOrString_String :: "IntOrString option \<Rightarrow> string" where
  "IntOrString_String p =
     (case p of None \<Rightarrow> ''<nil>'' | Some (FromInt n) \<Rightarrow> Itoa n | Some (FromString s) \<Rightarrow> s)"

record PolicyPort =
  mp_Protocol :: "string option"
  mp_Port :: "IntOrString option"

record 'sel PolicyPeer =
  peer_PodSelector :: "'sel option"
  peer_NamespaceSelector :: "'sel option"
  peer_IPBlock :: "IPBlock option"

record 'sel EgressRule =
  eg_Ports :: "PolicyPort list"
  eg_To :: "'sel PolicyPeer list"

record 'sel Policy =
  pol_Namespace :: string
  pol_Name :: string
  pol_Annotations :: labels
  pol_PolicyTypes :: "string list"
  pol_PodSelector :: 'sel
  pol_Egress :: "'sel EgressRule list"
  pol_Other :: nat

end
