(* ===== verification/Policy_Rules.thy ===== *)
theory Policy_Rules
  imports Net_Utils
begin

text \<open>
  Model of \<open>pkg/policyrules/types.go\<close>: the rule sets the renderer produces and the generator
  consumes. \<open>Rules\<close> keeps the difference between a nil and an empty slice, on which the
  generator branches.
\<close>

type_synonym PolicyType = string
type_synonym PolicyAction = string
type_synonym PolicyPortProtocol = string

definition PolicyTypeIngress :: PolicyType where
  [go_consts]: "PolicyTypeIngress = ''Ingress''"

definition PolicyTypeEgress :: PolicyType where
  [go_consts]: "PolicyTypeEgress = ''Egress''"

definition PolicyActionPass :: PolicyAction where
  [go_consts]: "PolicyActionPass = ''Pass''"

definition PolicyActionDrop :: PolicyAction where
  [go_consts]: "PolicyActionDrop = ''Drop''"

definition ProtocolTCP :: PolicyPortProtocol where
  [go_consts]: "ProtocolTCP = ''TCP''"

definition ProtocolUDP :: PolicyPortProtocol where
  [go_consts]: "ProtocolUDP = ''UDP''"

record RuleInterface =
  ri_Network :: string
  ri_InterfaceName :: string
  ri_IPs :: "IP list"
  ri_DeviceID :: string

definition GetUID :: "RuleInterface \<Rightarrow> string" where
  "GetUID i = join_with ''/'' [ri_Network i, ri_InterfaceName i]"

record Port =
  port_Protocol :: PolicyPortProtocol
  port_Number :: u16

record Rule =
  rule_IPCidrs :: "IPNet list"
  rule_Ports :: "Port list"
  rule_Action :: PolicyAction

record PolicyRuleSet =
  rs_IfcInfo :: RuleInterface
  rs_Type :: PolicyType
  rs_Rules :: "Rule slice"

lemma policy_consts_distinct [simp]:
  "PolicyTypeEgress \<noteq> PolicyTypeIngress" "PolicyTypeIngress \<noteq> PolicyTypeEgress"
  "PolicyActionPass \<noteq> PolicyActionDrop" "PolicyActionDrop \<noteq> PolicyActionPass"
  "ProtocolTCP \<noteq> ProtocolUDP" "ProtocolUDP \<noteq> ProtocolTCP"
  by (simp_all add: go_consts)

text \<open>
  The identifier of an interface determines the network and the interface name as long as
  interface names have no slash, which holds for Linux interface names.
\<close>

lemma append_sep_inj:
  "a @ c # b = a' @ c # b' \<Longrightarrow> c \<notin> set b \<Longrightarrow> c \<notin> set b' \<Longrightarrow> a = a' \<and> b = b'"
proof (induction a arbitrary: a')
  case Nil
  then show ?case by (cases a') auto
next
  case (Cons x xs)
  then show ?case by (cases a') auto
qed

lemma GetUID_inj:
  assumes "GetUID i = GetUID j"
    and "CHR ''/'' \<notin> set (ri_InterfaceName i)" and "CHR ''/'' \<notin> set (ri_InterfaceName j)"
  shows "ri_Network i = ri_Network j \<and> ri_InterfaceName i = ri_InterfaceName j"
proof (rule append_sep_inj)
  show "ri_Network i @ CHR ''/'' # ri_InterfaceName i = ri_Network j @ CHR ''/'' # ri_InterfaceName j"
    using assms(1) by (simp add: GetUID_def)
qed (use assms in auto)

end
