(* ===== verification/Change_Tracker.thy ===== *)
theory Change_Tracker
  imports Net_Utils "HOL-Library.AList"
begin

text \<open>
  What the four controllers of \<open>pkg/controllers\<close> have in common: Go maps, the objects an
  informer delivers and their dispatch to the registered handlers, and the change tracker with
  the map it is applied to. The sources repeat these functions once per object type; they are
  defined here once and instantiated by the theory of each controller. The locale \<open>tracked\<close> is the
  interface between a tracker and its object type; inside it the tracker is proved to be a
  faithful buffer: after any interleaving of informer events and applications, applying the
  pending changes makes the map the image of the cluster.
\<close>

section \<open>Go maps\<close>

text \<open>
  A map is the list of its entries in the order an iteration visits them, which Go leaves
  unspecified: no theorem assumes more of it than distinct keys. \<open>None\<close> is a nil map.
\<close>

type_synonym ('k, 'v) gomap = "('k \<times> 'v) list"

definition go_map :: "('k, 'v) gomap \<Rightarrow> bool" where
  "go_map m \<longleftrightarrow> distinct (map fst m)"

lemma go_map_simps [simp]:
  "go_map []" "go_map [e]"
  "go_map m \<Longrightarrow> go_map (AList.update k v m)"
  "go_map m \<Longrightarrow> go_map (AList.delete k m)"
  by (simp_all add: go_map_def distinct_update distinct_delete)

lemma go_map_set: "go_map m \<Longrightarrow> (k, v) \<in> set m \<longleftrightarrow> map_of m k = Some v"
  by (auto simp: go_map_def)

section \<open>Informer objects and handlers\<close>

text \<open>
  The \<open>interface{}\<close> a handler receives: an object of the expected type, a
  \<open>cache.DeletedFinalStateUnknown\<close> with the object it carries, or anything else. A handler is
  a change of the world (of the server that registered it). The first component of the result
  is the number of errors reported to \<open>utilruntime.HandleError\<close>.
\<close>

datatype 'o informer_obj = IsObj 'o | Tombstone "'o informer_obj" | OtherObj

definition controller_add :: "('o \<Rightarrow> 'w \<Rightarrow> 'w) list \<Rightarrow> 'o informer_obj \<Rightarrow> 'w \<Rightarrow> nat \<times> 'w" where
  "controller_add handlers obj w =
     (case obj of
        IsObj o' \<Rightarrow> (0, fold (\<lambda>h. h o') handlers w)
      | _ \<Rightarrow> (1, w))"

definition controller_update ::
  "('o \<Rightarrow> 'o \<Rightarrow> 'w \<Rightarrow> 'w) list \<Rightarrow> 'o informer_obj \<Rightarrow> 'o informer_obj \<Rightarrow> 'w \<Rightarrow> nat \<times> 'w" where
  "controller_update handlers oldObj newObj w =
     (case oldObj of
        IsObj old \<Rightarrow>
          (case newObj of
             IsObj new \<Rightarrow> (0, fold (\<lambda>h. h old new) handlers w)
           | _ \<Rightarrow> (1, w))
      | _ \<Rightarrow> (1, w))"

text \<open>A deletion without a tombstone of an unexpected type reports two errors.\<close>

definition controller_delete :: "('o \<Rightarrow> 'w \<Rightarrow> 'w) list \<Rightarrow> 'o informer_obj \<Rightarrow> 'w \<Rightarrow> nat \<times> 'w" where
  "controller_delete handlers obj w =
     (case obj of
        IsObj o' \<Rightarrow> (0, fold (\<lambda>h. h o') handlers w)
      | Tombstone t \<Rightarrow> (case t of IsObj o' \<Rightarrow> (0, fold (\<lambda>h. h o') handlers w) | _ \<Rightarrow> (1, w))
      | OtherObj \<Rightarrow> (2, w))"

text \<open>\<open>Run\<close>: the answer of \<open>WaitForNamedCacheSync\<close> is an argument.\<close>

definition controller_run :: "('w \<Rightarrow> 'w) list \<Rightarrow> bool \<Rightarrow> 'w \<Rightarrow> 'w" where
  "controller_run handlers synced w = (if \<not> synced then w else fold (\<lambda>h. h) handlers w)"

section \<open>The tracker\<close>

record ('k, 'i) change =
  previous :: "('k, 'i) gomap option"
  current :: "('k, 'i) gomap option"

type_synonym ('k, 'i) changes = "('k, ('k, 'i) change) gomap"

text \<open>The object an update is about: the current one, or the previous one when it is deleted.\<close>

definition subject :: "'o option \<Rightarrow> 'o option \<Rightarrow> 'o option" where
  "subject prev cur = (case cur of None \<Rightarrow> prev | Some o' \<Rightarrow> Some o')"

definition to_map_of :: "('o \<Rightarrow> ('k, 'i) gomap option) \<Rightarrow> 'o option \<Rightarrow> ('k, 'i) gomap option" where
  "to_map_of to_map obj = (case obj of None \<Rightarrow> None | Some o' \<Rightarrow> to_map o')"

definition tracker_update ::
  "('o \<Rightarrow> 'k) \<Rightarrow> ('o \<Rightarrow> ('k, 'i) gomap option) \<Rightarrow> ('k, 'i) changes \<Rightarrow> 'o option \<Rightarrow> 'o option \<Rightarrow>
    bool \<times> ('k, 'i) changes" where
  "tracker_update key to_map items prev cur =
     (case subject prev cur of
        None \<Rightarrow> (False, items)
      | Some o' \<Rightarrow>
          let name = key o';
              change = (case map_of items name of
                          None \<Rightarrow> \<lparr>previous = to_map_of to_map prev, current = None\<rparr>
                        | Some c \<Rightarrow> c);
              change' = change\<lparr>current := to_map_of to_map cur\<rparr>
          in if previous change' = current change'
             then (True, AList.delete name (AList.update name change' items))
             else (True, AList.update name change' items))"

text \<open>\<open>merge\<close> and \<open>unmerge\<close> on a map that is not nil, and \<open>apply\<close>, which clears the changes.\<close>

definition merge :: "('k, 'i) gomap option \<Rightarrow> ('k, 'i) gomap \<Rightarrow> ('k, 'i) gomap" where
  "merge other m = fold (\<lambda>(name, info). AList.update name info) (elems other) m"

definition unmerge :: "('k, 'i) gomap option \<Rightarrow> ('k, 'i) gomap \<Rightarrow> ('k, 'i) gomap" where
  "unmerge other m = fold (\<lambda>(name, info). AList.delete name) (elems other) m"

definition tracker_apply ::
  "('k, 'i) gomap \<Rightarrow> ('k, 'i) changes \<Rightarrow> ('k, 'i) gomap \<times> ('k, 'i) changes" where
  "tracker_apply m items =
     (fold (\<lambda>(name, change) m'. merge (current change) (unmerge (previous change) m')) items m, [])"

section \<open>One change\<close>

text \<open>A map for at most one key, as \<open>podToPodMap\<close> and its siblings build them.\<close>

definition only_key :: "'k \<Rightarrow> ('k, 'i) gomap option \<Rightarrow> bool" where
  "only_key k m \<longleftrightarrow> m = None \<or> (\<exists>i. m = Some [(k, i)])"

definition entry :: "'k \<Rightarrow> ('k, 'i) gomap option \<Rightarrow> 'i option" where
  "entry k m = map_of (elems m) k"

lemma only_key_cases:
  assumes "only_key k m"
  obtains "m = None" | i where "m = Some [(k, i)]"
  using assms by (auto simp: only_key_def)

text \<open>What the entry of one change does to its own key; other keys are left alone.\<close>

lemma change_effect:
  assumes "only_key k (previous c)" and "only_key k (current c)"
  shows "map_of (merge (current c) (unmerge (previous c) m)) =
    (if entry k (current c) \<noteq> None then (map_of m)(k := entry k (current c))
     else if entry k (previous c) \<noteq> None then (map_of m)(k := None)
     else map_of m)"
  using assms
  by (elim only_key_cases)
    (auto simp: merge_def unmerge_def entry_def update_conv' delete_conv' fun_eq_iff)

definition well_keyed :: "('k, 'i) changes \<Rightarrow> bool" where
  "well_keyed items \<longleftrightarrow>
     go_map items \<and> (\<forall>(k, c)\<in>set items. only_key k (previous c) \<and> only_key k (current c))"

lemma well_keyed_Nil [simp]: "well_keyed []"
  by (simp add: well_keyed_def)

text \<open>The map after applying, key by key: a key without a pending change keeps its entry.\<close>

lemma apply_effect:
  assumes "well_keyed items"
  shows "map_of (fst (tracker_apply m items)) k =
    (case map_of items k of
       None \<Rightarrow> map_of m k
     | Some c \<Rightarrow>
         if entry k (current c) \<noteq> None then entry k (current c)
         else if entry k (previous c) \<noteq> None then None else map_of m k)"
  using assms
proof (induction items arbitrary: m)
  case Nil
  then show ?case by (simp add: tracker_apply_def)
next
  case (Cons e items)
  obtain k' c where e: "e = (k', c)" by (cases e)
  let ?m = "merge (current c) (unmerge (previous c) m)"
  have wk: "well_keyed items" and "k' \<notin> fst ` set items"
    and keyed: "only_key k' (previous c)" "only_key k' (current c)"
    using Cons.prems by (auto simp: e well_keyed_def go_map_def)
  then have fresh: "map_of items k' = None" by (simp add: map_of_eq_None_iff)
  have "fst (tracker_apply m (e # items)) = fst (tracker_apply ?m items)"
    by (simp add: tracker_apply_def e)
  with Cons.IH [OF wk, of ?m] fresh show ?case
    by (auto simp: e change_effect [OF keyed] split: option.splits)
qed

lemma apply_clears [simp]: "snd (tracker_apply m items) = []"
  by (simp add: tracker_apply_def)

lemma go_map_merge: "go_map m \<Longrightarrow> go_map (merge other m)"
proof -
  have "go_map m \<Longrightarrow> go_map (fold (\<lambda>(name, info). AList.update name info) es m)" for es
    by (induction es arbitrary: m) auto
  then show "go_map m \<Longrightarrow> go_map (merge other m)" by (simp add: merge_def)
qed

lemma go_map_unmerge: "go_map m \<Longrightarrow> go_map (unmerge other m)"
proof -
  have "go_map m \<Longrightarrow> go_map (fold (\<lambda>(name, info). AList.delete name) es m)" for es
    by (induction es arbitrary: m) auto
  then show "go_map m \<Longrightarrow> go_map (unmerge other m)" by (simp add: unmerge_def)
qed

lemma go_map_apply: "go_map m \<Longrightarrow> go_map (fst (tracker_apply m items))"
  unfolding tracker_apply_def fst_conv
  by (induction items arbitrary: m) (auto simp: go_map_merge go_map_unmerge)

text \<open>What holds of every entry of the map and of the pending changes holds of the map after applying.\<close>

definition all_entries :: "('k \<Rightarrow> 'i \<Rightarrow> bool) \<Rightarrow> ('k, 'i) changes \<Rightarrow> ('k, 'i) gomap \<Rightarrow> bool" where
  "all_entries P items m \<longleftrightarrow>
     (\<forall>(k, i)\<in>set m. P k i) \<and>
     (\<forall>(_, c)\<in>set items. \<forall>(k, i)\<in>set (elems (previous c)) \<union> set (elems (current c)). P k i)"

lemma set_update_subset: "set (AList.update k i m) \<subseteq> insert (k, i) (set m)"
  by (induction m) auto

lemma set_merge_subset: "set (merge other m) \<subseteq> set (elems other) \<union> set m"
proof -
  have "set (fold (\<lambda>(name, info). AList.update name info) es m) \<subseteq> set es \<union> set m" for es
  proof (induction es arbitrary: m)
    case (Cons e es)
    have "set (AList.update (fst e) (snd e) m) \<subseteq> insert e (set m)" using set_update_subset by fastforce
    then show ?case using Cons.IH [of "AList.update (fst e) (snd e) m"] by (auto simp: case_prod_unfold)
  qed simp
  then show ?thesis by (simp add: merge_def)
qed

lemma set_unmerge_subset: "set (unmerge other m) \<subseteq> set m"
proof -
  have "set (fold (\<lambda>(name, info). AList.delete name) es m) \<subseteq> set m" for es
  proof (induction es arbitrary: m)
    case (Cons e es)
    have "set (AList.delete (fst e) m) \<subseteq> set m" by (auto simp: AList.delete_eq)
    then show ?case using Cons.IH [of "AList.delete (fst e) m"] by (simp add: case_prod_unfold)
  qed simp
  then show ?thesis by (simp add: unmerge_def)
qed

lemma all_entries_mono: "all_entries P items m \<Longrightarrow> (\<And>k i. P k i \<Longrightarrow> Q k i) \<Longrightarrow> all_entries Q items m"
  unfolding all_entries_def by fast

lemma all_entries_apply: "all_entries P items m \<Longrightarrow> all_entries P [] (fst (tracker_apply m items))"
proof (induction items arbitrary: m)
  case (Cons e items)
  obtain k c where e: "e = (k, c)" by (cases e)
  let ?m = "merge (current c) (unmerge (previous c) m)"
  have "set ?m \<subseteq> set (elems (current c)) \<union> set m" using set_merge_subset set_unmerge_subset by fastforce
  moreover have "\<forall>(k, i)\<in>set (elems (current c)) \<union> set m. P k i"
    using Cons.prems unfolding all_entries_def e by (simp add: ball_Un)
  ultimately have "\<forall>(k, i)\<in>set ?m. P k i" by blast
  then have "all_entries P items ?m" using Cons.prems unfolding all_entries_def e by simp
  from Cons.IH [OF this] show ?case by (simp add: tracker_apply_def e)
qed (simp add: tracker_apply_def)

section \<open>The tracker against the cluster\<close>

text \<open>
  The cluster is the set of objects by key. An informer reports its changes with the object
  before and after; \<open>legal\<close> says that the reported old object is the one the cluster had, the
  guarantee of client-go for a handler registered once.
\<close>

datatype 'o event = Added 'o | Updated 'o 'o | Deleted 'o

fun event_prev :: "'o event \<Rightarrow> 'o option" where
  "event_prev (Added b) = None"
| "event_prev (Updated a b) = Some a"
| "event_prev (Deleted a) = Some a"

fun event_cur :: "'o event \<Rightarrow> 'o option" where
  "event_cur (Added b) = Some b"
| "event_cur (Updated a b) = Some b"
| "event_cur (Deleted a) = None"

fun legal :: "('o \<Rightarrow> 'k) \<Rightarrow> ('k \<rightharpoonup> 'o) \<Rightarrow> 'o event \<Rightarrow> bool" where
  "legal key cluster (Added b) \<longleftrightarrow> cluster (key b) = None"
| "legal key cluster (Updated a b) \<longleftrightarrow> key a = key b \<and> cluster (key a) = Some a"
| "legal key cluster (Deleted a) \<longleftrightarrow> cluster (key a) = Some a"

fun after :: "('o \<Rightarrow> 'k) \<Rightarrow> ('k \<rightharpoonup> 'o) \<Rightarrow> 'o event \<Rightarrow> ('k \<rightharpoonup> 'o)" where
  "after key cluster (Added b) = cluster(key b \<mapsto> b)"
| "after key cluster (Updated a b) = cluster(key b \<mapsto> b)"
| "after key cluster (Deleted a) = cluster(key a := None)"

text \<open>
  Events and applications in any order: the informer goroutine calls \<open>Update\<close>, the sync loop
  calls \<open>apply\<close>, and the lock of the tracker makes each of them one step.
\<close>

inductive tracker_reach ::
  "('o \<Rightarrow> 'k) \<Rightarrow> ('o \<Rightarrow> ('k, 'i) gomap option) \<Rightarrow> ('k \<rightharpoonup> 'o) \<Rightarrow> ('k, 'i) changes \<Rightarrow> ('k, 'i) gomap \<Rightarrow> bool"
  for key :: "'o \<Rightarrow> 'k" and to_map :: "'o \<Rightarrow> ('k, 'i) gomap option" where
  start: "tracker_reach key to_map Map.empty [] []"
| informed: "tracker_reach key to_map cluster items m \<Longrightarrow> legal key cluster ev \<Longrightarrow>
    tracker_reach key to_map (after key cluster ev)
      (snd (tracker_update key to_map items (event_prev ev) (event_cur ev))) m"
| applied: "tracker_reach key to_map cluster items m \<Longrightarrow>
    tracker_reach key to_map cluster (snd (tracker_apply m items)) (fst (tracker_apply m items))"

text \<open>What the map should hold for a key.\<close>

definition view :: "('o \<Rightarrow> ('k, 'i) gomap option) \<Rightarrow> ('k \<rightharpoonup> 'o) \<Rightarrow> 'k \<Rightarrow> 'i option" where
  "view to_map cluster k = entry k (to_map_of to_map (cluster k))"

definition tracker_inv ::
  "('o \<Rightarrow> 'k) \<Rightarrow> ('o \<Rightarrow> ('k, 'i) gomap option) \<Rightarrow> ('k \<rightharpoonup> 'o) \<Rightarrow> ('k, 'i) changes \<Rightarrow> ('k, 'i) gomap \<Rightarrow> bool" where
  "tracker_inv key to_map cluster items m \<longleftrightarrow>
     well_keyed items \<and> go_map m \<and> (\<forall>k b. cluster k = Some b \<longrightarrow> key b = k) \<and>
     (\<forall>k. case map_of items k of
            None \<Rightarrow> map_of m k = view to_map cluster k
          | Some c \<Rightarrow> current c = to_map_of to_map (cluster k) \<and> entry k (previous c) = map_of m k)"

lemma entry_None [simp]: "entry k None = None"
  by (simp add: entry_def)

lemma to_map_of_simps [simp]:
  "to_map_of f None = None" "to_map_of f (Some b) = f b"
  by (simp_all add: to_map_of_def)

lemma well_keyed_update:
  assumes "well_keyed items" and "only_key k (previous c)" and "only_key k (current c)"
  shows "well_keyed (AList.update k c items)" and "well_keyed (AList.delete k items)"
proof -
  have g: "go_map items" "go_map (AList.update k c items)" "go_map (AList.delete k items)"
    using assms(1) by (simp_all add: well_keyed_def)
  show "well_keyed (AList.update k c items)"
    using assms g by (auto simp: well_keyed_def go_map_set update_conv' split: if_splits)
  show "well_keyed (AList.delete k items)"
    using assms g by (auto simp: well_keyed_def go_map_set delete_conv' split: if_splits)
qed

locale tracked =
  fixes key :: "'o \<Rightarrow> 'k" and to_map :: "'o \<Rightarrow> ('k, 'i) gomap option"
  assumes single: "only_key (key b) (to_map b)"
begin

lemma inv_apply:
  assumes "tracker_inv key to_map cluster items m"
  shows "map_of (fst (tracker_apply m items)) = view to_map cluster"
    and "tracker_inv key to_map cluster (snd (tracker_apply m items)) (fst (tracker_apply m items))"
proof -
  have "map_of (fst (tracker_apply m items)) k = view to_map cluster k" for k
    using assms by (auto simp: apply_effect tracker_inv_def view_def split: option.splits dest: spec [of _ k])
  then show all: "map_of (fst (tracker_apply m items)) = view to_map cluster" by auto
  show "tracker_inv key to_map cluster (snd (tracker_apply m items)) (fst (tracker_apply m items))"
    using assms by (simp add: tracker_inv_def go_map_apply all)
qed

text \<open>
  One update, with the cluster moving from \<open>old\<close> to \<open>new\<close> under the key \<open>k\<close>. A change that
  has become trivial may be dropped or kept.
\<close>

lemma inv_step:
  assumes "tracker_inv key to_map cluster items m" and "cluster k = old"
    and "\<forall>x. old = Some x \<or> new = Some x \<longrightarrow> key x = k"
    and ch: "ch = (case map_of items k of None \<Rightarrow> \<lparr>previous = to_map_of to_map old, current = None\<rparr> | Some c \<Rightarrow> c)"
    and drop: "gone \<Longrightarrow> previous ch = to_map_of to_map new"
  defines "ch' \<equiv> ch\<lparr>current := to_map_of to_map new\<rparr>"
  shows "tracker_inv key to_map (cluster(k := new))
    (if gone then AList.delete k (AList.update k ch' items) else AList.update k ch' items) m"
    (is "tracker_inv _ _ _ ?items _")
proof -
  note inv = assms(1) [unfolded tracker_inv_def]
  have old_keyed: "only_key k (to_map_of to_map x)" if "x = old \<or> x = new" for x
    using single assms(3) that by (cases x) (auto simp: only_key_def)
  have "only_key k (previous ch)"
  proof (cases "map_of items k")
    case None
    with old_keyed [of old] show ?thesis by (simp add: ch)
  next
    case (Some c)
    then show ?thesis using inv by (auto simp: ch well_keyed_def dest!: map_of_SomeD)
  qed
  then have keyed: "only_key k (previous ch')" "only_key k (current ch')"
    using old_keyed [of new] by (simp_all add: ch'_def)
  have wk: "well_keyed (AList.update k ch' items)"
    and "well_keyed (AList.delete k (AList.update k ch' items))"
    using well_keyed_update [OF _ keyed] inv by blast+
  then have "well_keyed ?items" by simp
  moreover have prev: "entry k (previous ch') = map_of m k"
    using inv [THEN conjunct2, THEN conjunct2, THEN conjunct2, THEN spec [of _ k]] assms(2)
    by (auto simp: ch ch'_def view_def split: option.splits)
  moreover have slot: "case map_of ?items j of
        None \<Rightarrow> map_of m j = view to_map (cluster(k := new)) j
      | Some c \<Rightarrow> current c = to_map_of to_map ((cluster(k := new)) j) \<and> entry j (previous c) = map_of m j"
    for j
  proof (cases "j = k")
    case True
    have "gone \<Longrightarrow> entry k (to_map_of to_map new) = map_of m k"
      using prev drop by (simp add: ch'_def)
    with True prev show ?thesis
      by (auto simp: update_conv' delete_conv' view_def ch'_def)
  next
    case False
    then have "map_of ?items j = map_of items j"
      by (simp add: update_conv' delete_conv')
    moreover have "case map_of items j of None \<Rightarrow> map_of m j = view to_map cluster j
        | Some c \<Rightarrow> current c = to_map_of to_map (cluster j) \<and> entry j (previous c) = map_of m j"
      using inv by blast
    ultimately show ?thesis
      using False by (cases "map_of items j") (simp_all add: view_def)
  qed
  moreover have "(cluster(k := new)) j = Some x \<Longrightarrow> key x = j" for j x
    using inv assms(3) by (auto split: if_splits)
  ultimately show ?thesis
    using inv unfolding tracker_inv_def by blast
qed

lemma inv_update:
  assumes "tracker_inv key to_map cluster items m" and "cluster k = old" and "subject old new = Some b"
    and "\<forall>x. old = Some x \<or> new = Some x \<longrightarrow> key x = k"
  shows "tracker_inv key to_map (cluster(k := new)) (snd (tracker_update key to_map items old new)) m"
proof -
  let ?ch = "case map_of items k of None \<Rightarrow> \<lparr>previous = to_map_of to_map old, current = None\<rparr> | Some c \<Rightarrow> c"
  have "key b = k" using assms(3,4) by (auto simp: subject_def split: option.splits)
  then have run: "snd (tracker_update key to_map items old new) =
      (if previous ?ch = to_map_of to_map new
       then AList.delete k (AList.update k (?ch\<lparr>current := to_map_of to_map new\<rparr>) items)
       else AList.update k (?ch\<lparr>current := to_map_of to_map new\<rparr>) items)"
    using assms(3) by (auto simp: tracker_update_def Let_def)
  show ?thesis
    unfolding run by (rule inv_step [OF assms(1,2,4) refl])
qed

lemma inv_reach:
  "tracker_reach key to_map cluster items m \<Longrightarrow> tracker_inv key to_map cluster items m"
proof (induction rule: tracker_reach.induct)
  case start
  then show ?case by (simp add: tracker_inv_def view_def)
next
  case (informed cluster items m ev)
  show ?case
  proof (cases ev)
    case (Added b)
    then have "cluster (key b) = None" using informed.hyps by simp
    from inv_update [OF informed.IH this, of "Some b" b] show ?thesis
      by (simp add: Added subject_def fun_upd_def)
  next
    case (Updated a b)
    then have k: "key a = key b" and c: "cluster (key b) = Some a" using informed.hyps by auto
    from inv_update [OF informed.IH c, of "Some b" b] k show ?thesis
      by (simp add: Updated subject_def fun_upd_def)
  next
    case (Deleted a)
    then have "cluster (key a) = Some a" using informed.hyps by simp
    from inv_update [OF informed.IH this, of None a] show ?thesis
      by (simp add: Deleted subject_def fun_upd_def)
  qed
next
  case (applied cluster items m)
  then show ?case using inv_apply(2) by blast
qed

text \<open>The pending changes, once applied, give the image of the cluster.\<close>

lemma apply_view:
  "tracker_reach key to_map cluster items m \<Longrightarrow>
    map_of (fst (tracker_apply m items)) = view to_map cluster \<and> go_map (fst (tracker_apply m items))"
  using inv_apply [OF inv_reach] by (auto simp: tracker_inv_def)

text \<open>No pending change: the map is already that image.\<close>

lemma quiet_view:
  "tracker_reach key to_map cluster [] m \<Longrightarrow> map_of m = view to_map cluster"
  using apply_view [of cluster "[]" m] by (simp add: tracker_apply_def)

end

section \<open>Forgetting a part of the information\<close>

text \<open>
  The same maps and changes with only a part \<open>f\<close> of every entry: what holds of a tracker whose
  entries are built from changing sources, as far as the part does not depend on them.
\<close>

definition part :: "('i \<Rightarrow> 'j) \<Rightarrow> ('k, 'i) gomap \<Rightarrow> ('k, 'j) gomap" where
  "part f m = map (\<lambda>(k, i). (k, f i)) m"

definition part_change :: "('i \<Rightarrow> 'j) \<Rightarrow> ('k, 'i) change \<Rightarrow> ('k, 'j) change" where
  "part_change f c = \<lparr>previous = map_option (part f) (previous c), current = map_option (part f) (current c)\<rparr>"

lemma part_change_simps [simp]:
  "previous (part_change f c) = map_option (part f) (previous c)"
  "current (part_change f c) = map_option (part f) (current c)"
  by (simp_all add: part_change_def)

lemma part_simps [simp]:
  "part f [] = []" "part f ((k, i) # m) = (k, f i) # part f m"
  by (simp_all add: part_def)

lemma part_update: "part f (AList.update k i m) = AList.update k (f i) (part f m)"
  by (induction m) auto

lemma part_delete: "part f (AList.delete k m) = AList.delete k (part f m)"
  by (induction m) auto

lemma go_map_part [simp]: "go_map (part f m) \<longleftrightarrow> go_map m"
proof -
  have "map fst (part f m) = map fst m" by (induction m) auto
  then show ?thesis by (simp add: go_map_def)
qed

lemma map_of_part: "map_of (part f m) k = map_option f (map_of m k)"
  by (induction m) auto

lemma part_merge: "part f (merge other m) = merge (map_option (part f) other) (part f m)"
proof -
  have "part f (fold (\<lambda>(name, info). AList.update name info) es m) =
      fold (\<lambda>(name, info). AList.update name info) (part f es) (part f m)" for es
    by (induction es arbitrary: m) (auto simp: part_update)
  then show ?thesis by (cases other) (simp_all add: merge_def)
qed

lemma part_unmerge: "part f (unmerge other m) = unmerge (map_option (part f) other) (part f m)"
proof -
  have "part f (fold (\<lambda>(name, info). AList.delete name) es m) =
      fold (\<lambda>(name, info). AList.delete name) (part f es) (part f m)" for es
    by (induction es arbitrary: m) (auto simp: part_delete)
  then show ?thesis by (cases other) (simp_all add: unmerge_def)
qed

lemma part_apply:
  "part f (fst (tracker_apply m items)) = fst (tracker_apply (part f m) (part (part_change f) items))"
proof (induction items arbitrary: m)
  case Nil
  then show ?case by (simp add: tracker_apply_def)
next
  case (Cons e items)
  obtain k c where e: "e = (k, c)" by (cases e)
  have "part f (fst (tracker_apply (merge (current c) (unmerge (previous c) m)) items)) =
      fst (tracker_apply (part f (merge (current c) (unmerge (previous c) m))) (part (part_change f) items))"
    by (rule Cons.IH)
  then show ?case
    by (simp add: e tracker_apply_def part_merge part_unmerge)
qed

end
