(* ===== verification/Namespace_Controller.thy ===== *)
theory Namespace_Controller
  imports Change_Tracker
begin

text \<open>
  Model of \<open>pkg/controllers/namespace.go\<close>: the dispatch of namespace events, the tracker and
  the map of namespaces. A map receiver is a pointer that is never nil here: the server calls
  the methods on its own fields, and the nil checks return without an effect.
\<close>

section \<open>Events\<close>

record 'w NamespaceHandler =
  OnNamespaceAdd :: "Namespace \<Rightarrow> 'w \<Rightarrow> 'w"
  OnNamespaceUpdate :: "Namespace \<Rightarrow> Namespace \<Rightarrow> 'w \<Rightarrow> 'w"
  OnNamespaceDelete :: "Namespace \<Rightarrow> 'w \<Rightarrow> 'w"
  OnNamespaceSynced :: "'w \<Rightarrow> 'w"

definition NamespaceConfig_Run :: "'w NamespaceHandler list \<Rightarrow> bool \<Rightarrow> 'w \<Rightarrow> 'w" where
  "NamespaceConfig_Run eventHandlers synced = controller_run (map OnNamespaceSynced eventHandlers) synced"

definition handleAddNamespace ::
  "'w NamespaceHandler list \<Rightarrow> Namespace informer_obj \<Rightarrow> 'w \<Rightarrow> nat \<times> 'w" where
  "handleAddNamespace eventHandlers = controller_add (map OnNamespaceAdd eventHandlers)"

definition handleUpdateNamespace ::
  "'w NamespaceHandler list \<Rightarrow> Namespace informer_obj \<Rightarrow> Namespace informer_obj \<Rightarrow> 'w \<Rightarrow> nat \<times> 'w" where
  "handleUpdateNamespace eventHandlers = controller_update (map OnNamespaceUpdate eventHandlers)"

definition handleDeleteNamespace ::
  "'w NamespaceHandler list \<Rightarrow> Namespace informer_obj \<Rightarrow> 'w \<Rightarrow> nat \<times> 'w" where
  "handleDeleteNamespace eventHandlers = controller_delete (map OnNamespaceDelete eventHandlers)"

section \<open>Tracker and map\<close>

record NamespaceInfo =
  nsi_Name :: string
  nsi_Labels :: labels

type_synonym NamespaceMap = "(string, NamespaceInfo) gomap"
type_synonym nsChange = "(string, NamespaceInfo) change"
type_synonym NamespaceChangeTracker = "(string, NamespaceInfo) changes"

definition newNamespaceInfo :: "Namespace \<Rightarrow> NamespaceInfo" where
  "newNamespaceInfo ns = \<lparr>nsi_Name = ns_Name ns, nsi_Labels = ns_Labels ns\<rparr>"

definition NewNamespaceChangeTracker :: NamespaceChangeTracker where
  "NewNamespaceChangeTracker = []"

definition nsToNamespaceMap :: "Namespace \<Rightarrow> NamespaceMap option" where
  "nsToNamespaceMap ns = Some [(ns_Name ns, newNamespaceInfo ns)]"

definition NamespaceChangeTracker_Update ::
  "NamespaceChangeTracker \<Rightarrow> Namespace option \<Rightarrow> Namespace option \<Rightarrow> bool \<times> NamespaceChangeTracker" where
  "NamespaceChangeTracker_Update = tracker_update ns_Name nsToNamespaceMap"

definition NamespaceMap_merge :: "NamespaceMap option \<Rightarrow> NamespaceMap \<Rightarrow> NamespaceMap" where
  "NamespaceMap_merge = merge"

definition NamespaceMap_unmerge :: "NamespaceMap option \<Rightarrow> NamespaceMap \<Rightarrow> NamespaceMap" where
  "NamespaceMap_unmerge = unmerge"

definition NamespaceMap_Update ::
  "NamespaceMap \<Rightarrow> NamespaceChangeTracker \<Rightarrow> NamespaceMap \<times> NamespaceChangeTracker" where
  "NamespaceMap_Update nm changes = tracker_apply nm changes"

definition GetNamespaceInfo :: "NamespaceMap \<Rightarrow> string \<Rightarrow> error + NamespaceInfo" where
  "GetNamespaceInfo nm nsName =
     (case map_of nm nsName of None \<Rightarrow> Inl (Errorf ''not found'' []) | Some i \<Rightarrow> Inr i)"

section \<open>The map follows the cluster\<close>

interpretation ns_tracker: tracked ns_Name nsToNamespaceMap
  by unfold_locales (simp add: only_key_def nsToNamespaceMap_def)

definition namespaces_reach :: "(string \<rightharpoonup> Namespace) \<Rightarrow> NamespaceChangeTracker \<Rightarrow> NamespaceMap \<Rightarrow> bool" where
  "namespaces_reach = tracker_reach ns_Name nsToNamespaceMap"

lemma namespaces_keyed:
  "namespaces_reach cluster changes nm \<Longrightarrow> cluster k = Some ns \<Longrightarrow> ns_Name ns = k"
  using ns_tracker.inv_reach [of cluster changes nm] by (simp add: namespaces_reach_def tracker_inv_def)

lemma namespaces_view:
  assumes "\<And>k ns. cluster k = Some ns \<Longrightarrow> ns_Name ns = k"
  shows "view nsToNamespaceMap cluster = map_option newNamespaceInfo \<circ> cluster"
  using assms by (auto simp: fun_eq_iff view_def to_map_of_def nsToNamespaceMap_def entry_def split: option.splits)

lemma namespaces_image:
  assumes "namespaces_reach cluster changes nm"
  shows "map_of (fst (tracker_apply nm changes)) = map_option newNamespaceInfo \<circ> cluster"
  using ns_tracker.apply_view [of cluster changes nm] assms namespaces_keyed [OF assms] namespaces_view
  by (simp add: namespaces_reach_def)

text \<open>
  Whatever informer events and synchronisations happened before, in whatever order, the map
  of namespaces that a synchronisation works on is the image of the namespaces the informer
  reported: it has exactly the names of the cluster, with their current labels, and looking up
  another name is an error.
\<close>

theorem namespace_map_follows_cluster:
  assumes "namespaces_reach cluster changes nm"
  shows "map_of (fst (NamespaceMap_Update nm changes)) = map_option newNamespaceInfo \<circ> cluster \<and>
    (\<forall>k. GetNamespaceInfo (fst (NamespaceMap_Update nm changes)) k =
       (case cluster k of None \<Rightarrow> Inl (Errorf ''not found'' []) | Some ns \<Rightarrow> Inr (newNamespaceInfo ns)))"
  using namespaces_image [OF assms]
  by (auto simp: NamespaceMap_Update_def GetNamespaceInfo_def split: option.splits)

definition ex_ns :: "nat \<Rightarrow> Namespace" where
  "ex_ns v = \<lparr>ns_Name = ''blue'', ns_Labels = Some (Mapping.update ''team'' ''a'' Mapping.empty), ns_Other = v\<rparr>"

lemma ex_ns_reach:
  "namespaces_reach [''blue'' \<mapsto> ex_ns 1]
     (snd (NamespaceChangeTracker_Update [] (Some (ex_ns 0)) (Some (ex_ns 1))))
     (fst (NamespaceMap_Update [] (snd (NamespaceChangeTracker_Update [] None (Some (ex_ns 0))))))"
proof -
  let ?reach = "tracker_reach ns_Name nsToNamespaceMap"
  have n: "ns_Name (ex_ns v) = ''blue''" for v by (simp add: ex_ns_def)
  have "?reach [''blue'' \<mapsto> ex_ns 0] (snd (tracker_update ns_Name nsToNamespaceMap [] None (Some (ex_ns 0)))) []"
    using tracker_reach.informed [OF tracker_reach.start, of ns_Name "Added (ex_ns 0)"]
    by (simp add: n fun_upd_def)
  from tracker_reach.informed [OF tracker_reach.applied [OF this], of "Updated (ex_ns 0) (ex_ns 1)"]
  show ?thesis
    by (simp add: n namespaces_reach_def NamespaceChangeTracker_Update_def NamespaceMap_Update_def fun_upd_def cong: if_cong)
qed

theorem namespace_map_follows_cluster_witness:
  "map_of (fst (NamespaceMap_Update
      (fst (NamespaceMap_Update [] (snd (NamespaceChangeTracker_Update [] None (Some (ex_ns 0))))))
      (snd (NamespaceChangeTracker_Update [] (Some (ex_ns 0)) (Some (ex_ns 1))))))
   = map_option newNamespaceInfo \<circ> [''blue'' \<mapsto> ex_ns 1]"
  using namespace_map_follows_cluster [OF ex_ns_reach] by simp

end
