(* ===== verification/Policy_Controller.thy ===== *)
theory Policy_Controller
  imports Change_Tracker
begin

text \<open>
  Model of \<open>pkg/controllers/networkpolicy.go\<close>: the dispatch of policy events, the tracker and
  the map of policies. \<open>PolicyInfo.Policy\<close> points to an informer object, which nobody changes,
  so it is the object itself.
\<close>

section \<open>Events\<close>

record ('sel, 'w) NetworkPolicyHandler =
  OnPolicyAdd :: "'sel Policy \<Rightarrow> 'w \<Rightarrow> 'w"
  OnPolicyUpdate :: "'sel Policy \<Rightarrow> 'sel Policy \<Rightarrow> 'w \<Rightarrow> 'w"
  OnPolicyDelete :: "'sel Policy \<Rightarrow> 'w \<Rightarrow> 'w"
  OnPolicySynced :: "'w \<Rightarrow> 'w"

definition NetworkPolicyConfig_Run :: "('sel, 'w) NetworkPolicyHandler list \<Rightarrow> bool \<Rightarrow> 'w \<Rightarrow> 'w" where
  "NetworkPolicyConfig_Run eventHandlers synced = controller_run (map OnPolicySynced eventHandlers) synced"

definition handleAddPolicy ::
  "('sel, 'w) NetworkPolicyHandler list \<Rightarrow> 'sel Policy informer_obj \<Rightarrow> 'w \<Rightarrow> nat \<times> 'w" where
  "handleAddPolicy eventHandlers = controller_add (map OnPolicyAdd eventHandlers)"

definition handleUpdatePolicy ::
  "('sel, 'w) NetworkPolicyHandler list \<Rightarrow> 'sel Policy informer_obj \<Rightarrow> 'sel Policy informer_obj \<Rightarrow>
    'w \<Rightarrow> nat \<times> 'w" where
  "handleUpdatePolicy eventHandlers = controller_update (map OnPolicyUpdate eventHandlers)"

definition handleDeletePolicy ::
  "('sel, 'w) NetworkPolicyHandler list \<Rightarrow> 'sel Policy informer_obj \<Rightarrow> 'w \<Rightarrow> nat \<times> 'w" where
  "handleDeletePolicy eventHandlers = controller_delete (map OnPolicyDelete eventHandlers)"

section \<open>Tracker and map\<close>

record 'sel PolicyInfo =
  pli_PolicyNetworks :: "string list"
  pli_Policy :: "'sel Policy"

definition PolicyInfo_Name :: "'sel PolicyInfo \<Rightarrow> string" where
  "PolicyInfo_Name info = pol_Name (pli_Policy info)"

definition PolicyInfo_Namespace :: "'sel PolicyInfo \<Rightarrow> string" where
  "PolicyInfo_Namespace info = pol_Namespace (pli_Policy info)"

definition AppliesForNetwork :: "'sel PolicyInfo \<Rightarrow> string \<Rightarrow> bool" where
  "AppliesForNetwork info networkName = list_ex (\<lambda>n. n = networkName) (pli_PolicyNetworks info)"

type_synonym 'sel PolicyMap = "(NamespacedName, 'sel PolicyInfo) gomap"
type_synonym 'sel policyChange = "(NamespacedName, 'sel PolicyInfo) change"
type_synonym 'sel PolicyChangeTracker = "(NamespacedName, 'sel PolicyInfo) changes"

definition policy_key :: "'sel Policy \<Rightarrow> NamespacedName" where
  "policy_key policy = NamespacedName (pol_Namespace policy) (pol_Name policy)"

definition newPolicyInfo :: "'sel Policy \<Rightarrow> 'sel PolicyInfo" where
  "newPolicyInfo policy =
     \<lparr>pli_PolicyNetworks = NetworkListFromPolicy policy, pli_Policy = policy\<rparr>"

definition policyToPolicyMap :: "'sel Policy \<Rightarrow> 'sel PolicyMap option" where
  "policyToPolicyMap policy = Some [(policy_key policy, newPolicyInfo policy)]"

definition NewPolicyChangeTracker :: "'sel PolicyChangeTracker" where
  "NewPolicyChangeTracker = []"

definition PolicyChangeTracker_Update ::
  "'sel PolicyChangeTracker \<Rightarrow> 'sel Policy option \<Rightarrow> 'sel Policy option \<Rightarrow> bool \<times> 'sel PolicyChangeTracker" where
  "PolicyChangeTracker_Update = tracker_update policy_key policyToPolicyMap"

definition PolicyMap_merge :: "'sel PolicyMap option \<Rightarrow> 'sel PolicyMap \<Rightarrow> 'sel PolicyMap" where
  "PolicyMap_merge = merge"

definition PolicyMap_unmerge :: "'sel PolicyMap option \<Rightarrow> 'sel PolicyMap \<Rightarrow> 'sel PolicyMap" where
  "PolicyMap_unmerge = unmerge"

definition PolicyMap_Update ::
  "'sel PolicyMap \<Rightarrow> 'sel PolicyChangeTracker \<Rightarrow> 'sel PolicyMap \<times> 'sel PolicyChangeTracker" where
  "PolicyMap_Update pm changes = tracker_apply pm changes"

section \<open>The map follows the cluster\<close>

interpretation policy_tracker: tracked policy_key policyToPolicyMap
  by unfold_locales (simp add: only_key_def policyToPolicyMap_def)

definition policies_reach ::
  "(NamespacedName \<rightharpoonup> 'sel Policy) \<Rightarrow> 'sel PolicyChangeTracker \<Rightarrow> 'sel PolicyMap \<Rightarrow> bool" where
  "policies_reach = tracker_reach policy_key policyToPolicyMap"

lemma policies_keyed:
  "policies_reach cluster changes pm \<Longrightarrow> cluster k = Some p \<Longrightarrow> policy_key p = k"
  using policy_tracker.inv_reach [of cluster changes pm] by (simp add: policies_reach_def tracker_inv_def)

lemma policies_image:
  assumes "policies_reach cluster changes pm"
  shows "map_of (fst (tracker_apply pm changes)) = map_option newPolicyInfo \<circ> cluster"
proof -
  have "view policyToPolicyMap cluster = map_option newPolicyInfo \<circ> cluster"
    using policies_keyed [OF assms]
    by (auto simp: fun_eq_iff view_def to_map_of_def policyToPolicyMap_def entry_def split: option.splits)
  then show ?thesis
    using policy_tracker.apply_view [of cluster changes pm] assms by (simp add: policies_reach_def)
qed

text \<open>
  Whatever informer events and synchronisations happened before, the map of policies a
  synchronisation works on holds exactly the policies of the cluster, each with the networks
  its annotation names: no deleted policy is enforced and no policy is missed.
\<close>

theorem policy_map_follows_cluster:
  assumes "policies_reach cluster changes pm"
  shows "map_of (fst (PolicyMap_Update pm changes)) = map_option newPolicyInfo \<circ> cluster"
  using policies_image [OF assms] by (simp add: PolicyMap_Update_def)

definition ex_policy :: "string \<Rightarrow> unit Policy" where
  "ex_policy networks =
     \<lparr>pol_Namespace = ''blue'', pol_Name = ''p'',
      pol_Annotations = Some (Mapping.update PolicyNetworkAnnotation networks Mapping.empty),
      pol_PolicyTypes = [''Egress''], pol_PodSelector = (), pol_Egress = [], pol_Other = 0\<rparr>"

lemma ex_policy_reach:
  "policies_reach Map.empty
     (snd (PolicyChangeTracker_Update (snd (PolicyChangeTracker_Update [] None (Some (ex_policy ''n1''))))
       (Some (ex_policy ''n1'')) None)) []"
proof -
  let ?reach = "tracker_reach policy_key policyToPolicyMap"
  have "?reach [policy_key (ex_policy ''n1'') \<mapsto> ex_policy ''n1'']
      (snd (tracker_update policy_key policyToPolicyMap [] None (Some (ex_policy ''n1'')))) []"
    using tracker_reach.informed [OF tracker_reach.start, of policy_key "Added (ex_policy ''n1'')"]
    by (simp add: fun_upd_def)
  from tracker_reach.informed [OF this, of "Deleted (ex_policy ''n1'')"]
  show ?thesis
    by (simp add: policies_reach_def PolicyChangeTracker_Update_def fun_upd_def cong: if_cong)
qed

theorem policy_map_follows_cluster_witness:
  "map_of (fst (PolicyMap_Update []
     (snd (PolicyChangeTracker_Update (snd (PolicyChangeTracker_Update [] None (Some (ex_policy ''n1''))))
       (Some (ex_policy ''n1'')) None)))) = Map.empty"
  using policy_map_follows_cluster [OF ex_policy_reach] by (simp add: fun_eq_iff)

end
