(* ===== verification/NetDef_Controller.thy ===== *)
theory NetDef_Controller
  imports Change_Tracker
begin

text \<open>
  Model of \<open>pkg/controllers/net-attach-def.go\<close>: the dispatch of network attachment definition
  events, their tracker, which owns its map, and \<open>GetPluginType\<close>, which applies the pending
  changes before it looks a network up. Reading the CNI configuration of a definition
  (\<open>netdefutils.GetCNIConfig\<close>) and unmarshalling it into the types of the CNI library are
  parameters. A definition whose configuration cannot be read has no entry in the map.
\<close>

section \<open>Events\<close>

record 'w NetDefHandler =
  OnNetDefAdd :: "NetAttachDef \<Rightarrow> 'w \<Rightarrow> 'w"
  OnNetDefUpdate :: "NetAttachDef \<Rightarrow> NetAttachDef \<Rightarrow> 'w \<Rightarrow> 'w"
  OnNetDefDelete :: "NetAttachDef \<Rightarrow> 'w \<Rightarrow> 'w"
  OnNetDefSynced :: "'w \<Rightarrow> 'w"

definition NetDefConfig_Run :: "'w NetDefHandler list \<Rightarrow> bool \<Rightarrow> 'w \<Rightarrow> 'w" where
  "NetDefConfig_Run eventHandlers synced = controller_run (map OnNetDefSynced eventHandlers) synced"

definition handleAddNetDef ::
  "'w NetDefHandler list \<Rightarrow> NetAttachDef informer_obj \<Rightarrow> 'w \<Rightarrow> nat \<times> 'w" where
  "handleAddNetDef eventHandlers = controller_add (map OnNetDefAdd eventHandlers)"

definition handleUpdateNetDef ::
  "'w NetDefHandler list \<Rightarrow> NetAttachDef informer_obj \<Rightarrow> NetAttachDef informer_obj \<Rightarrow> 'w \<Rightarrow> nat \<times> 'w" where
  "handleUpdateNetDef eventHandlers = controller_update (map OnNetDefUpdate eventHandlers)"

definition handleDeleteNetDef ::
  "'w NetDefHandler list \<Rightarrow> NetAttachDef informer_obj \<Rightarrow> 'w \<Rightarrow> nat \<times> 'w" where
  "handleDeleteNetDef eventHandlers = controller_delete (map OnNetDefDelete eventHandlers)"

section \<open>Tracker and map\<close>

text \<open>
  The library calls: \<open>GetCNIConfig\<close> gives the bytes; \<open>NetConfList\<close> the \<open>type\<close> of every plugin
  they list when read as a configuration list, \<open>NetConf\<close> the \<open>type\<close> when read as a single
  configuration.
\<close>

record CNI =
  GetCNIConfig :: "NetAttachDef \<Rightarrow> error + string"
  UnmarshalNetConfList :: "string \<Rightarrow> error + string list"
  UnmarshalNetConf :: "string \<Rightarrow> error + string"

record NetDefInfo =
  ndi_Netdef :: NetAttachDef
  ndi_PluginType :: string

definition NetDefInfo_Name :: "NetDefInfo \<Rightarrow> string" where
  "NetDefInfo_Name info = nad_Name (ndi_Netdef info)"

type_synonym NetDefMap = "(NamespacedName, NetDefInfo) gomap"
type_synonym netdefChange = "(NamespacedName, NetDefInfo) change"

record NetDefChangeTracker =
  ndt_items :: "(NamespacedName, NetDefInfo) changes"
  ndt_netdefMap :: NetDefMap

definition NewNetDefChangeTracker :: NetDefChangeTracker where
  "NewNetDefChangeTracker = \<lparr>ndt_items = [], ndt_netdefMap = []\<rparr>"

definition netdef_key :: "NetAttachDef \<Rightarrow> NamespacedName" where
  "netdef_key netdef = NamespacedName (nad_Namespace netdef) (nad_Name netdef)"

definition newNetDefInfo :: "CNI \<Rightarrow> NetAttachDef \<Rightarrow> error + NetDefInfo" where
  "newNetDefInfo cni netdef =
     (case GetCNIConfig cni netdef of
        Inl e \<Rightarrow> Inl e
      | Inr confBytes \<Rightarrow>
          (case UnmarshalNetConfList cni confBytes of
             Inl e \<Rightarrow> Inl e
           | Inr plugins \<Rightarrow>
               if length plugins = 0
               then (case UnmarshalNetConf cni confBytes of
                       Inl e \<Rightarrow> Inl e
                     | Inr t \<Rightarrow> Inr \<lparr>ndi_Netdef = netdef, ndi_PluginType = t\<rparr>)
               else Inr \<lparr>ndi_Netdef = netdef, ndi_PluginType = plugins ! 0\<rparr>))"

definition netDefToNetDefMap :: "CNI \<Rightarrow> NetAttachDef \<Rightarrow> NetDefMap option" where
  "netDefToNetDefMap cni netdef =
     (case newNetDefInfo cni netdef of
        Inl _ \<Rightarrow> None
      | Inr info \<Rightarrow> Some [(netdef_key netdef, info)])"

definition NetDefChangeTracker_Update ::
  "CNI \<Rightarrow> NetDefChangeTracker \<Rightarrow> NetAttachDef option \<Rightarrow> NetAttachDef option \<Rightarrow> bool \<times> NetDefChangeTracker" where
  "NetDefChangeTracker_Update cni ndt prev cur =
     (case tracker_update netdef_key (netDefToNetDefMap cni) (ndt_items ndt) prev cur of
        (changed, items) \<Rightarrow> (changed, ndt\<lparr>ndt_items := items\<rparr>))"

definition NetDefMap_merge :: "NetDefMap option \<Rightarrow> NetDefMap \<Rightarrow> NetDefMap" where
  "NetDefMap_merge = merge"

definition NetDefMap_unmerge :: "NetDefMap option \<Rightarrow> NetDefMap \<Rightarrow> NetDefMap" where
  "NetDefMap_unmerge = unmerge"

text \<open>\<open>ndt.netdefMap.Update(ndt)\<close>: the tracker applies its own changes to its own map.\<close>

definition NetDefMap_Update :: "NetDefChangeTracker \<Rightarrow> NetDefChangeTracker" where
  "NetDefMap_Update ndt =
     (case tracker_apply (ndt_netdefMap ndt) (ndt_items ndt) of
        (m, items) \<Rightarrow> \<lparr>ndt_items = items, ndt_netdefMap = m\<rparr>)"

definition GetPluginType :: "NetDefChangeTracker \<Rightarrow> NamespacedName \<Rightarrow> string \<times> NetDefChangeTracker" where
  "GetPluginType ndt name =
     (let ndt' = NetDefMap_Update ndt in
      ((case map_of (ndt_netdefMap ndt') name of
          Some cur \<Rightarrow> ndi_PluginType cur
        | None \<Rightarrow> []), ndt'))"

section \<open>The plugin type follows the cluster\<close>

interpretation netdef_tracker: tracked netdef_key "netDefToNetDefMap cni" for cni
  by unfold_locales (simp add: only_key_def netDefToNetDefMap_def split: sum.splits)

lemma NetDefMap_Update_flushes [simp]: "ndt_items (NetDefMap_Update ndt) = []"
  by (simp add: NetDefMap_Update_def tracker_apply_def)

lemma NetDefMap_Update_flushed [simp]: "ndt_items ndt = [] \<Longrightarrow> NetDefMap_Update ndt = ndt"
  by (simp add: NetDefMap_Update_def tracker_apply_def)

definition netdefs_reach :: "CNI \<Rightarrow> (NamespacedName \<rightharpoonup> NetAttachDef) \<Rightarrow> NetDefChangeTracker \<Rightarrow> bool" where
  "netdefs_reach cni cluster ndt =
     tracker_reach netdef_key (netDefToNetDefMap cni) cluster (ndt_items ndt) (ndt_netdefMap ndt)"

lemma netdefs_keyed:
  "netdefs_reach cni cluster ndt \<Longrightarrow> cluster k = Some d \<Longrightarrow> netdef_key d = k"
  using netdef_tracker.inv_reach [of cni cluster "ndt_items ndt" "ndt_netdefMap ndt"]
  by (simp add: netdefs_reach_def tracker_inv_def)

lemma GetPluginType_cluster:
  assumes "netdefs_reach cni cluster ndt"
  shows "fst (GetPluginType ndt name) =
      (case cluster name of
         None \<Rightarrow> []
       | Some d \<Rightarrow> (case newNetDefInfo cni d of Inl _ \<Rightarrow> [] | Inr i \<Rightarrow> ndi_PluginType i))"
proof -
  let ?m = "fst (tracker_apply (ndt_netdefMap ndt) (ndt_items ndt))"
  have "map_of ?m name = view (netDefToNetDefMap cni) cluster name"
    using netdef_tracker.apply_view [of cni cluster] assms by (simp add: netdefs_reach_def)
  also have "\<dots> = (case cluster name of None \<Rightarrow> None
      | Some d \<Rightarrow> (case newNetDefInfo cni d of Inl _ \<Rightarrow> None | Inr i \<Rightarrow> Some i))"
    using netdefs_keyed [OF assms, of name]
    by (auto simp: view_def entry_def netDefToNetDefMap_def split: option.splits sum.splits)
  finally show ?thesis
    by (auto simp: GetPluginType_def Let_def NetDefMap_Update_def case_prod_unfold
        split: option.splits sum.splits)
qed

lemma netdefs_reach_flush:
  "netdefs_reach cni cluster ndt \<Longrightarrow> netdefs_reach cni cluster (NetDefMap_Update ndt)"
  using tracker_reach.applied
  by (fastforce simp: netdefs_reach_def NetDefMap_Update_def case_prod_unfold)

lemma GetPluginType_snd [simp]: "snd (GetPluginType ndt name) = NetDefMap_Update ndt"
  by (simp add: GetPluginType_def Let_def)

lemma GetPluginType_flush [simp]:
  "fst (GetPluginType (NetDefMap_Update ndt) name) = fst (GetPluginType ndt name)"
  by (simp add: GetPluginType_def Let_def)

text \<open>
  \<open>GetPluginType\<close> never answers from an outdated state: with any changes pending, it returns
  the plugin type of the definition the cluster has under that name now, and the empty string
  when the cluster has none or its configuration cannot be read. It leaves no change pending and
  keeps the tracker in step with the cluster.
\<close>

theorem plugin_type_follows_cluster:
  assumes "netdefs_reach cni cluster ndt"
  shows "fst (GetPluginType ndt name) =
      (case cluster name of
         None \<Rightarrow> []
       | Some d \<Rightarrow> (case newNetDefInfo cni d of Inl _ \<Rightarrow> [] | Inr i \<Rightarrow> ndi_PluginType i)) \<and>
    ndt_items (snd (GetPluginType ndt name)) = [] \<and>
    netdefs_reach cni cluster (snd (GetPluginType ndt name))"
  using GetPluginType_cluster [OF assms] netdefs_reach_flush [OF assms] by simp

definition ex_cni :: CNI where
  "ex_cni = \<lparr>GetCNIConfig = (\<lambda>d. if nad_Spec d = [] then Inl (External ''no config'') else Inr (nad_Spec d)),
             UnmarshalNetConfList = (\<lambda>_. Inr []), UnmarshalNetConf = Inr\<rparr>"

definition ex_netdef :: "string \<Rightarrow> NetAttachDef" where
  "ex_netdef spec = \<lparr>nad_Namespace = ''blue'', nad_Name = ''net1'', nad_Spec = spec, nad_Other = 0\<rparr>"

definition ex_ndt :: NetDefChangeTracker where
  "ex_ndt = snd (NetDefChangeTracker_Update ex_cni NewNetDefChangeTracker None (Some (ex_netdef ''accelerated-bridge'')))"

lemma ex_netdef_reach:
  "netdefs_reach ex_cni [netdef_key (ex_netdef ''x'') \<mapsto> ex_netdef ''accelerated-bridge''] ex_ndt"
proof -
  have k: "netdef_key (ex_netdef s) = NamespacedName ''blue'' ''net1''" for s
    by (simp add: netdef_key_def ex_netdef_def)
  show ?thesis
    using tracker_reach.informed [OF tracker_reach.start, of netdef_key
        "Added (ex_netdef ''accelerated-bridge'')" "netDefToNetDefMap ex_cni"]
    by (simp add: k netdefs_reach_def ex_ndt_def NetDefChangeTracker_Update_def NewNetDefChangeTracker_def
        case_prod_unfold fun_upd_def)
qed

theorem plugin_type_follows_cluster_witness:
  "fst (GetPluginType ex_ndt (NamespacedName ''blue'' ''net1'')) = ''accelerated-bridge''"
proof -
  have "netdef_key (ex_netdef ''x'') = NamespacedName ''blue'' ''net1''"
    by (simp add: netdef_key_def ex_netdef_def)
  then show ?thesis
    using plugin_type_follows_cluster [OF ex_netdef_reach, of "NamespacedName ''blue'' ''net1''"]
    by (simp add: newNetDefInfo_def ex_cni_def ex_netdef_def)
qed

end
