(* ===== verification/Pod_Controller.thy ===== *)
theory Pod_Controller
  imports NetDef_Controller
begin

text \<open>
  Model of \<open>pkg/controllers/pod.go\<close>: the dispatch of pod events, what is kept of a pod
  (\<open>newPodInfo\<close>), which policies apply to it, the pod tracker and the map of pods. The pod
  tracker reads plugin types from the tracker of network attachment definitions, which it
  shares with the server and changes by doing so (\<open>GetPluginType\<close> applies pending changes);
  that tracker is passed through every function. Reading the pod's annotations
  (\<open>netdefutils\<close>) and the label selectors of apimachinery are parameters.
\<close>

section \<open>Events\<close>

record 'w PodHandler =
  OnPodAdd :: "Pod \<Rightarrow> 'w \<Rightarrow> 'w"
  OnPodUpdate :: "Pod \<Rightarrow> Pod \<Rightarrow> 'w \<Rightarrow> 'w"
  OnPodDelete :: "Pod \<Rightarrow> 'w \<Rightarrow> 'w"
  OnPodSynced :: "'w \<Rightarrow> 'w"

definition PodConfig_Run :: "'w PodHandler list \<Rightarrow> bool \<Rightarrow> 'w \<Rightarrow> 'w" where
  "PodConfig_Run eventHandlers synced = controller_run (map OnPodSynced eventHandlers) synced"

definition handleAddPod :: "'w PodHandler list \<Rightarrow> Pod informer_obj \<Rightarrow> 'w \<Rightarrow> nat \<times> 'w" where
  "handleAddPod eventHandlers = controller_add (map OnPodAdd eventHandlers)"

definition handleUpdatePod ::
  "'w PodHandler list \<Rightarrow> Pod informer_obj \<Rightarrow> Pod informer_obj \<Rightarrow> 'w \<Rightarrow> nat \<times> 'w" where
  "handleUpdatePod eventHandlers = controller_update (map OnPodUpdate eventHandlers)"

definition handleDeletePod :: "'w PodHandler list \<Rightarrow> Pod informer_obj \<Rightarrow> 'w \<Rightarrow> nat \<times> 'w" where
  "handleDeletePod eventHandlers = controller_delete (map OnPodDelete eventHandlers)"

section \<open>Pods and their interfaces\<close>

record InterfaceInfo =
  if_NetattachName :: string
  if_DeviceID :: string
  if_InterfaceName :: string
  if_InterfaceType :: string
  if_IPs :: "string slice"

record PodInfo =
  pi_UID :: string
  pi_Name :: string
  pi_Labels :: labels
  pi_Namespace :: string
  pi_NetworkStatus :: "NetworkStatus slice"
  pi_NodeName :: string
  pi_Interfaces :: "InterfaceInfo slice"

definition Interface_CheckPolicyNetwork :: "InterfaceInfo \<Rightarrow> string list \<Rightarrow> bool" where
  "Interface_CheckPolicyNetwork info policyNetworks =
     list_ex (\<lambda>n. n = if_NetattachName info) policyNetworks"

definition Pod_CheckPolicyNetwork :: "PodInfo \<Rightarrow> string list \<Rightarrow> bool" where
  "Pod_CheckPolicyNetwork info policyNetworks =
     list_ex (\<lambda>i. Interface_CheckPolicyNetwork i policyNetworks) (elems (pi_Interfaces info))"

definition PodInfo_String :: "PodInfo \<Rightarrow> string" where
  "PodInfo_String info = ''pod:'' @ pi_Name info"

text \<open>
  The selector library: \<open>metav1.LabelSelectorAsMap\<close>, \<open>LabelSelector.Size\<close>,
  \<open>labels.Set.AsSelectorPreValidated\<close> and the methods \<open>Matches\<close> and \<open>Empty\<close> of its result.
\<close>

record ('sel, 'ls) Selectors =
  LabelSelectorAsMap :: "'sel option \<Rightarrow> error + labels"
  LabelSelectorSize :: "'sel \<Rightarrow> nat"
  AsSelector :: "labels \<Rightarrow> 'ls"
  Matches :: "'ls \<Rightarrow> labels \<Rightarrow> bool"
  Empty :: "'ls \<Rightarrow> bool"

definition PolicyAppliesForPod :: "('sel, 'ls) Selectors \<Rightarrow> PodInfo \<Rightarrow> 'sel Policy \<Rightarrow> error + bool" where
  "PolicyAppliesForPod api info policy =
     (if pol_Namespace policy \<noteq> pi_Namespace info then Inr False
      else if LabelSelectorSize api (pol_PodSelector policy) \<noteq> 0
      then (case LabelSelectorAsMap api (Some (pol_PodSelector policy)) of
              Inl e \<Rightarrow> Inl (Wrap (''bad label selector for policy ['' @ pol_Namespace policy @ ''/'' @
                                 pol_Name policy @ '']'') e)
            | Inr policyMap \<Rightarrow>
                let policyPodSelector = AsSelector api policyMap in
                if \<not> Matches api policyPodSelector (pi_Labels info) then Inr False else Inr True)
      else Inr True)"

section \<open>Building the information of a pod\<close>

record PodAnnotations =
  ParsePodNetworkAnnotation :: "Pod \<Rightarrow> NetworkSelection list"
  GetNetworkStatus :: "Pod \<Rightarrow> NetworkStatus slice"

definition network_name :: "Pod \<Rightarrow> NetworkSelection \<Rightarrow> NamespacedName" where
  "network_name pod n =
     NamespacedName (if sel_Namespace n \<noteq> [] then sel_Namespace n else pod_Namespace pod) (sel_Name n)"

text \<open>The map from network to plugin (lines 257 to 265). \<open>GetPluginType\<close> runs twice per network,
  once for the log line.\<close>

fun network_plugins ::
  "Pod \<Rightarrow> NetworkSelection list \<Rightarrow> NetDefChangeTracker \<Rightarrow> (NamespacedName, string) gomap \<Rightarrow>
    (NamespacedName, string) gomap \<times> NetDefChangeTracker" where
  "network_plugins pod [] ndt m = (m, ndt)"
| "network_plugins pod (n # ns) ndt m =
     (let name = network_name pod n;
          (_, ndt1) = GetPluginType ndt name;
          (plugin, ndt2) = GetPluginType ndt1 name
      in network_plugins pod ns ndt2 (AList.update name plugin m))"

definition status_name :: "Pod \<Rightarrow> NetworkStatus \<Rightarrow> NamespacedName" where
  "status_name pod s =
     (let slashItems = split_on CHR ''/'' (st_Name s) in
      if length slashItems = 2 then NamespacedName (trim_space (slashItems ! 0)) (slashItems ! 1)
      else NamespacedName (pod_Namespace pod) (st_Name s))"

definition plugin_of :: "(NamespacedName, string) gomap \<Rightarrow> NamespacedName \<Rightarrow> string" where
  "plugin_of networkPlugins name = (case map_of networkPlugins name of None \<Rightarrow> [] | Some p \<Rightarrow> p)"

text \<open>The interfaces of one status: one per configured plugin that is the plugin of its network.\<close>

definition status_interfaces ::
  "string list \<Rightarrow> (NamespacedName, string) gomap \<Rightarrow> Pod \<Rightarrow> NetworkStatus \<Rightarrow> InterfaceInfo list" where
  "status_interfaces plugins networkPlugins pod s =
     concat (map (\<lambda>pluginName.
       if plugin_of networkPlugins (status_name pod s) = pluginName
       then (case GetDeviceIDFromNetworkStatus s of
               Inl _ \<Rightarrow> []
             | Inr deviceID \<Rightarrow>
                 [\<lparr>if_NetattachName = st_Name s, if_DeviceID = deviceID, if_InterfaceName = st_Interface s,
                   if_InterfaceType = plugin_of networkPlugins (status_name pod s), if_IPs = st_IPs s\<rparr>])
       else []) plugins)"

definition pod_info :: "Pod \<Rightarrow> NetworkStatus slice \<Rightarrow> InterfaceInfo slice \<Rightarrow> PodInfo" where
  "pod_info pod statuses netifs =
     \<lparr>pi_UID = pod_UID pod, pi_Name = pod_Name pod, pi_Labels = pod_Labels pod,
      pi_Namespace = pod_Namespace pod, pi_NetworkStatus = statuses, pi_NodeName = pod_NodeName pod,
      pi_Interfaces = netifs\<rparr>"

definition newPodInfo ::
  "PodAnnotations \<Rightarrow> string list \<Rightarrow> NetDefChangeTracker \<Rightarrow> Pod \<Rightarrow> PodInfo \<times> NetDefChangeTracker" where
  "newPodInfo ann plugins ndt pod =
     (if IsMultiNetworkpolicyTarget pod
      then let networks = ParsePodNetworkAnnotation ann pod;
               statuses = GetNetworkStatus ann pod;
               (networkPlugins, ndt') = network_plugins pod networks ndt [];
               netifs = slice_append None
                 (concat (map (status_interfaces plugins networkPlugins pod) (elems statuses)))
           in (pod_info pod statuses netifs, ndt')
      else (pod_info pod None None, ndt))"

section \<open>Tracker and map\<close>

type_synonym PodMap = "(NamespacedName, PodInfo) gomap"
type_synonym podChange = "(NamespacedName, PodInfo) change"
type_synonym podChanges = "(NamespacedName, PodInfo) changes"

definition pod_key :: "Pod \<Rightarrow> NamespacedName" where
  "pod_key pod = NamespacedName (pod_Namespace pod) (pod_Name pod)"

definition podToPodMap ::
  "PodAnnotations \<Rightarrow> string list \<Rightarrow> NetDefChangeTracker \<Rightarrow> Pod option \<Rightarrow> PodMap option \<times> NetDefChangeTracker" where
  "podToPodMap ann plugins ndt obj =
     (case obj of
        None \<Rightarrow> (None, ndt)
      | Some pod \<Rightarrow>
          let (podinfo, ndt') = newPodInfo ann plugins ndt pod in (Some [(pod_key pod, podinfo)], ndt'))"

definition NewPodChangeTracker :: podChanges where
  "NewPodChangeTracker = []"

definition PodChangeTracker_Update ::
  "PodAnnotations \<Rightarrow> string list \<Rightarrow> podChanges \<Rightarrow> NetDefChangeTracker \<Rightarrow> Pod option \<Rightarrow> Pod option \<Rightarrow>
    bool \<times> podChanges \<times> NetDefChangeTracker" where
  "PodChangeTracker_Update ann plugins items ndt prev cur =
     (case subject prev cur of
        None \<Rightarrow> (False, items, ndt)
      | Some pod \<Rightarrow>
          let name = pod_key pod;
              (change, ndt1) =
                (case map_of items name of
                   None \<Rightarrow>
                     let (prevPodMap, n) = podToPodMap ann plugins ndt prev
                     in (\<lparr>previous = prevPodMap, current = None\<rparr>, n)
                 | Some c \<Rightarrow> (c, ndt));
              (curPodMap, ndt2) = podToPodMap ann plugins ndt1 cur;
              change' = change\<lparr>current := curPodMap\<rparr>
          in if previous change' = current change'
             then (True, AList.delete name (AList.update name change' items), ndt2)
             else (True, AList.update name change' items, ndt2))"

definition PodMap_merge :: "PodMap option \<Rightarrow> PodMap \<Rightarrow> PodMap" where
  "PodMap_merge = merge"

definition PodMap_unmerge :: "PodMap option \<Rightarrow> PodMap \<Rightarrow> PodMap" where
  "PodMap_unmerge = unmerge"

definition PodMap_Update :: "PodMap \<Rightarrow> podChanges \<Rightarrow> PodMap \<times> podChanges" where
  "PodMap_Update pm changes = tracker_apply pm changes"

definition GetPodInfo :: "PodMap \<Rightarrow> string \<Rightarrow> string \<Rightarrow> error + PodInfo" where
  "GetPodInfo pm namespace name =
     (case map_of pm (NamespacedName namespace name) of
        None \<Rightarrow> Inl (Errorf ''not found'' []) | Some i \<Rightarrow> Inr i)"

definition PodMap_List :: "PodMap \<Rightarrow> PodInfo list" where
  "PodMap_List pm = map snd pm"

section \<open>Interfaces\<close>

lemma network_plugins_ndt:
  "snd (network_plugins pod ns ndt m) = (if ns = [] then ndt else NetDefMap_Update ndt)"
proof (induction ns arbitrary: ndt m)
  case Nil
  then show ?case by simp
next
  case (Cons n ns)
  then show ?case by (simp add: Let_def case_prod_unfold)
qed

lemma network_plugins_map:
  "map_of (fst (network_plugins pod ns ndt m)) k =
     (if k \<in> network_name pod ` set ns then Some (fst (GetPluginType ndt k)) else map_of m k)"
proof (induction ns arbitrary: ndt m)
  case Nil
  then show ?case by simp
next
  case (Cons n ns)
  then show ?case by (simp add: Let_def case_prod_unfold update_conv')
qed

text \<open>The plugin type \<open>newPodInfo\<close> gives to a network of the pod.\<close>

definition pod_plugin :: "PodAnnotations \<Rightarrow> NetDefChangeTracker \<Rightarrow> Pod \<Rightarrow> NamespacedName \<Rightarrow> string" where
  "pod_plugin ann ndt pod name =
     (if name \<in> network_name pod ` set (ParsePodNetworkAnnotation ann pod)
      then fst (GetPluginType ndt name) else [])"

lemma plugin_of_pod:
  "plugin_of (fst (network_plugins pod (ParsePodNetworkAnnotation ann pod) ndt [])) name =
     pod_plugin ann ndt pod name"
  by (simp add: plugin_of_def network_plugins_map pod_plugin_def)

lemma newPodInfo_ndt:
  "snd (newPodInfo ann plugins ndt pod) =
     (if IsMultiNetworkpolicyTarget pod \<and> ParsePodNetworkAnnotation ann pod \<noteq> []
      then NetDefMap_Update ndt else ndt)"
  by (simp add: newPodInfo_def Let_def case_prod_unfold network_plugins_ndt)

lemma newPodInfo_flush [simp]:
  "fst (newPodInfo ann plugins (NetDefMap_Update ndt) pod) = fst (newPodInfo ann plugins ndt pod)"
proof -
  have "plugin_of (fst (network_plugins pod (ParsePodNetworkAnnotation ann pod) (NetDefMap_Update ndt) [])) =
      plugin_of (fst (network_plugins pod (ParsePodNetworkAnnotation ann pod) ndt []))"
    by (simp add: fun_eq_iff plugin_of_pod pod_plugin_def)
  then have "status_interfaces plugins
        (fst (network_plugins pod (ParsePodNetworkAnnotation ann pod) (NetDefMap_Update ndt) [])) pod =
      status_interfaces plugins
        (fst (network_plugins pod (ParsePodNetworkAnnotation ann pod) ndt [])) pod"
    unfolding status_interfaces_def by (rule arg_cong)
  then show ?thesis by (simp add: newPodInfo_def Let_def case_prod_unfold)
qed

lemma status_interfaces_iff:
  "i \<in> set (status_interfaces plugins np pod s) \<longleftrightarrow>
     plugin_of np (status_name pod s) \<in> set plugins \<and>
     (\<exists>d. GetDeviceIDFromNetworkStatus s = Inr d \<and>
        i = \<lparr>if_NetattachName = st_Name s, if_DeviceID = d, if_InterfaceName = st_Interface s,
             if_InterfaceType = plugin_of np (status_name pod s), if_IPs = st_IPs s\<rparr>)"
  by (auto simp: status_interfaces_def split: sum.splits)

text \<open>
  C31. The interfaces of a pod: one for every network status whose network is requested by the
  pod's annotation, resolves to a definition of the cluster with a configured plugin type and
  names a PCI device; none at all for a pod that is not running or is on the host network. In
  particular every interface has a device and a configured type.
\<close>

theorem pod_interfaces:
  assumes "netdefs_reach cni cluster ndt" and "[] \<notin> set plugins"
  shows "i \<in> set (elems (pi_Interfaces (fst (newPodInfo ann plugins ndt pod)))) \<longleftrightarrow>
    IsMultiNetworkpolicyTarget pod \<and>
    (\<exists>s d nd info. s \<in> set (elems (GetNetworkStatus ann pod)) \<and>
       GetDeviceIDFromNetworkStatus s = Inr d \<and>
       status_name pod s \<in> network_name pod ` set (ParsePodNetworkAnnotation ann pod) \<and>
       cluster (status_name pod s) = Some nd \<and> newNetDefInfo cni nd = Inr info \<and>
       ndi_PluginType info \<in> set plugins \<and>
       i = \<lparr>if_NetattachName = st_Name s, if_DeviceID = d, if_InterfaceName = st_Interface s,
            if_InterfaceType = ndi_PluginType info, if_IPs = st_IPs s\<rparr>)"
proof -
  define N where "N = network_name pod ` set (ParsePodNetworkAnnotation ann pod)"
  define p where "p s = pod_plugin ann ndt pod (status_name pod s)" for s
  have p_eq: "p s = (if status_name pod s \<in> N then
      (case cluster (status_name pod s) of None \<Rightarrow> []
       | Some d \<Rightarrow> (case newNetDefInfo cni d of Inl _ \<Rightarrow> [] | Inr i \<Rightarrow> ndi_PluginType i)) else [])" for s
    by (simp add: p_def N_def pod_plugin_def GetPluginType_cluster [OF assms(1)])
  have known: "p s \<in> set plugins \<longleftrightarrow>
      (\<exists>nd info. status_name pod s \<in> N \<and> cluster (status_name pod s) = Some nd \<and>
         newNetDefInfo cni nd = Inr info \<and> ndi_PluginType info \<in> set plugins \<and> p s = ndi_PluginType info)" for s
    using assms(2) by (auto simp: p_eq split: option.splits sum.splits)
  have typed: "status_name pod s \<in> N \<Longrightarrow> cluster (status_name pod s) = Some nd \<Longrightarrow>
      newNetDefInfo cni nd = Inr info \<Longrightarrow> p s = ndi_PluginType info" for s nd info
    by (simp add: p_eq)
  have "i \<in> set (elems (pi_Interfaces (fst (newPodInfo ann plugins ndt pod)))) \<longleftrightarrow>
      IsMultiNetworkpolicyTarget pod \<and>
      (\<exists>s\<in>set (elems (GetNetworkStatus ann pod)). p s \<in> set plugins \<and>
        (\<exists>d. GetDeviceIDFromNetworkStatus s = Inr d \<and>
          i = \<lparr>if_NetattachName = st_Name s, if_DeviceID = d, if_InterfaceName = st_Interface s,
               if_InterfaceType = p s, if_IPs = st_IPs s\<rparr>))"
    by (auto simp: newPodInfo_def Let_def case_prod_unfold pod_info_def status_interfaces_iff
        plugin_of_pod p_def)
  also have "\<dots> \<longleftrightarrow> IsMultiNetworkpolicyTarget pod \<and>
    (\<exists>s d nd info. s \<in> set (elems (GetNetworkStatus ann pod)) \<and>
       GetDeviceIDFromNetworkStatus s = Inr d \<and> status_name pod s \<in> N \<and>
       cluster (status_name pod s) = Some nd \<and> newNetDefInfo cni nd = Inr info \<and>
       ndi_PluginType info \<in> set plugins \<and>
       i = \<lparr>if_NetattachName = st_Name s, if_DeviceID = d, if_InterfaceName = st_Interface s,
            if_InterfaceType = ndi_PluginType info, if_IPs = st_IPs s\<rparr>)"
    unfolding known by (auto simp: typed)
  finally show ?thesis by (simp only: N_def)
qed

section \<open>The map follows the cluster\<close>

definition podToPodMap_at :: "PodAnnotations \<Rightarrow> string list \<Rightarrow> NetDefChangeTracker \<Rightarrow> Pod \<Rightarrow> PodMap option" where
  "podToPodMap_at ann plugins ndt pod = fst (podToPodMap ann plugins ndt (Some pod))"

interpretation pod_tracker: tracked pod_key "podToPodMap_at ann plugins ndt" for ann plugins ndt
  by unfold_locales (simp add: only_key_def podToPodMap_at_def podToPodMap_def case_prod_unfold Let_def)

lemma podToPodMap_flushed:
  "ndt_items ndt = [] \<Longrightarrow>
    podToPodMap ann plugins ndt obj = (to_map_of (podToPodMap_at ann plugins ndt) obj, ndt)"
  by (cases obj) (auto simp: podToPodMap_at_def podToPodMap_def case_prod_unfold Let_def newPodInfo_ndt)

text \<open>With no network change pending the pod tracker is an instance of the common one.\<close>

lemma pod_update_flushed:
  assumes "ndt_items ndt = []"
  shows "PodChangeTracker_Update ann plugins items ndt prev cur =
    (case tracker_update pod_key (podToPodMap_at ann plugins ndt) items prev cur of
       (changed, items') \<Rightarrow> (changed, items', ndt))"
  using assms
  by (auto simp: PodChangeTracker_Update_def tracker_update_def podToPodMap_flushed Let_def
      split: option.splits)

definition pods_reach ::
  "PodAnnotations \<Rightarrow> string list \<Rightarrow> NetDefChangeTracker \<Rightarrow> (NamespacedName \<rightharpoonup> Pod) \<Rightarrow> podChanges \<Rightarrow> PodMap \<Rightarrow> bool" where
  "pods_reach ann plugins ndt = tracker_reach pod_key (podToPodMap_at ann plugins ndt)"

text \<open>
  As long as the network attachment definitions do not change, the map of pods is the image
  of the cluster after every synchronisation: one more informer event of any kind, handled by
  the tracker and applied, leaves exactly the pods of the cluster, each with the information
  \<open>newPodInfo\<close> builds from it, and the definitions untouched.
\<close>

theorem pod_map_follows_cluster:
  assumes "ndt_items ndt = []" and "pods_reach ann plugins ndt cluster items pm"
    and "legal pod_key cluster ev"
    and "PodChangeTracker_Update ann plugins items ndt (event_prev ev) (event_cur ev) = (changed, items', ndt')"
  shows "changed \<and> ndt' = ndt \<and>
    pods_reach ann plugins ndt (after pod_key cluster ev) items' pm \<and>
    map_of (fst (PodMap_Update pm items')) =
      map_option (\<lambda>pod. fst (newPodInfo ann plugins ndt pod)) \<circ> after pod_key cluster ev"
proof -
  let ?tm = "podToPodMap_at ann plugins ndt"
  let ?cl = "after pod_key cluster ev"
  have upd: "tracker_update pod_key ?tm items (event_prev ev) (event_cur ev) = (changed, items')"
    and "ndt' = ndt"
    using assms(1,4) by (auto simp: pod_update_flushed split: prod.splits)
  moreover have changed
    using upd by (cases ev) (auto simp: tracker_update_def subject_def Let_def split: if_splits)
  moreover have reach: "tracker_reach pod_key ?tm ?cl items' pm"
    using tracker_reach.informed [OF assms(2) [unfolded pods_reach_def] assms(3)] upd by simp
  moreover have "map_of (fst (tracker_apply pm items')) = view ?tm ?cl"
    using pod_tracker.apply_view [OF reach] by simp
  moreover have "view ?tm ?cl = map_option (\<lambda>pod. fst (newPodInfo ann plugins ndt pod)) \<circ> ?cl"
  proof -
    have "?cl k = Some pod \<Longrightarrow> pod_key pod = k" for k pod
      using pod_tracker.inv_reach [OF reach] by (simp add: tracker_inv_def)
    then show ?thesis
      by (auto simp: fun_eq_iff view_def to_map_of_def podToPodMap_at_def podToPodMap_def entry_def
          case_prod_unfold Let_def split: option.splits)
  qed
  ultimately show ?thesis by (simp add: PodMap_Update_def pods_reach_def)
qed

text \<open>
  C39. The periodic resync of the informer, an update from a pod to itself, never changes the
  pending changes when none is pending for that pod: both sides of the change are computed from
  the same definitions, so they are equal and the change is dropped. A pod whose definition
  arrived or changed after the pod was applied therefore keeps the information it had, whatever
  \<open>newPodInfo\<close> would now give.
\<close>

theorem pod_resync_keeps_stale_info:
  assumes "map_of items (pod_key pod) = None"
  shows "fst (snd (PodChangeTracker_Update ann plugins items ndt (Some pod) (Some pod))) = items \<and>
    map_of (fst (PodMap_Update pm
      (fst (snd (PodChangeTracker_Update ann plugins items ndt (Some pod) (Some pod)))))) (pod_key pod) =
    map_of (fst (PodMap_Update pm items)) (pod_key pod)"
proof -
  have same: "fst (podToPodMap ann plugins (snd (podToPodMap ann plugins ndt (Some pod))) (Some pod)) =
      fst (podToPodMap ann plugins ndt (Some pod))"
    by (simp add: podToPodMap_def Let_def case_prod_unfold newPodInfo_ndt)
  have "pod_key pod \<notin> fst ` set items" using assms by (simp add: map_of_eq_None_iff)
  then have drop: "AList.delete (pod_key pod) (AList.update (pod_key pod) c items) = items" for c
    by (induction items) auto
  show ?thesis
    using same
    by (simp add: PodChangeTracker_Update_def subject_def assms Let_def case_prod_unfold drop)
qed

section \<open>What does not depend on the definitions\<close>

text \<open>
  Everything of a \<open>PodInfo\<close> but its interfaces comes from the pod alone; this part follows the
  cluster even while definitions come and go.
\<close>

definition strip_interfaces :: "PodInfo \<Rightarrow> PodInfo" where
  "strip_interfaces i = i\<lparr>pi_Interfaces := None\<rparr>"

definition static_info :: "PodAnnotations \<Rightarrow> Pod \<Rightarrow> PodInfo" where
  "static_info ann pod =
     pod_info pod (if IsMultiNetworkpolicyTarget pod then GetNetworkStatus ann pod else None) None"

definition static_map :: "PodAnnotations \<Rightarrow> Pod \<Rightarrow> PodMap option" where
  "static_map ann pod = Some [(pod_key pod, static_info ann pod)]"

interpretation static_pods: tracked pod_key "static_map ann" for ann
  by unfold_locales (simp add: only_key_def static_map_def)

lemma strip_newPodInfo [simp]:
  "strip_interfaces (fst (newPodInfo ann plugins ndt pod)) = static_info ann pod"
  by (simp add: newPodInfo_def static_info_def strip_interfaces_def pod_info_def Let_def case_prod_unfold)

lemma podToPodMap_part:
  "map_option (part strip_interfaces) (fst (podToPodMap ann plugins ndt obj)) = to_map_of (static_map ann) obj"
  by (cases obj) (simp_all add: podToPodMap_def static_map_def Let_def case_prod_unfold)

definition pods_follow :: "PodAnnotations \<Rightarrow> (NamespacedName \<rightharpoonup> Pod) \<Rightarrow> podChanges \<Rightarrow> PodMap \<Rightarrow> bool" where
  "pods_follow ann cluster items pm \<longleftrightarrow>
     tracker_inv pod_key (static_map ann) cluster (part (part_change strip_interfaces) items)
       (part strip_interfaces pm)"

lemma pod_update_ndt:
  "snd (podToPodMap ann plugins ndt obj) = ndt \<or> snd (podToPodMap ann plugins ndt obj) = NetDefMap_Update ndt"
  by (cases obj) (simp_all add: podToPodMap_def Let_def case_prod_unfold newPodInfo_ndt)

lemma pods_follow_change:
  assumes "pods_follow ann cluster items pm" and "cluster k = old" and "subject old new = Some b"
    and "\<forall>x. old = Some x \<or> new = Some x \<longrightarrow> pod_key x = k"
    and "PodChangeTracker_Update ann plugins items ndt old new = (changed, items', ndt')"
  shows "changed \<and> pods_follow ann (cluster(k := new)) items' pm \<and> (ndt' = ndt \<or> ndt' = NetDefMap_Update ndt)"
proof -
  have key: "pod_key b = k" using assms(3,4) by (auto simp: subject_def split: option.splits)
  define prev where "prev = podToPodMap ann plugins ndt old"
  define ch where "ch = (case map_of items k of None \<Rightarrow> \<lparr>previous = fst prev, current = None\<rparr> | Some c \<Rightarrow> c)"
  define ndt1 where "ndt1 = (case map_of items k of None \<Rightarrow> snd prev | Some c \<Rightarrow> ndt)"
  define cur where "cur = podToPodMap ann plugins ndt1 new"
  define ch' where "ch' = ch\<lparr>current := fst cur\<rparr>"
  have run: "changed" "ndt' = snd cur"
    "items' = (if previous ch = fst cur then AList.delete k (AList.update k ch' items) else AList.update k ch' items)"
    using assms(5)
    by (auto simp: PodChangeTracker_Update_def assms(3) key prev_def ch_def ndt1_def cur_def ch'_def Let_def
        case_prod_unfold split: option.splits if_splits)
  have "ndt1 = ndt \<or> ndt1 = NetDefMap_Update ndt"
    using pod_update_ndt [of ann plugins ndt old] by (auto simp: ndt1_def prev_def split: option.splits)
  then have ndt: "ndt' = ndt \<or> ndt' = NetDefMap_Update ndt"
    using pod_update_ndt [of ann plugins ndt1 new] by (auto simp: run cur_def)
  let ?pc = "part_change strip_interfaces"
  have new: "map_option (part strip_interfaces) (fst cur) = to_map_of (static_map ann) new"
    by (simp add: cur_def podToPodMap_part)
  have "?pc ch = (case map_of (part ?pc items) k of
      None \<Rightarrow> \<lparr>previous = to_map_of (static_map ann) old, current = None\<rparr> | Some c \<Rightarrow> c)"
    by (simp add: map_of_part ch_def prev_def podToPodMap_part part_change_def split: option.split)
  moreover have "previous (?pc ch) = to_map_of (static_map ann) new" if "previous ch = fst cur"
    using that new by simp
  moreover have "part ?pc items' = (if previous ch = fst cur
      then AList.delete k (AList.update k (?pc ch\<lparr>current := to_map_of (static_map ann) new\<rparr>) (part ?pc items))
      else AList.update k (?pc ch\<lparr>current := to_map_of (static_map ann) new\<rparr>) (part ?pc items))"
    by (simp add: run(3) part_delete part_update ch'_def part_change_def new)
  ultimately show ?thesis
    using static_pods.inv_step [OF assms(1) [unfolded pods_follow_def] assms(2,4),
        of "?pc ch" "previous ch = fst cur"] run(1) ndt
    by (simp add: pods_follow_def)
qed

lemma pods_follow_event:
  assumes "pods_follow ann cluster items pm" and "legal pod_key cluster ev"
    and "PodChangeTracker_Update ann plugins items ndt (event_prev ev) (event_cur ev) = (changed, items', ndt')"
  shows "changed \<and> pods_follow ann (after pod_key cluster ev) items' pm \<and>
    (ndt' = ndt \<or> ndt' = NetDefMap_Update ndt)"
proof (cases ev)
  case (Added b)
  then have c: "cluster (pod_key b) = None" using assms(2) by simp
  note run = assms(3) [unfolded Added event_prev.simps event_cur.simps]
  from pods_follow_change [OF assms(1) c _ _ run, of b] show ?thesis
    by (simp add: Added subject_def fun_upd_def)
next
  case (Updated a b)
  then have k: "pod_key a = pod_key b" and c: "cluster (pod_key b) = Some a" using assms(2) by auto
  note run = assms(3) [unfolded Updated event_prev.simps event_cur.simps]
  from pods_follow_change [OF assms(1) c _ _ run, of b] k show ?thesis
    by (simp add: Updated subject_def fun_upd_def)
next
  case (Deleted a)
  then have c: "cluster (pod_key a) = Some a" using assms(2) by simp
  note run = assms(3) [unfolded Deleted event_prev.simps event_cur.simps]
  from pods_follow_change [OF assms(1) c _ _ run, of a] show ?thesis
    by (simp add: Deleted subject_def fun_upd_def)
qed

lemma pods_follow_apply:
  assumes "pods_follow ann cluster items pm"
  shows "pods_follow ann cluster [] (fst (tracker_apply pm items))"
    and "map_option strip_interfaces (map_of (fst (tracker_apply pm items)) k) =
      map_option (static_info ann) (cluster k)"
proof -
  note inv = static_pods.inv_apply [OF assms [unfolded pods_follow_def]]
  show "pods_follow ann cluster [] (fst (tracker_apply pm items))"
    using inv(2) by (simp add: pods_follow_def part_apply)
  have "\<And>b. cluster k = Some b \<Longrightarrow> pod_key b = k"
    using assms by (simp add: pods_follow_def tracker_inv_def)
  then show "map_option strip_interfaces (map_of (fst (tracker_apply pm items)) k) =
      map_option (static_info ann) (cluster k)"
    using fun_cong [OF inv(1), of k]
    by (auto simp: part_apply [symmetric] map_of_part view_def to_map_of_def static_map_def entry_def
        split: option.splits)
qed

text \<open>The tracker only stores what \<open>newPodInfo\<close> gives for the pods of the event.\<close>

lemma podToPodMap_entry:
  assumes "m \<in> {n, NetDefMap_Update n}" and "(k, i) \<in> set (elems (fst (podToPodMap ann plugins m obj)))"
  shows "\<exists>pod. obj = Some pod \<and> k = pod_key pod \<and> i = fst (newPodInfo ann plugins n pod)"
  using assms by (cases obj) (auto simp: podToPodMap_def Let_def case_prod_unfold)

lemma all_entries_pod_update:
  assumes "all_entries P items pm"
    and "\<And>pod. prev = Some pod \<or> cur = Some pod \<Longrightarrow> P (pod_key pod) (fst (newPodInfo ann plugins ndt pod))"
  shows "all_entries P (fst (snd (PodChangeTracker_Update ann plugins items ndt prev cur))) pm"
proof (cases "subject prev cur")
  case None
  then show ?thesis using assms(1) by (simp add: PodChangeTracker_Update_def)
next
  case (Some pod)
  define old where "old = podToPodMap ann plugins ndt prev"
  define ch where "ch = (case map_of items (pod_key pod) of None \<Rightarrow> \<lparr>previous = fst old, current = None\<rparr> | Some c \<Rightarrow> c)"
  define ndt1 where "ndt1 = (case map_of items (pod_key pod) of None \<Rightarrow> snd old | Some c \<Rightarrow> ndt)"
  define new where "new = podToPodMap ann plugins ndt1 cur"
  have "ndt1 \<in> {ndt, NetDefMap_Update ndt}"
    using pod_update_ndt [of ann plugins ndt prev] by (auto simp: ndt1_def old_def split: option.split)
  note ndt1 = this
  have cur: "\<forall>(k, i)\<in>set (elems (fst new)). P k i"
  proof clarify
    fix k i
    assume "(k, i) \<in> set (elems (fst new))"
    from podToPodMap_entry [OF ndt1 this [unfolded new_def]] assms(2) show "P k i" by blast
  qed
  have "\<forall>(k, i)\<in>set (elems (fst old)). P k i"
  proof clarify
    fix k i
    assume "(k, i) \<in> set (elems (fst old))"
    from podToPodMap_entry [OF insertI1 this [unfolded old_def]] assms(2) show "P k i" by blast
  qed
  moreover have "\<forall>(k, i)\<in>set (elems (previous c)). P k i" if "map_of items (pod_key pod) = Some c" for c
    using bspec [OF conjunct2 [OF assms(1) [unfolded all_entries_def]] map_of_SomeD [OF that]] by (simp add: ball_Un)
  ultimately have "\<forall>(k, i)\<in>set (elems (previous ch)). P k i"
    unfolding ch_def by (cases "map_of items (pod_key pod)") simp_all
  with cur have one: "\<forall>(k, i)\<in>set (elems (previous ch)) \<union> set (elems (fst new)). P k i" by blast
  have deleted: "set (AList.delete k m) \<subseteq> set m" for k and m :: podChanges by (auto simp: AList.delete_eq)
  have items: "set (fst (snd (PodChangeTracker_Update ann plugins items ndt prev cur))) \<subseteq>
      insert (pod_key pod, ch\<lparr>current := fst new\<rparr>) (set items)"
  proof -
    define upd where "upd = AList.update (pod_key pod) (ch\<lparr>current := fst new\<rparr>) items"
    have "fst (snd (PodChangeTracker_Update ann plugins items ndt prev cur)) \<in> {upd, AList.delete (pod_key pod) upd}"
      by (cases "map_of items (pod_key pod)")
        (simp_all add: PodChangeTracker_Update_def Some ch_def ndt1_def new_def old_def upd_def Let_def case_prod_unfold)
    moreover have "set upd \<subseteq> insert (pod_key pod, ch\<lparr>current := fst new\<rparr>) (set items)"
      unfolding upd_def by (rule set_update_subset)
    ultimately show ?thesis using deleted [of "pod_key pod" upd] by fastforce
  qed
  have "\<forall>(_, c)\<in>insert (pod_key pod, ch\<lparr>current := fst new\<rparr>) (set items).
      \<forall>(k, i)\<in>set (elems (previous c)) \<union> set (elems (current c)). P k i"
    using assms(1) one unfolding all_entries_def by simp
  then show ?thesis using assms(1) items unfolding all_entries_def by blast
qed

section \<open>Examples\<close>

definition ex_pci_status :: NetworkStatus where
  "ex_pci_status =
     \<lparr>st_Name = ''blue/net1'', st_Interface = ''net1'', st_IPs = Some [''10.0.0.7''],
      st_DeviceInfo = Some \<lparr>dev_Type = DeviceInfoTypePCI, dev_Pci = Some \<lparr>PciAddress = ''0000:03:00.2''\<rparr>\<rparr>,
      st_Other = 0\<rparr>"

definition ex_ann :: PodAnnotations where
  "ex_ann = \<lparr>ParsePodNetworkAnnotation = (\<lambda>_. [\<lparr>sel_Namespace = [], sel_Name = ''net1''\<rparr>]),
             GetNetworkStatus = (\<lambda>_. Some [ex_pci_status])\<rparr>"

definition ex_plugins :: "string list" where
  "ex_plugins = [''accelerated-bridge'']"

definition ex_pod :: Pod where
  "ex_pod = \<lparr>pod_Namespace = ''blue'', pod_Name = ''p1'', pod_UID = ''u1'',
     pod_Labels = Some (Mapping.update ''app'' ''db'' Mapping.empty), pod_Annotations = None,
     pod_NodeName = ''node1'', pod_Phase = PodRunning, pod_HostNetwork = False, pod_Other = 0\<rparr>"

definition ex_ifc_info :: InterfaceInfo where
  "ex_ifc_info = \<lparr>if_NetattachName = ''blue/net1'', if_DeviceID = ''0000:03:00.2'',
     if_InterfaceName = ''net1'', if_InterfaceType = ''accelerated-bridge'', if_IPs = Some [''10.0.0.7'']\<rparr>"

theorem pod_interfaces_witness:
  "ex_ifc_info \<in> set (elems (pi_Interfaces (fst (newPodInfo ex_ann ex_plugins ex_ndt ex_pod))))"
proof -
  have "[] \<notin> set ex_plugins" by (simp add: ex_plugins_def)
  note iff = pod_interfaces [OF ex_netdef_reach this, of ex_ifc_info ex_ann ex_pod]
  have key: "netdef_key (ex_netdef ''x'') = NamespacedName ''blue'' ''net1''"
    by (simp add: netdef_key_def ex_netdef_def)
  have status: "status_name ex_pod ex_pci_status = NamespacedName ''blue'' ''net1''"
    by code_simp
  have device: "GetDeviceIDFromNetworkStatus ex_pci_status = Inr ''0000:03:00.2''" by code_simp
  have listed: "ex_pci_status \<in> set (elems (GetNetworkStatus ex_ann ex_pod))"
    by (simp add: ex_ann_def)
  have requested: "NamespacedName ''blue'' ''net1'' \<in>
      network_name ex_pod ` set (ParsePodNetworkAnnotation ex_ann ex_pod)"
    by (simp add: ex_ann_def network_name_def ex_pod_def)
  have read: "newNetDefInfo ex_cni (ex_netdef ''accelerated-bridge'') =
      Inr \<lparr>ndi_Netdef = ex_netdef ''accelerated-bridge'', ndi_PluginType = ''accelerated-bridge''\<rparr>"
    by (simp add: newNetDefInfo_def ex_cni_def ex_netdef_def)
  have target: "IsMultiNetworkpolicyTarget ex_pod"
    by (simp add: IsMultiNetworkpolicyTarget_def ex_pod_def)
  show ?thesis
    unfolding iff key
    using listed requested read target device status
    by (intro conjI exI [of _ ex_pci_status] exI [of _ "''0000:03:00.2''"]
        exI [of _ "ex_netdef ''accelerated-bridge''"]
        exI [of _ "\<lparr>ndi_Netdef = ex_netdef ''accelerated-bridge'', ndi_PluginType = ''accelerated-bridge''\<rparr>"])
      (simp_all add: ex_plugins_def ex_ifc_info_def, simp_all add: ex_pci_status_def)
qed

definition ex_pod_event :: "Pod event" where
  "ex_pod_event = Added ex_pod"

theorem pod_map_follows_cluster_witness:
  "map_of (fst (PodMap_Update [] (fst (snd (PodChangeTracker_Update ex_ann ex_plugins []
      NewNetDefChangeTracker None (Some ex_pod)))))) (pod_key ex_pod) =
   Some (fst (newPodInfo ex_ann ex_plugins NewNetDefChangeTracker ex_pod))"
proof -
  have "ndt_items NewNetDefChangeTracker = []" by (simp add: NewNetDefChangeTracker_def)
  moreover have "pods_reach ex_ann ex_plugins NewNetDefChangeTracker Map.empty [] []"
    by (simp add: pods_reach_def tracker_reach.start)
  moreover have "legal pod_key Map.empty ex_pod_event" by (simp add: ex_pod_event_def)
  ultimately show ?thesis
    using pod_map_follows_cluster [of NewNetDefChangeTracker ex_ann ex_plugins Map.empty "[]" "[]" ex_pod_event]
    by (simp add: ex_pod_event_def prod_eq_iff)
qed

text \<open>A pod applied before its definition arrived has no interface; after the definition arrived
  a resync still leaves it without one, although \<open>newPodInfo\<close> would give one.\<close>

definition ex_stale_pods :: PodMap where
  "ex_stale_pods = fst (PodMap_Update [] (fst (snd (PodChangeTracker_Update ex_ann ex_plugins []
      NewNetDefChangeTracker None (Some ex_pod)))))"

theorem pod_resync_keeps_stale_info_witness:
  "map_option pi_Interfaces (map_of (fst (PodMap_Update ex_stale_pods
      (fst (snd (PodChangeTracker_Update ex_ann ex_plugins [] ex_ndt (Some ex_pod) (Some ex_pod))))))
      (pod_key ex_pod)) = Some None \<and>
   pi_Interfaces (fst (newPodInfo ex_ann ex_plugins ex_ndt ex_pod)) = Some [ex_ifc_info]"
proof -
  have "map_option pi_Interfaces (map_of (fst (PodMap_Update ex_stale_pods [])) (pod_key ex_pod)) = Some None"
    by code_simp
  moreover have "pi_Interfaces (fst (newPodInfo ex_ann ex_plugins ex_ndt ex_pod)) = Some [ex_ifc_info]"
    by code_simp
  ultimately show ?thesis
    using pod_resync_keeps_stale_info [of "[]" ex_pod ex_ann ex_plugins ex_ndt ex_stale_pods] by simp
qed

end
