(* ===== verification/Policy_Renderer.thy ===== *)
theory Policy_Renderer
  imports Policy_Rules Namespace_Controller Policy_Controller Pod_Controller
begin

text \<open>
  Model of \<open>pkg/policyrules/renderer.go\<close>: from the policies, pods and namespaces of the cluster
  to one \<open>PolicyRuleSet\<close> per interface of a pod. Log calls are left out; everything they guard
  (a port, a CIDR, a selector or a policy that is skipped) is a branch of the model. The label
  selectors are the parameter \<open>api\<close>.
\<close>

section \<open>Ports and IP blocks\<close>

definition getPorts :: "PolicyPort list \<Rightarrow> Port list" where
  "getPorts ports =
     concat (map (\<lambda>p.
       case ParseUint (IntOrString_String (mp_Port p)) 0 16 of
         Inl _ \<Rightarrow> []
       | Inr portAsUint \<Rightarrow>
           let number = of_nat portAsUint in
           (case mp_Protocol p of
              None \<Rightarrow> [\<lparr>port_Protocol = ProtocolTCP, port_Number = number\<rparr>]
            | Some protocol \<Rightarrow>
                if protocol = ''TCP'' then [\<lparr>port_Protocol = ProtocolTCP, port_Number = number\<rparr>]
                else if protocol = ''UDP'' then [\<lparr>port_Protocol = ProtocolUDP, port_Number = number\<rparr>]
                else [])) ports)"

definition renderRulesWithIPBlock :: "IPBlock \<Rightarrow> Port list \<Rightarrow> Rule list" where
  "renderRulesWithIPBlock ipBlock ports =
     (case ParseCIDR (blk_CIDR ipBlock) of
        Inl _ \<Rightarrow> []
      | Inr ipnet \<Rightarrow>
          let rules = [\<lparr>rule_IPCidrs = [ipnet], rule_Ports = ports, rule_Action = PolicyActionPass\<rparr>];
              exceptIPs = concat (map (\<lambda>cidr.
                case ParseCIDR cidr of Inl _ \<Rightarrow> [] | Inr n \<Rightarrow> [n]) (blk_Except ipBlock))
          in if 0 < length exceptIPs
             then rules @ [\<lparr>rule_IPCidrs = exceptIPs, rule_Ports = ports, rule_Action = PolicyActionDrop\<rparr>]
             else rules)"

section \<open>Selectors\<close>

text \<open>The addresses of the selected pods on the network of the target, as host networks.\<close>

definition host_net :: "IP \<Rightarrow> IPNet" where
  "host_net ip = \<lparr>net_IP = ip, net_Mask = (if IsIPv4 ip then CIDRMask 32 32 else CIDRMask 128 128)\<rparr>"

definition interface_cidrs :: "string \<Rightarrow> InterfaceInfo \<Rightarrow> IPNet list" where
  "interface_cidrs networkName ifc =
     (if if_NetattachName ifc = networkName
      then map host_net (filter (\<lambda>ip. ip \<noteq> []) (IPsFromStrings (elems (if_IPs ifc))))
      else [])"

definition pod_cidrs :: "string \<Rightarrow> PodInfo list \<Rightarrow> IPNet list" where
  "pod_cidrs networkName pods =
     concat (map (\<lambda>podInfo. concat (map (interface_cidrs networkName) (elems (pi_Interfaces podInfo)))) pods)"

text \<open>The pods whose labels match (lines 198 to 219), or an error of the selector.\<close>

definition matching_pods ::
  "('sel, 'ls) Selectors \<Rightarrow> 'sel option \<Rightarrow> PodMap \<Rightarrow> error + PodInfo list" where
  "matching_pods api podSel currentPods =
     (case LabelSelectorAsMap api podSel of
        Inl e \<Rightarrow> Inl e
      | Inr podSelectorMap \<Rightarrow>
          let podLabelSelector = AsSelector api podSelectorMap in
          Inr (if Empty api podLabelSelector then PodMap_List currentPods
               else filter (\<lambda>podInfo. Matches api podLabelSelector (pi_Labels podInfo))
                      (PodMap_List currentPods)))"

text \<open>Those of them in a selected namespace (lines 221 to 255).\<close>

definition matching_pods_and_ns ::
  "('sel, 'ls) Selectors \<Rightarrow> 'sel option \<Rightarrow> string \<Rightarrow> NamespaceMap \<Rightarrow> PodInfo list \<Rightarrow> error + PodInfo list" where
  "matching_pods_and_ns api nsSel policyNamespace currentNamespaces matchingPods =
     (case nsSel of
        None \<Rightarrow> Inr (filter (\<lambda>podInfo. pi_Namespace podInfo = policyNamespace) matchingPods)
      | Some _ \<Rightarrow>
          (case LabelSelectorAsMap api nsSel of
             Inl e \<Rightarrow> Inl e
           | Inr nsSelectorMap \<Rightarrow>
               let nsLabelSelector = AsSelector api nsSelectorMap in
               Inr (if Empty api nsLabelSelector then matchingPods
                    else filter (\<lambda>podInfo.
                      case GetNamespaceInfo currentNamespaces (pi_Namespace podInfo) of
                        Inl _ \<Rightarrow> False
                      | Inr nsInfo \<Rightarrow> Matches api nsLabelSelector (nsi_Labels nsInfo)) matchingPods)))"

definition renderRulesWithSelectors ::
  "('sel, 'ls) Selectors \<Rightarrow> 'sel option \<Rightarrow> 'sel option \<Rightarrow> Port list \<Rightarrow> PodMap \<Rightarrow> NamespaceMap \<Rightarrow>
    string \<Rightarrow> string \<Rightarrow> Rule list" where
  "renderRulesWithSelectors api podSel nsSel ports currentPods currentNamespaces networkName policyNamespace =
     (if podSel = None \<and> nsSel = None then []
      else case matching_pods api podSel currentPods of
        Inl _ \<Rightarrow> []
      | Inr matchingPods \<Rightarrow>
          (case matching_pods_and_ns api nsSel policyNamespace currentNamespaces matchingPods of
             Inl _ \<Rightarrow> []
           | Inr matchingPodsAndNs \<Rightarrow>
               let ipCidrs = pod_cidrs networkName matchingPodsAndNs in
               if 0 < length ipCidrs \<or> 0 < length ports
               then [\<lparr>rule_IPCidrs = ipCidrs, rule_Ports = ports, rule_Action = PolicyActionPass\<rparr>]
               else []))"

section \<open>One policy on one interface\<close>

text \<open>The rules of one peer (lines 150 to 168); a peer without any field gives none.\<close>

definition peer_rules ::
  "('sel, 'ls) Selectors \<Rightarrow> 'sel PolicyInfo \<Rightarrow> string \<Rightarrow> PodMap \<Rightarrow> NamespaceMap \<Rightarrow> Port list \<Rightarrow>
    'sel PolicyPeer \<Rightarrow> Rule list" where
  "peer_rules api policy networkName currentPods currentNamespaces ports peer =
     (case peer_IPBlock peer of
        Some ipBlock \<Rightarrow> renderRulesWithIPBlock ipBlock ports
      | None \<Rightarrow>
          if peer_PodSelector peer \<noteq> None \<or> peer_NamespaceSelector peer \<noteq> None
          then renderRulesWithSelectors api (peer_PodSelector peer) (peer_NamespaceSelector peer) ports
                 currentPods currentNamespaces networkName (PolicyInfo_Namespace policy)
          else [])"

text \<open>The rules of one egress rule (lines 148 to 179).\<close>

definition egress_rules ::
  "('sel, 'ls) Selectors \<Rightarrow> 'sel PolicyInfo \<Rightarrow> string \<Rightarrow> PodMap \<Rightarrow> NamespaceMap \<Rightarrow>
    'sel EgressRule \<Rightarrow> Rule list" where
  "egress_rules api policy networkName currentPods currentNamespaces egressPolicyRule =
     (let ports = getPorts (eg_Ports egressPolicyRule);
          rules = concat (map (peer_rules api policy networkName currentPods currentNamespaces ports)
            (eg_To egressPolicyRule))
      in if length (eg_To egressPolicyRule) = 0
         then rules @ [\<lparr>rule_IPCidrs = [], rule_Ports = ports, rule_Action = PolicyActionPass\<rparr>]
         else rules)"

definition rule_interface :: "InterfaceInfo \<Rightarrow> RuleInterface" where
  "rule_interface ifc =
     \<lparr>ri_Network = if_NetattachName ifc, ri_InterfaceName = if_InterfaceName ifc,
      ri_IPs = IPsFromStrings (elems (if_IPs ifc)), ri_DeviceID = if_DeviceID ifc\<rparr>"

definition renderEgressForInterface ::
  "('sel, 'ls) Selectors \<Rightarrow> InterfaceInfo \<Rightarrow> 'sel PolicyInfo \<Rightarrow> PodMap \<Rightarrow> NamespaceMap \<Rightarrow> PolicyRuleSet" where
  "renderEgressForInterface api targetInterface policy currentPods currentNamespaces =
     \<lparr>rs_IfcInfo = rule_interface targetInterface, rs_Type = PolicyTypeEgress,
      rs_Rules = Some (concat (map
        (egress_rules api policy (if_NetattachName targetInterface) currentPods currentNamespaces)
        (pol_Egress (pli_Policy policy))))\<rparr>"

section \<open>All policies\<close>

text \<open>Adding the rules of a policy to the rule set its interface already has (lines 90 to 96).\<close>

definition add_rule_set :: "PolicyRuleSet \<Rightarrow> (string, PolicyRuleSet) gomap \<Rightarrow> (string, PolicyRuleSet) gomap" where
  "add_rule_set ifcRuleSet policyRulesMap =
     (let uid = GetUID (rs_IfcInfo ifcRuleSet) in
      case map_of policyRulesMap uid of
        Some existing \<Rightarrow>
          AList.update uid
            (existing\<lparr>rs_Rules := slice_append (rs_Rules existing) (elems (rs_Rules ifcRuleSet))\<rparr>) policyRulesMap
      | None \<Rightarrow> AList.update uid ifcRuleSet policyRulesMap)"

text \<open>The loop over the interfaces for one policy (lines 68 to 101).\<close>

definition render_policy ::
  "('sel, 'ls) Selectors \<Rightarrow> PodInfo \<Rightarrow> PodMap \<Rightarrow> NamespaceMap \<Rightarrow> 'sel PolicyInfo \<Rightarrow>
    (string, PolicyRuleSet) gomap \<Rightarrow> (string, PolicyRuleSet) gomap" where
  "render_policy api target currentPods currentNamespaces policy policyRulesMap =
     (case PolicyAppliesForPod api target (pli_Policy policy) of
        Inl _ \<Rightarrow> policyRulesMap
      | Inr match \<Rightarrow>
          if \<not> match then policyRulesMap
          else fold (\<lambda>ifc m.
            if AppliesForNetwork policy (if_NetattachName ifc)
            then add_rule_set (renderEgressForInterface api ifc policy currentPods currentNamespaces) m
            else m) (elems (pi_Interfaces target)) policyRulesMap)"

definition emptyPolicyRuleSet :: "InterfaceInfo \<Rightarrow> PolicyRuleSet" where
  "emptyPolicyRuleSet ifc =
     \<lparr>rs_IfcInfo = rule_interface ifc, rs_Type = PolicyTypeEgress, rs_Rules = None\<rparr>"

text \<open>The empty rule sets of the interfaces without a policy (lines 104 to 120).\<close>

definition add_empty_rule_set :: "InterfaceInfo \<Rightarrow> (string, PolicyRuleSet) gomap \<Rightarrow> (string, PolicyRuleSet) gomap" where
  "add_empty_rule_set ifc policyRulesMap =
     (let uid = GetUID (rs_IfcInfo (emptyPolicyRuleSet ifc)) in
      case map_of policyRulesMap uid of
        None \<Rightarrow> AList.update uid (emptyPolicyRuleSet ifc) policyRulesMap
      | Some _ \<Rightarrow> policyRulesMap)"

definition RenderEgress ::
  "('sel, 'ls) Selectors \<Rightarrow> PodInfo \<Rightarrow> 'sel PolicyMap \<Rightarrow> PodMap \<Rightarrow> NamespaceMap \<Rightarrow>
    PolicyRuleSet list \<times> error option" where
  "RenderEgress api target currentPolicies currentPods currentNamespaces =
     (let policyRulesMap =
            fold (render_policy api target currentPods currentNamespaces) (map snd currentPolicies) [];
          policyRulesMap' = fold add_empty_rule_set (elems (pi_Interfaces target)) policyRulesMap
      in (map snd policyRulesMap', None))"

definition RenderIngress ::
  "('sel, 'ls) Selectors \<Rightarrow> PodInfo \<Rightarrow> 'sel PolicyMap \<Rightarrow> PodMap \<Rightarrow> NamespaceMap \<Rightarrow>
    PolicyRuleSet list \<times> error option" where
  "RenderIngress api target currentPolicies currentPods currentNamespaces =
     ([], Some (Errorf ''not implemented'' []))"

section \<open>One rule set per interface\<close>

abbreviation ifc_uid :: "InterfaceInfo \<Rightarrow> string" where
  "ifc_uid ifc \<equiv> GetUID (rule_interface ifc)"

definition policy_rules ::
  "('sel, 'ls) Selectors \<Rightarrow> PodMap \<Rightarrow> NamespaceMap \<Rightarrow> InterfaceInfo \<Rightarrow> 'sel PolicyInfo \<Rightarrow> Rule list" where
  "policy_rules api pods nss ifc policy =
     concat (map (egress_rules api policy (if_NetattachName ifc) pods nss) (pol_Egress (pli_Policy policy)))"

definition enforced :: "('sel, 'ls) Selectors \<Rightarrow> PodInfo \<Rightarrow> InterfaceInfo \<Rightarrow> 'sel PolicyInfo \<Rightarrow> bool" where
  "enforced api target ifc policy \<longleftrightarrow>
     PolicyAppliesForPod api target (pli_Policy policy) = Inr True \<and>
     AppliesForNetwork policy (if_NetattachName ifc)"

text \<open>What the rule set of an interface should be.\<close>

definition rule_set_for ::
  "('sel, 'ls) Selectors \<Rightarrow> PodInfo \<Rightarrow> 'sel PolicyInfo list \<Rightarrow> PodMap \<Rightarrow> NamespaceMap \<Rightarrow> InterfaceInfo \<Rightarrow>
    PolicyRuleSet" where
  "rule_set_for api target policies pods nss ifc =
     \<lparr>rs_IfcInfo = rule_interface ifc, rs_Type = PolicyTypeEgress,
      rs_Rules = (let ps = filter (enforced api target ifc) policies in
                  if ps = [] then None else Some (concat (map (policy_rules api pods nss ifc) ps)))\<rparr>"

lemma map_of_add_rule_set:
  "map_of (add_rule_set rs m) u =
     (if u = GetUID (rs_IfcInfo rs)
      then Some (case map_of m u of
                   None \<Rightarrow> rs
                 | Some e \<Rightarrow> e\<lparr>rs_Rules := slice_append (rs_Rules e) (elems (rs_Rules rs))\<rparr>)
      else map_of m u)"
  by (auto simp: add_rule_set_def Let_def update_conv' split: option.splits)

lemma map_of_add_empty_rule_set:
  "map_of (add_empty_rule_set ifc m) u =
     (if u = ifc_uid ifc \<and> map_of m u = None then Some (emptyPolicyRuleSet ifc) else map_of m u)"
  by (auto simp: add_empty_rule_set_def Let_def update_conv' emptyPolicyRuleSet_def split: option.splits)

lemma go_map_add_rule_set: "go_map m \<Longrightarrow> go_map (add_rule_set rs m)"
  by (auto simp: add_rule_set_def Let_def split: option.splits)

lemma go_map_add_empty_rule_set: "go_map m \<Longrightarrow> go_map (add_empty_rule_set ifc m)"
  by (auto simp: add_empty_rule_set_def Let_def split: option.splits)

text \<open>
  A fold that touches one key per element, over elements with different keys: the entry of a
  key is touched once, by the element that owns it.
\<close>

lemma fold_keyed_other:
  assumes "\<And>x m k. map_of (f x m) k = (if k = key x then g x (map_of m k) else map_of m k)"
  shows "k \<notin> key ` set xs \<Longrightarrow> map_of (fold f xs m) k = map_of m k"
  by (induction xs arbitrary: m) (auto simp: assms)

lemma fold_keyed:
  assumes "\<And>x m k. map_of (f x m) k = (if k = key x then g x (map_of m k) else map_of m k)"
    and "distinct (map key xs)" and "x \<in> set xs"
  shows "map_of (fold f xs m) (key x) = g x (map_of m (key x))"
  using assms(2,3)
proof (induction xs arbitrary: m)
  case Nil
  then show ?case by simp
next
  case (Cons y ys)
  show ?case
  proof (cases "x = y")
    case True
    then show ?thesis
      using Cons.prems(1) fold_keyed_other [of f key g, OF assms(1), of "key y" ys "f y m"]
      by (simp add: assms(1))
  next
    case False
    then have x: "x \<in> set ys" using Cons.prems(2) by simp
    then have "key x \<in> key ` set ys" by simp
    then have "key x \<noteq> key y" using Cons.prems(1) by auto
    then show ?thesis using x Cons.IH [of "f y m"] Cons.prems(1) by (simp add: assms(1))
  qed
qed

text \<open>One policy: the entry of each interface it is enforced on grows by its rules.\<close>

definition grow ::
  "('sel, 'ls) Selectors \<Rightarrow> PodInfo \<Rightarrow> PodMap \<Rightarrow> NamespaceMap \<Rightarrow> 'sel PolicyInfo \<Rightarrow> InterfaceInfo \<Rightarrow>
    PolicyRuleSet option \<Rightarrow> PolicyRuleSet option" where
  "grow api target pods nss policy ifc e =
     (if enforced api target ifc policy
      then Some (case e of
                   None \<Rightarrow> renderEgressForInterface api ifc policy pods nss
                 | Some rs \<Rightarrow> rs\<lparr>rs_Rules := slice_append (rs_Rules rs) (policy_rules api pods nss ifc policy)\<rparr>)
      else e)"

lemma render_policy_entry:
  assumes "distinct (map ifc_uid (elems (pi_Interfaces target)))" and "ifc \<in> set (elems (pi_Interfaces target))"
  shows "map_of (render_policy api target pods nss policy m) (ifc_uid ifc) =
    grow api target pods nss policy ifc (map_of m (ifc_uid ifc))"
proof (cases "PolicyAppliesForPod api target (pli_Policy policy) = Inr True")
  case True
  let ?step = "\<lambda>ifc m. if AppliesForNetwork policy (if_NetattachName ifc)
    then add_rule_set (renderEgressForInterface api ifc policy pods nss) m else m"
  have "map_of (?step ifc m) k =
      (if k = ifc_uid ifc then grow api target pods nss policy ifc (map_of m k) else map_of m k)" for ifc m k
    using True
    by (auto simp: map_of_add_rule_set renderEgressForInterface_def grow_def enforced_def policy_rules_def
        split: option.splits)
  from fold_keyed [of ?step ifc_uid "grow api target pods nss policy", OF this assms]
  show ?thesis using True by (simp add: render_policy_def)
next
  case False
  then show ?thesis by (auto simp: render_policy_def grow_def enforced_def split: sum.splits)
qed

lemma render_policy_other:
  assumes "distinct (map ifc_uid (elems (pi_Interfaces target)))"
    and "k \<notin> ifc_uid ` set (elems (pi_Interfaces target))"
  shows "map_of (render_policy api target pods nss policy m) k = map_of m k"
proof -
  let ?step = "\<lambda>ifc m. if AppliesForNetwork policy (if_NetattachName ifc)
    then add_rule_set (renderEgressForInterface api ifc policy pods nss) m else m"
  have "k \<notin> ifc_uid ` set ifcs \<Longrightarrow> map_of (fold ?step ifcs m) k = map_of m k" for ifcs m
    by (induction ifcs arbitrary: m)
      (auto simp: map_of_add_rule_set renderEgressForInterface_def)
  then show ?thesis using assms(2) by (auto simp: render_policy_def split: sum.splits)
qed

text \<open>All policies: the entry of an interface after the first loop.\<close>

lemma render_policies_entry:
  assumes "distinct (map ifc_uid (elems (pi_Interfaces target)))" and "ifc \<in> set (elems (pi_Interfaces target))"
  shows "map_of (fold (render_policy api target pods nss) ps []) (ifc_uid ifc) =
    (if filter (enforced api target ifc) ps = [] then None
     else Some (rule_set_for api target ps pods nss ifc))"
proof (induction ps rule: rev_induct)
  case Nil
  then show ?case by simp
next
  case (snoc p ps)
  then show ?case
    by (auto simp: render_policy_entry [OF assms] grow_def rule_set_for_def renderEgressForInterface_def
        policy_rules_def filter_empty_conv)
qed

lemma render_policies_other:
  assumes "distinct (map ifc_uid (elems (pi_Interfaces target)))"
    and "k \<notin> ifc_uid ` set (elems (pi_Interfaces target))"
  shows "map_of (fold (render_policy api target pods nss) ps []) k = None"
  by (induction ps rule: rev_induct) (simp_all add: render_policy_other [OF assms])

lemma go_map_render: "go_map (fold (render_policy api target pods nss) ps [])"
proof -
  have step: "go_map m \<Longrightarrow> go_map (render_policy api target pods nss p m)" for p m
  proof -
    have "go_map m \<Longrightarrow> go_map (fold (\<lambda>ifc m. if AppliesForNetwork p (if_NetattachName ifc)
        then add_rule_set (renderEgressForInterface api ifc p pods nss) m else m) ifcs m)" for ifcs
      by (induction ifcs arbitrary: m) (auto simp: go_map_add_rule_set)
    then show "go_map m \<Longrightarrow> go_map (render_policy api target pods nss p m)"
      by (auto simp: render_policy_def split: sum.splits)
  qed
  show ?thesis by (induction ps rule: rev_induct) (simp_all add: step)
qed

lemma go_map_render_empty: "go_map m \<Longrightarrow> go_map (fold add_empty_rule_set ifcs m)"
  by (induction ifcs arbitrary: m) (auto simp: go_map_add_empty_rule_set)

lemma render_run:
  assumes "distinct (map ifc_uid (elems (pi_Interfaces target)))"
    and "RenderEgress api target policies pods nss = (rss, err)"
  shows "err = None \<and> distinct (map (GetUID \<circ> rs_IfcInfo) rss) \<and>
    set rss = rule_set_for api target (map snd policies) pods nss ` set (elems (pi_Interfaces target))"
proof -
  let ?ifcs = "elems (pi_Interfaces target)"
  let ?m = "fold (render_policy api target pods nss) (map snd policies) []"
  let ?m' = "fold add_empty_rule_set ?ifcs ?m"
  let ?for = "rule_set_for api target (map snd policies) pods nss"
  have rss: "rss = map snd ?m'" and err: "err = None"
    using assms(2) by (simp_all add: RenderEgress_def Let_def)
  have gm: "go_map ?m'" by (rule go_map_render_empty [OF go_map_render])
  have step: "map_of (add_empty_rule_set ifc m) k =
      (if k = ifc_uid ifc then (case map_of m k of None \<Rightarrow> Some (emptyPolicyRuleSet ifc) | Some e \<Rightarrow> Some e)
       else map_of m k)" for ifc m k
    by (auto simp: map_of_add_empty_rule_set split: option.splits)
  note keyed = fold_keyed [of add_empty_rule_set ifc_uid, OF step assms(1)]
    and others = fold_keyed_other [of add_empty_rule_set ifc_uid, OF step]
  have own: "map_of ?m' (ifc_uid ifc) = Some (?for ifc)" if "ifc \<in> set ?ifcs" for ifc
    using keyed [OF that, of ?m] render_policies_entry [OF assms(1) that, of api pods nss "map snd policies"]
    by (auto simp: emptyPolicyRuleSet_def rule_set_for_def split: option.splits if_splits)
  have other: "map_of ?m' k = None" if "k \<notin> ifc_uid ` set ?ifcs" for k
    using others [OF that, of ?m] render_policies_other [OF assms(1) that] by simp
  have entries: "(k, rs) \<in> set ?m' \<longleftrightarrow> (\<exists>ifc\<in>set ?ifcs. k = ifc_uid ifc \<and> rs = ?for ifc)" for k rs
    unfolding go_map_set [OF gm] using own other [of k] by (cases "k \<in> ifc_uid ` set ?ifcs") auto
  have keys: "GetUID (rs_IfcInfo (snd e)) = fst e" if "e \<in> set ?m'" for e
    using entries [of "fst e" "snd e"] that by (auto simp: rule_set_for_def)
  have "map (GetUID \<circ> rs_IfcInfo) rss = map fst ?m'"
    using keys by (simp add: rss)
  moreover have "set rss = ?for ` set ?ifcs"
    unfolding rss using entries by force
  ultimately show ?thesis using gm err by (simp add: go_map_def)
qed

text \<open>Every rendered rule has one of the two actions.\<close>

lemma peer_rule_actions:
  assumes "r \<in> set (peer_rules api p net pods nss ports peer)"
  shows "rule_Action r = PolicyActionPass \<or> rule_Action r = PolicyActionDrop"
proof (cases "peer_IPBlock peer")
  case (Some b)
  then have "r \<in> set (renderRulesWithIPBlock b ports)" using assms by (simp add: peer_rules_def)
  then show ?thesis
    by (cases "ParseCIDR (blk_CIDR b)") (auto simp: renderRulesWithIPBlock_def Let_def split: if_splits)
next
  case None
  let ?rules = "renderRulesWithSelectors api (peer_PodSelector peer) (peer_NamespaceSelector peer) ports pods nss
    net (PolicyInfo_Namespace p)"
  have "r \<in> set ?rules"
    using assms None unfolding peer_rules_def by (simp split: if_splits)
  then have "\<exists>ns. r = \<lparr>rule_IPCidrs = ns, rule_Ports = ports, rule_Action = PolicyActionPass\<rparr>"
    unfolding renderRulesWithSelectors_def by (simp add: Let_def split: if_splits sum.splits) blast
  then show ?thesis by auto
qed

lemma rule_actions:
  assumes "r \<in> set (policy_rules api pods nss ifc p)"
  shows "rule_Action r = PolicyActionPass \<or> rule_Action r = PolicyActionDrop"
proof -
  obtain e where "r \<in> set (egress_rules api p (if_NetattachName ifc) pods nss e)"
    using assms by (auto simp: policy_rules_def)
  then show ?thesis
    using peer_rule_actions [of r] unfolding egress_rules_def Let_def
    by (cases "length (eg_To e) = 0") auto
qed

text \<open>
  C28. Rendering never fails and gives exactly one rule set per interface of the pod, for
  whatever order the maps are iterated in: an interface no policy is enforced on has nil rules
  (it is left open), any other one has the rules of all policies enforced on it, policy by
  policy. The interfaces must be told apart by network and name, which a CNI guarantees.
\<close>

theorem render_egress_per_interface:
  assumes "distinct (map ifc_uid (elems (pi_Interfaces target)))"
    and "RenderEgress api target policies pods nss = (rss, err)"
  shows "err = None \<and> distinct (map (GetUID \<circ> rs_IfcInfo) rss) \<and>
    set rss = rule_set_for api target (map snd policies) pods nss ` set (elems (pi_Interfaces target))"
  by (rule render_run [OF assms])

end
