(* ===== verification/Server_State.thy ===== *)
theory Server_State
  imports Policy_Renderer
begin

text \<open>
  The state of \<open>pkg/server/server.go\<close> and its event handlers: the four trackers, the maps of the
  cluster, the flags that say which informers have synced and the channel that starts the pod
  informer. Each handler is one change of the state, in the order of its statements. The step
  relation \<open>server_reach\<close> runs the handlers in any order client-go may call them in, together
  with the part of a synchronisation that brings the maps up to date, and remembers what the
  informers reported of the cluster.
\<close>

section \<open>Options and state\<close>

record Options =
  opt_hostnameOverride :: string
  opt_networkPlugins :: "string list"
  opt_podRulesPath :: string
  opt_tcDriver :: string

text \<open>The defaults of \<open>AddFlags\<close>.\<close>

definition default_options :: Options where
  "default_options = \<lparr>opt_hostnameOverride = [], opt_networkPlugins = [''accelerated-bridge''],
     opt_podRulesPath = [], opt_tcDriver = ''cmdline''\<rparr>"

record 'sel Server =
  sv_podChanges :: podChanges
  sv_policyChanges :: "'sel PolicyChangeTracker"
  sv_netdefChanges :: NetDefChangeTracker
  sv_nsChanges :: NamespaceChangeTracker
  sv_podMap :: PodMap
  sv_policyMap :: "'sel PolicyMap"
  sv_namespaceMap :: NamespaceMap
  sv_podSynced :: bool
  sv_policySynced :: bool
  sv_netdefSynced :: bool
  sv_nsSynced :: bool
  sv_initialized :: int
  sv_startPodConfig :: nat
  sv_startPodConfigClosed :: bool
  sv_syncRequests :: nat

text \<open>
  \<open>startPodConfig\<close> counts how often the channel was closed (a second time is a panic) and
  \<open>syncRequests\<close> how often the sync runner was asked to run.
\<close>

definition NewServer :: "'sel Server" where
  "NewServer =
     \<lparr>sv_podChanges = NewPodChangeTracker, sv_policyChanges = NewPolicyChangeTracker,
      sv_netdefChanges = NewNetDefChangeTracker, sv_nsChanges = NewNamespaceChangeTracker,
      sv_podMap = [], sv_policyMap = [], sv_namespaceMap = [],
      sv_podSynced = False, sv_policySynced = False, sv_netdefSynced = False, sv_nsSynced = False,
      sv_initialized = 0, sv_startPodConfig = 0, sv_startPodConfigClosed = False, sv_syncRequests = 0\<rparr>"

definition setInitialized :: "bool \<Rightarrow> 'sel Server \<Rightarrow> 'sel Server" where
  "setInitialized value s = s\<lparr>sv_initialized := if value then 1 else 0\<rparr>"

definition isInitialized :: "'sel Server \<Rightarrow> bool" where
  "isInitialized s \<longleftrightarrow> 0 < sv_initialized s"

definition Sync :: "'sel Server \<Rightarrow> 'sel Server" where
  "Sync s = s\<lparr>sv_syncRequests := Suc (sv_syncRequests s)\<rparr>"

definition AllExceptPodsSynced :: "'sel Server \<Rightarrow> bool" where
  "AllExceptPodsSynced s \<longleftrightarrow> sv_policySynced s \<and> sv_netdefSynced s \<and> sv_nsSynced s"

definition AllSynced :: "'sel Server \<Rightarrow> bool" where
  "AllSynced s \<longleftrightarrow> sv_policySynced s \<and> sv_netdefSynced s \<and> sv_nsSynced s \<and> sv_podSynced s"

text \<open>The end of three of the \<open>On...Synced\<close> handlers: close the channel once.\<close>

definition start_pods :: "'sel Server \<Rightarrow> 'sel Server" where
  "start_pods s =
     (if AllExceptPodsSynced s
      then if \<not> sv_startPodConfigClosed s
           then s\<lparr>sv_startPodConfig := Suc (sv_startPodConfig s), sv_startPodConfigClosed := True\<rparr>
           else s
      else s)"

section \<open>Event handlers\<close>

record Sources =
  src_ann :: PodAnnotations
  src_cni :: CNI
  src_plugins :: "string list"

definition pod_update :: "Sources \<Rightarrow> Pod option \<Rightarrow> Pod option \<Rightarrow> 'sel Server \<Rightarrow> 'sel Server" where
  "pod_update src prev cur s =
     (case PodChangeTracker_Update (src_ann src) (src_plugins src) (sv_podChanges s) (sv_netdefChanges s)
             prev cur of
        (changed, items, ndt) \<Rightarrow>
          let s' = s\<lparr>sv_podChanges := items, sv_netdefChanges := ndt\<rparr>
          in if changed \<and> sv_podSynced s' then Sync s' else s')"

definition Server_OnPodAdd :: "Sources \<Rightarrow> Pod \<Rightarrow> 'sel Server \<Rightarrow> 'sel Server" where
  "Server_OnPodAdd src pod = pod_update src None (Some pod)"

definition Server_OnPodUpdate :: "Sources \<Rightarrow> Pod \<Rightarrow> Pod \<Rightarrow> 'sel Server \<Rightarrow> 'sel Server" where
  "Server_OnPodUpdate src oldPod pod = pod_update src (Some oldPod) (Some pod)"

definition Server_OnPodDelete :: "Sources \<Rightarrow> Pod \<Rightarrow> 'sel Server \<Rightarrow> 'sel Server" where
  "Server_OnPodDelete src pod = pod_update src (Some pod) None"

definition Server_OnPodSynced :: "'sel Server \<Rightarrow> 'sel Server" where
  "Server_OnPodSynced s =
     (let s1 = s\<lparr>sv_podSynced := True\<rparr> in setInitialized (AllSynced s1) s1)"

definition policy_update :: "'sel Policy option \<Rightarrow> 'sel Policy option \<Rightarrow> 'sel Server \<Rightarrow> 'sel Server" where
  "policy_update prev cur s =
     (case PolicyChangeTracker_Update (sv_policyChanges s) prev cur of
        (changed, items) \<Rightarrow>
          let s' = s\<lparr>sv_policyChanges := items\<rparr> in if changed \<and> isInitialized s' then Sync s' else s')"

definition Server_OnPolicyAdd :: "'sel Policy \<Rightarrow> 'sel Server \<Rightarrow> 'sel Server" where
  "Server_OnPolicyAdd policy = policy_update None (Some policy)"

definition Server_OnPolicyUpdate :: "'sel Policy \<Rightarrow> 'sel Policy \<Rightarrow> 'sel Server \<Rightarrow> 'sel Server" where
  "Server_OnPolicyUpdate oldPolicy policy = policy_update (Some oldPolicy) (Some policy)"

definition Server_OnPolicyDelete :: "'sel Policy \<Rightarrow> 'sel Server \<Rightarrow> 'sel Server" where
  "Server_OnPolicyDelete policy = policy_update (Some policy) None"

definition Server_OnPolicySynced :: "'sel Server \<Rightarrow> 'sel Server" where
  "Server_OnPolicySynced s =
     (let s1 = s\<lparr>sv_policySynced := True\<rparr> in start_pods (setInitialized (AllSynced s1) s1))"

definition netdef_update :: "CNI \<Rightarrow> NetAttachDef option \<Rightarrow> NetAttachDef option \<Rightarrow> 'sel Server \<Rightarrow> 'sel Server" where
  "netdef_update cni prev cur s =
     (case NetDefChangeTracker_Update cni (sv_netdefChanges s) prev cur of
        (changed, ndt) \<Rightarrow>
          let s' = s\<lparr>sv_netdefChanges := ndt\<rparr> in if changed \<and> isInitialized s' then Sync s' else s')"

definition Server_OnNetDefAdd :: "CNI \<Rightarrow> NetAttachDef \<Rightarrow> 'sel Server \<Rightarrow> 'sel Server" where
  "Server_OnNetDefAdd cni net = netdef_update cni None (Some net)"

definition Server_OnNetDefUpdate :: "CNI \<Rightarrow> NetAttachDef \<Rightarrow> NetAttachDef \<Rightarrow> 'sel Server \<Rightarrow> 'sel Server" where
  "Server_OnNetDefUpdate cni oldNet net = netdef_update cni (Some oldNet) (Some net)"

definition Server_OnNetDefDelete :: "CNI \<Rightarrow> NetAttachDef \<Rightarrow> 'sel Server \<Rightarrow> 'sel Server" where
  "Server_OnNetDefDelete cni net = netdef_update cni (Some net) None"

definition Server_OnNetDefSynced :: "'sel Server \<Rightarrow> 'sel Server" where
  "Server_OnNetDefSynced s =
     (let s1 = s\<lparr>sv_netdefSynced := True\<rparr> in start_pods (setInitialized (AllSynced s1) s1))"

definition ns_update :: "Namespace option \<Rightarrow> Namespace option \<Rightarrow> 'sel Server \<Rightarrow> 'sel Server" where
  "ns_update prev cur s =
     (case NamespaceChangeTracker_Update (sv_nsChanges s) prev cur of
        (changed, items) \<Rightarrow>
          let s' = s\<lparr>sv_nsChanges := items\<rparr> in if changed \<and> isInitialized s' then Sync s' else s')"

definition Server_OnNamespaceAdd :: "Namespace \<Rightarrow> 'sel Server \<Rightarrow> 'sel Server" where
  "Server_OnNamespaceAdd ns = ns_update None (Some ns)"

definition Server_OnNamespaceUpdate :: "Namespace \<Rightarrow> Namespace \<Rightarrow> 'sel Server \<Rightarrow> 'sel Server" where
  "Server_OnNamespaceUpdate oldNamespace ns = ns_update (Some oldNamespace) (Some ns)"

definition Server_OnNamespaceDelete :: "Namespace \<Rightarrow> 'sel Server \<Rightarrow> 'sel Server" where
  "Server_OnNamespaceDelete ns = ns_update (Some ns) None"

definition Server_OnNamespaceSynced :: "'sel Server \<Rightarrow> 'sel Server" where
  "Server_OnNamespaceSynced s =
     (let s1 = s\<lparr>sv_nsSynced := True\<rparr> in start_pods (setInitialized (AllSynced s1) s1))"

text \<open>The server as a handler of each controller.\<close>

definition server_pod_handler :: "Sources \<Rightarrow> 'sel Server PodHandler" where
  "server_pod_handler src =
     \<lparr>OnPodAdd = Server_OnPodAdd src, OnPodUpdate = Server_OnPodUpdate src,
      OnPodDelete = Server_OnPodDelete src, OnPodSynced = Server_OnPodSynced\<rparr>"

definition server_policy_handler :: "('sel, 'sel Server) NetworkPolicyHandler" where
  "server_policy_handler =
     \<lparr>OnPolicyAdd = Server_OnPolicyAdd, OnPolicyUpdate = Server_OnPolicyUpdate,
      OnPolicyDelete = Server_OnPolicyDelete, OnPolicySynced = Server_OnPolicySynced\<rparr>"

definition server_netdef_handler :: "CNI \<Rightarrow> 'sel Server NetDefHandler" where
  "server_netdef_handler cni =
     \<lparr>OnNetDefAdd = Server_OnNetDefAdd cni, OnNetDefUpdate = Server_OnNetDefUpdate cni,
      OnNetDefDelete = Server_OnNetDefDelete cni, OnNetDefSynced = Server_OnNetDefSynced\<rparr>"

definition server_namespace_handler :: "'sel Server NamespaceHandler" where
  "server_namespace_handler =
     \<lparr>OnNamespaceAdd = Server_OnNamespaceAdd, OnNamespaceUpdate = Server_OnNamespaceUpdate,
      OnNamespaceDelete = Server_OnNamespaceDelete, OnNamespaceSynced = Server_OnNamespaceSynced\<rparr>"

text \<open>The beginning of \<open>syncMultiPolicy\<close> (lines 506 to 508).\<close>

definition update_maps :: "'sel Server \<Rightarrow> 'sel Server" where
  "update_maps s =
     (let (nm, nc) = NamespaceMap_Update (sv_namespaceMap s) (sv_nsChanges s);
          (pm, pc) = PodMap_Update (sv_podMap s) (sv_podChanges s);
          (lm, lc) = PolicyMap_Update (sv_policyMap s) (sv_policyChanges s)
      in s\<lparr>sv_namespaceMap := nm, sv_nsChanges := nc, sv_podMap := pm, sv_podChanges := pc,
           sv_policyMap := lm, sv_policyChanges := lc\<rparr>)"

text \<open>The same for the pods alone, before each pod (line 521).\<close>

definition update_pods :: "'sel Server \<Rightarrow> 'sel Server" where
  "update_pods s =
     (let (pm, pc) = PodMap_Update (sv_podMap s) (sv_podChanges s) in s\<lparr>sv_podMap := pm, sv_podChanges := pc\<rparr>)"

section \<open>All runs\<close>

record 'sel Cluster =
  cl_pods :: "NamespacedName \<rightharpoonup> Pod"
  cl_policies :: "NamespacedName \<rightharpoonup> 'sel Policy"
  cl_netdefs :: "NamespacedName \<rightharpoonup> NetAttachDef"
  cl_namespaces :: "string \<rightharpoonup> Namespace"

definition empty_cluster :: "'sel Cluster" where
  "empty_cluster = \<lparr>cl_pods = Map.empty, cl_policies = Map.empty, cl_netdefs = Map.empty, cl_namespaces = Map.empty\<rparr>"

text \<open>An event as the controller delivers it to the registered server.\<close>

fun deliver_pod :: "Sources \<Rightarrow> Pod event \<Rightarrow> 'sel Server \<Rightarrow> 'sel Server" where
  "deliver_pod src (Added b) s = snd (handleAddPod [server_pod_handler src] (IsObj b) s)"
| "deliver_pod src (Updated a b) s = snd (handleUpdatePod [server_pod_handler src] (IsObj a) (IsObj b) s)"
| "deliver_pod src (Deleted a) s = snd (handleDeletePod [server_pod_handler src] (IsObj a) s)"

fun deliver_policy :: "'sel Policy event \<Rightarrow> 'sel Server \<Rightarrow> 'sel Server" where
  "deliver_policy (Added b) s = snd (handleAddPolicy [server_policy_handler] (IsObj b) s)"
| "deliver_policy (Updated a b) s = snd (handleUpdatePolicy [server_policy_handler] (IsObj a) (IsObj b) s)"
| "deliver_policy (Deleted a) s = snd (handleDeletePolicy [server_policy_handler] (IsObj a) s)"

fun deliver_netdef :: "CNI \<Rightarrow> NetAttachDef event \<Rightarrow> 'sel Server \<Rightarrow> 'sel Server" where
  "deliver_netdef cni (Added b) s = snd (handleAddNetDef [server_netdef_handler cni] (IsObj b) s)"
| "deliver_netdef cni (Updated a b) s =
     snd (handleUpdateNetDef [server_netdef_handler cni] (IsObj a) (IsObj b) s)"
| "deliver_netdef cni (Deleted a) s = snd (handleDeleteNetDef [server_netdef_handler cni] (IsObj a) s)"

fun deliver_namespace :: "Namespace event \<Rightarrow> 'sel Server \<Rightarrow> 'sel Server" where
  "deliver_namespace (Added b) s = snd (handleAddNamespace [server_namespace_handler] (IsObj b) s)"
| "deliver_namespace (Updated a b) s =
     snd (handleUpdateNamespace [server_namespace_handler] (IsObj a) (IsObj b) s)"
| "deliver_namespace (Deleted a) s = snd (handleDeleteNamespace [server_namespace_handler] (IsObj a) s)"

text \<open>
  The calls of the handlers: an event of one of the four informers, or an informer that has synced.
  The pod informer runs only after its channel was closed (\<open>Run\<close> waits for it, see \<open>Server_Run\<close>).
\<close>

inductive handler_step :: "Sources \<Rightarrow> 'sel Cluster \<Rightarrow> 'sel Server \<Rightarrow> 'sel Cluster \<Rightarrow> 'sel Server \<Rightarrow> bool"
  for src :: Sources where
  pod_event: "0 < sv_startPodConfig s \<Longrightarrow> legal pod_key (cl_pods cl) ev \<Longrightarrow>
    handler_step src cl s (cl\<lparr>cl_pods := after pod_key (cl_pods cl) ev\<rparr>) (deliver_pod src ev s)"
| policy_event: "legal policy_key (cl_policies cl) pev \<Longrightarrow>
    handler_step src cl s (cl\<lparr>cl_policies := after policy_key (cl_policies cl) pev\<rparr>) (deliver_policy pev s)"
| netdef_event: "legal netdef_key (cl_netdefs cl) dev \<Longrightarrow>
    handler_step src cl s (cl\<lparr>cl_netdefs := after netdef_key (cl_netdefs cl) dev\<rparr>)
      (deliver_netdef (src_cni src) dev s)"
| namespace_event: "legal ns_Name (cl_namespaces cl) nev \<Longrightarrow>
    handler_step src cl s (cl\<lparr>cl_namespaces := after ns_Name (cl_namespaces cl) nev\<rparr>) (deliver_namespace nev s)"
| pods_synced: "0 < sv_startPodConfig s \<Longrightarrow>
    handler_step src cl s cl (PodConfig_Run [server_pod_handler src] True s)"
| policies_synced: "handler_step src cl s cl (NetworkPolicyConfig_Run [server_policy_handler] True s)"
| netdefs_synced: "handler_step src cl s cl (NetDefConfig_Run [server_netdef_handler (src_cni src)] True s)"
| namespaces_synced: "handler_step src cl s cl (NamespaceConfig_Run [server_namespace_handler] True s)"

text \<open>Any number of handler calls.\<close>

inductive heard :: "Sources \<Rightarrow> 'sel Cluster \<Rightarrow> 'sel Server \<Rightarrow> 'sel Cluster \<Rightarrow> 'sel Server \<Rightarrow> bool"
  for src :: Sources where
  nothing: "heard src cl s cl s"
| more: "heard src cl s cl1 s1 \<Longrightarrow> handler_step src cl1 s1 cl2 s2 \<Longrightarrow> heard src cl s cl2 s2"

text \<open>
  All runs: handler calls, the update of the maps by the sync loop, the update of the pods before
  each pod, or a call of \<open>Sync\<close>, at any time.
\<close>

inductive server_reach :: "Sources \<Rightarrow> 'sel Cluster \<Rightarrow> 'sel Server \<Rightarrow> bool" for src :: Sources where
  boot: "server_reach src empty_cluster NewServer"
| handled: "server_reach src cl s \<Longrightarrow> handler_step src cl s cl' s' \<Longrightarrow> server_reach src cl' s'"
| synced_maps: "server_reach src cl s \<Longrightarrow> server_reach src cl (update_maps s)"
| synced_pods: "server_reach src cl s \<Longrightarrow> server_reach src cl (update_pods s)"
| asked: "server_reach src cl s \<Longrightarrow> server_reach src cl (Sync s)"

lemma heard_reach: "heard src cl s cl' s' \<Longrightarrow> server_reach src cl s \<Longrightarrow> server_reach src cl' s'"
  by (induction rule: heard.induct) (auto intro: server_reach.handled)

lemma reach_pod_event:
  "server_reach src cl s \<Longrightarrow> 0 < sv_startPodConfig s \<Longrightarrow> legal pod_key (cl_pods cl) ev \<Longrightarrow>
    server_reach src (cl\<lparr>cl_pods := after pod_key (cl_pods cl) ev\<rparr>) (deliver_pod src ev s)"
  by (erule server_reach.handled) (rule handler_step.pod_event)

lemma reach_policy_event:
  "server_reach src cl s \<Longrightarrow> legal policy_key (cl_policies cl) pev \<Longrightarrow>
    server_reach src (cl\<lparr>cl_policies := after policy_key (cl_policies cl) pev\<rparr>) (deliver_policy pev s)"
  by (erule server_reach.handled) (rule handler_step.policy_event)

lemma reach_netdef_event:
  "server_reach src cl s \<Longrightarrow> legal netdef_key (cl_netdefs cl) dev \<Longrightarrow>
    server_reach src (cl\<lparr>cl_netdefs := after netdef_key (cl_netdefs cl) dev\<rparr>) (deliver_netdef (src_cni src) dev s)"
  by (erule server_reach.handled) (rule handler_step.netdef_event)

lemma reach_namespace_event:
  "server_reach src cl s \<Longrightarrow> legal ns_Name (cl_namespaces cl) nev \<Longrightarrow>
    server_reach src (cl\<lparr>cl_namespaces := after ns_Name (cl_namespaces cl) nev\<rparr>) (deliver_namespace nev s)"
  by (erule server_reach.handled) (rule handler_step.namespace_event)

lemma reach_pods_synced:
  "server_reach src cl s \<Longrightarrow> 0 < sv_startPodConfig s \<Longrightarrow>
    server_reach src cl (PodConfig_Run [server_pod_handler src] True s)"
  by (erule server_reach.handled) (rule handler_step.pods_synced)

lemma reach_policies_synced:
  "server_reach src cl s \<Longrightarrow>
    server_reach src cl (NetworkPolicyConfig_Run [server_policy_handler] True s)"
  by (erule server_reach.handled) (rule handler_step.policies_synced)

lemma reach_netdefs_synced:
  "server_reach src cl s \<Longrightarrow>
    server_reach src cl (NetDefConfig_Run [server_netdef_handler (src_cni src)] True s)"
  by (erule server_reach.handled) (rule handler_step.netdefs_synced)

lemma reach_namespaces_synced:
  "server_reach src cl s \<Longrightarrow>
    server_reach src cl (NamespaceConfig_Run [server_namespace_handler] True s)"
  by (erule server_reach.handled) (rule handler_step.namespaces_synced)

named_theorems dispatch_simps \<open>what a delivered event and a synced informer do to the server\<close>

lemma deliver_pod_eq [dispatch_simps]: "deliver_pod src ev s = pod_update src (event_prev ev) (event_cur ev) s"
  by (cases ev) (simp_all add: handleAddPod_def handleUpdatePod_def handleDeletePod_def controller_add_def
      controller_update_def controller_delete_def server_pod_handler_def Server_OnPodAdd_def
      Server_OnPodUpdate_def Server_OnPodDelete_def)

lemma deliver_policy_eq [dispatch_simps]: "deliver_policy ev s = policy_update (event_prev ev) (event_cur ev) s"
  by (cases ev) (simp_all add: handleAddPolicy_def handleUpdatePolicy_def handleDeletePolicy_def
      controller_add_def controller_update_def controller_delete_def server_policy_handler_def
      Server_OnPolicyAdd_def Server_OnPolicyUpdate_def Server_OnPolicyDelete_def)

lemma deliver_netdef_eq [dispatch_simps]:
  "deliver_netdef cni ev s = netdef_update cni (event_prev ev) (event_cur ev) s"
  by (cases ev) (simp_all add: handleAddNetDef_def handleUpdateNetDef_def handleDeleteNetDef_def
      controller_add_def controller_update_def controller_delete_def server_netdef_handler_def
      Server_OnNetDefAdd_def Server_OnNetDefUpdate_def Server_OnNetDefDelete_def)

lemma deliver_namespace_eq [dispatch_simps]:
  "deliver_namespace ev s = ns_update (event_prev ev) (event_cur ev) s"
  by (cases ev) (simp_all add: handleAddNamespace_def handleUpdateNamespace_def handleDeleteNamespace_def
      controller_add_def controller_update_def controller_delete_def server_namespace_handler_def
      Server_OnNamespaceAdd_def Server_OnNamespaceUpdate_def Server_OnNamespaceDelete_def)

lemma run_synced [dispatch_simps]:
  "PodConfig_Run [server_pod_handler src] True s = Server_OnPodSynced s"
  "NetworkPolicyConfig_Run [server_policy_handler] True s = Server_OnPolicySynced s"
  "NetDefConfig_Run [server_netdef_handler cni] True s = Server_OnNetDefSynced s"
  "NamespaceConfig_Run [server_namespace_handler] True s = Server_OnNamespaceSynced s"
  by (simp_all add: PodConfig_Run_def NetworkPolicyConfig_Run_def NetDefConfig_Run_def
      NamespaceConfig_Run_def controller_run_def server_pod_handler_def server_policy_handler_def
      server_netdef_handler_def server_namespace_handler_def)

section \<open>The flags\<close>

definition flags_inv :: "'sel Server \<Rightarrow> bool" where
  "flags_inv s \<longleftrightarrow>
     sv_initialized s = (if AllSynced s then 1 else 0) \<and>
     sv_startPodConfig s = (if sv_startPodConfigClosed s then 1 else 0) \<and>
     (sv_startPodConfigClosed s \<longleftrightarrow> AllExceptPodsSynced s) \<and>
     (sv_podSynced s \<longrightarrow> AllExceptPodsSynced s)"

text \<open>The fields the flags consist of.\<close>

definition flag_fields :: "'sel Server \<Rightarrow> _" where
  "flag_fields s = (sv_podSynced s, sv_policySynced s, sv_netdefSynced s, sv_nsSynced s, sv_initialized s,
     sv_startPodConfig s, sv_startPodConfigClosed s)"

lemma flags_inv_cong: "flag_fields s = flag_fields s' \<Longrightarrow> flags_inv s \<longleftrightarrow> flags_inv s'"
  by (simp add: flag_fields_def flags_inv_def AllSynced_def AllExceptPodsSynced_def)

lemma updates_keep_flags [simp]:
  "flag_fields (pod_update src prev cur s) = flag_fields s"
  "flag_fields (policy_update pprev pcur s) = flag_fields s"
  "flag_fields (netdef_update cni dprev dcur s) = flag_fields s"
  "flag_fields (ns_update nprev ncur s) = flag_fields s"
  "flag_fields (update_maps s) = flag_fields s"
  "flag_fields (Sync s) = flag_fields s"
  "flag_fields (update_pods s) = flag_fields s"
  by (auto simp: flag_fields_def pod_update_def policy_update_def netdef_update_def ns_update_def
      update_maps_def update_pods_def Sync_def Let_def case_prod_unfold)

lemma updates_keep_flags_inv [simp]:
  "flags_inv (pod_update src prev cur s) = flags_inv s"
  "flags_inv (policy_update pprev pcur s) = flags_inv s"
  "flags_inv (netdef_update cni dprev dcur s) = flags_inv s"
  "flags_inv (ns_update nprev ncur s) = flags_inv s"
  "flags_inv (update_maps s) = flags_inv s"
  "flags_inv (Sync s) = flags_inv s"
  "flags_inv (update_pods s) = flags_inv s"
  by (rule flags_inv_cong, simp)+

lemmas flag_defs = flags_inv_def Server_OnPodSynced_def Server_OnPolicySynced_def
  Server_OnNetDefSynced_def Server_OnNamespaceSynced_def start_pods_def setInitialized_def
  AllSynced_def AllExceptPodsSynced_def

lemma synced_flags:
  "flags_inv s \<Longrightarrow> 0 < sv_startPodConfig s \<Longrightarrow> flags_inv (Server_OnPodSynced s)"
  "flags_inv s \<Longrightarrow> flags_inv (Server_OnPolicySynced s)"
  "flags_inv s \<Longrightarrow> flags_inv (Server_OnNetDefSynced s)"
  "flags_inv s \<Longrightarrow> flags_inv (Server_OnNamespaceSynced s)"
  by (cases "sv_policySynced s"; cases "sv_netdefSynced s"; cases "sv_nsSynced s"; cases "sv_podSynced s";
      simp add: flag_defs split: if_splits)+

lemma handler_keeps_flags: "handler_step src cl s cl' s' \<Longrightarrow> flags_inv s \<Longrightarrow> flags_inv s'"
  by (induction rule: handler_step.induct) (simp_all add: dispatch_simps synced_flags)

lemma flags_reach: "server_reach src cl s \<Longrightarrow> flags_inv s"
proof (induction rule: server_reach.induct)
  case boot
  then show ?case
    by (simp add: flags_inv_def NewServer_def AllSynced_def AllExceptPodsSynced_def)
qed (simp_all add: handler_keeps_flags)

text \<open>
  C9. The start-up protocol, for every order in which the informers report and sync: the server
  is initialized exactly when all four informers have synced, the pod informer is started
  exactly when the other three have, its channel is never closed twice (which would panic), and
  pods are only reported as synced after the networks they refer to.
\<close>

theorem startup_protocol:
  assumes "server_reach src cl s"
  shows "(isInitialized s \<longleftrightarrow> sv_podSynced s \<and> sv_policySynced s \<and> sv_netdefSynced s \<and> sv_nsSynced s) \<and>
    sv_startPodConfig s \<le> 1 \<and>
    (0 < sv_startPodConfig s \<longleftrightarrow> sv_policySynced s \<and> sv_netdefSynced s \<and> sv_nsSynced s) \<and>
    (sv_podSynced s \<longrightarrow> isInitialized s)"
  using flags_reach [OF assms]
  by (cases "sv_policySynced s"; cases "sv_netdefSynced s"; cases "sv_nsSynced s"; cases "sv_podSynced s";
      simp add: flags_inv_def isInitialized_def AllSynced_def AllExceptPodsSynced_def)

lemma sync_counts:
  "sv_syncRequests (pod_update src prev cur s) = sv_syncRequests s +
     (if fst (PodChangeTracker_Update (src_ann src) (src_plugins src) (sv_podChanges s) (sv_netdefChanges s)
        prev cur) \<and> sv_podSynced s then 1 else 0)"
  "sv_syncRequests (policy_update pprev pcur s) = sv_syncRequests s +
     (if fst (PolicyChangeTracker_Update (sv_policyChanges s) pprev pcur) \<and> isInitialized s then 1 else 0)"
  "sv_syncRequests (netdef_update cni dprev dcur s) = sv_syncRequests s +
     (if fst (NetDefChangeTracker_Update cni (sv_netdefChanges s) dprev dcur) \<and> isInitialized s then 1 else 0)"
  "sv_syncRequests (ns_update nprev ncur s) = sv_syncRequests s +
     (if fst (NamespaceChangeTracker_Update (sv_nsChanges s) nprev ncur) \<and> isInitialized s then 1 else 0)"
  by (simp_all add: pod_update_def policy_update_def netdef_update_def ns_update_def Sync_def
      isInitialized_def Let_def case_prod_unfold)

lemma tracker_reports [simp]: "fst (tracker_update key to_map items (event_prev e) (event_cur e))"
  by (cases e) (simp_all add: tracker_update_def subject_def Let_def)

lemma pod_tracker_reports [simp]:
  "fst (PodChangeTracker_Update ann plugins items ndt (event_prev e) (event_cur e))"
  by (cases e) (simp_all add: PodChangeTracker_Update_def subject_def Let_def case_prod_unfold)

text \<open>
  C35. A synchronisation is requested for every informer event once the server is initialized,
  and for none before.
\<close>

theorem sync_requests:
  assumes "server_reach src cl s"
    and "s' \<in> {deliver_pod src ev s, deliver_policy pev s, deliver_netdef (src_cni src) dev s,
      deliver_namespace nev s}"
  shows "sv_syncRequests s' = sv_syncRequests s + (if isInitialized s then 1 else 0)"
proof -
  have "sv_podSynced s \<longleftrightarrow> isInitialized s"
    using flags_reach [OF assms(1)] by (auto simp: flags_inv_def isInitialized_def AllSynced_def AllExceptPodsSynced_def)
  then show ?thesis
    using assms(2)
    by (auto simp: dispatch_simps sync_counts PolicyChangeTracker_Update_def NetDefChangeTracker_Update_def
        NamespaceChangeTracker_Update_def case_prod_unfold)
qed

section \<open>The maps\<close>

definition follows :: "Sources \<Rightarrow> 'sel Cluster \<Rightarrow> 'sel Server \<Rightarrow> bool" where
  "follows src cl s \<longleftrightarrow>
     namespaces_reach (cl_namespaces cl) (sv_nsChanges s) (sv_namespaceMap s) \<and>
     policies_reach (cl_policies cl) (sv_policyChanges s) (sv_policyMap s) \<and>
     netdefs_reach (src_cni src) (cl_netdefs cl) (sv_netdefChanges s) \<and>
     pods_follow (src_ann src) (cl_pods cl) (sv_podChanges s) (sv_podMap s)"

text \<open>The fields the maps and trackers consist of.\<close>

definition map_fields :: "'sel Server \<Rightarrow> _" where
  "map_fields s = (sv_podChanges s, sv_policyChanges s, sv_netdefChanges s, sv_nsChanges s,
     sv_podMap s, sv_policyMap s, sv_namespaceMap s)"

lemma follows_cong: "map_fields s = map_fields s' \<Longrightarrow> follows src cl s \<longleftrightarrow> follows src cl s'"
  by (simp add: map_fields_def follows_def)

lemma synced_keeps_maps:
  "map_fields (Server_OnPodSynced s) = map_fields s"
  "map_fields (Server_OnPolicySynced s) = map_fields s"
  "map_fields (Server_OnNetDefSynced s) = map_fields s"
  "map_fields (Server_OnNamespaceSynced s) = map_fields s"
  "map_fields (Sync s) = map_fields s"
  by (simp_all add: Sync_def map_fields_def Server_OnPodSynced_def Server_OnPolicySynced_def
      Server_OnNetDefSynced_def Server_OnNamespaceSynced_def start_pods_def setInitialized_def Let_def)

lemma synced_follows [simp]:
  "follows src cl (Server_OnPodSynced s) = follows src cl s"
  "follows src cl (Server_OnPolicySynced s) = follows src cl s"
  "follows src cl (Server_OnNetDefSynced s) = follows src cl s"
  "follows src cl (Server_OnNamespaceSynced s) = follows src cl s"
  "follows src cl (Sync s) = follows src cl s"
  by (rule follows_cong, rule synced_keeps_maps)+

lemma pod_update_fields:
  "map_fields (pod_update src prev cur s) =
     (case PodChangeTracker_Update (src_ann src) (src_plugins src) (sv_podChanges s) (sv_netdefChanges s) prev cur of
       (_, items, ndt) \<Rightarrow> (items, sv_policyChanges s, ndt, sv_nsChanges s, sv_podMap s, sv_policyMap s,
         sv_namespaceMap s))"
  by (simp add: map_fields_def pod_update_def Sync_def Let_def case_prod_unfold)

lemma follows_pod:
  assumes "follows src cl s" and "legal pod_key (cl_pods cl) ev"
  shows "follows src (cl\<lparr>cl_pods := after pod_key (cl_pods cl) ev\<rparr>)
    (pod_update src (event_prev ev) (event_cur ev) s)"
proof -
  obtain changed items ndt where run: "PodChangeTracker_Update (src_ann src) (src_plugins src)
      (sv_podChanges s) (sv_netdefChanges s) (event_prev ev) (event_cur ev) = (changed, items, ndt)"
    by (metis prod.exhaust)
  have "pods_follow (src_ann src) (cl_pods cl) (sv_podChanges s) (sv_podMap s)"
    and net: "netdefs_reach (src_cni src) (cl_netdefs cl) (sv_netdefChanges s)"
    using assms(1) by (simp_all add: follows_def)
  from pods_follow_event [OF this(1) assms(2) run]
  have "pods_follow (src_ann src) (after pod_key (cl_pods cl) ev) items (sv_podMap s)"
    and "ndt = sv_netdefChanges s \<or> ndt = NetDefMap_Update (sv_netdefChanges s)" by simp_all
  moreover from this(2) have "netdefs_reach (src_cni src) (cl_netdefs cl) ndt"
    using net netdefs_reach_flush [OF net] by auto
  ultimately have "follows src (cl\<lparr>cl_pods := after pod_key (cl_pods cl) ev\<rparr>)
      (s\<lparr>sv_podChanges := items, sv_netdefChanges := ndt\<rparr>)"
    using assms(1) by (simp add: follows_def)
  moreover have "map_fields (pod_update src (event_prev ev) (event_cur ev) s) =
      map_fields (s\<lparr>sv_podChanges := items, sv_netdefChanges := ndt\<rparr>)"
    by (simp add: pod_update_fields run) (simp add: map_fields_def)
  ultimately show ?thesis using follows_cong by blast
qed

lemma follows_policy:
  assumes "follows src cl s" and "legal policy_key (cl_policies cl) ev"
  shows "follows src (cl\<lparr>cl_policies := after policy_key (cl_policies cl) ev\<rparr>)
    (policy_update (event_prev ev) (event_cur ev) s)"
  using assms tracker_reach.informed [of policy_key policyToPolicyMap]
  by (auto simp: follows_def policy_update_def policies_reach_def PolicyChangeTracker_Update_def Sync_def
      Let_def case_prod_unfold)

lemma follows_netdef:
  assumes "follows src cl s" and "legal netdef_key (cl_netdefs cl) ev"
  shows "follows src (cl\<lparr>cl_netdefs := after netdef_key (cl_netdefs cl) ev\<rparr>)
    (netdef_update (src_cni src) (event_prev ev) (event_cur ev) s)"
  using assms tracker_reach.informed [of netdef_key "netDefToNetDefMap (src_cni src)"]
  by (auto simp: follows_def netdef_update_def netdefs_reach_def NetDefChangeTracker_Update_def Sync_def
      Let_def case_prod_unfold)

lemma follows_namespace:
  assumes "follows src cl s" and "legal ns_Name (cl_namespaces cl) ev"
  shows "follows src (cl\<lparr>cl_namespaces := after ns_Name (cl_namespaces cl) ev\<rparr>)
    (ns_update (event_prev ev) (event_cur ev) s)"
  using assms tracker_reach.informed [of ns_Name nsToNamespaceMap]
  by (auto simp: follows_def ns_update_def namespaces_reach_def NamespaceChangeTracker_Update_def Sync_def
      Let_def case_prod_unfold)

lemma update_maps_fields:
  "sv_namespaceMap (update_maps s) = fst (tracker_apply (sv_namespaceMap s) (sv_nsChanges s))"
  "sv_policyMap (update_maps s) = fst (tracker_apply (sv_policyMap s) (sv_policyChanges s))"
  "sv_podMap (update_maps s) = fst (tracker_apply (sv_podMap s) (sv_podChanges s))"
  "sv_podChanges (update_maps s) = []" "sv_policyChanges (update_maps s) = []" "sv_nsChanges (update_maps s) = []"
  by (simp_all add: update_maps_def NamespaceMap_Update_def PodMap_Update_def PolicyMap_Update_def Let_def
      case_prod_unfold)

lemma follows_update_maps:
  assumes "follows src cl s"
  shows "follows src cl (update_maps s)"
proof -
  note f = assms [unfolded follows_def]
  have "namespaces_reach (cl_namespaces cl) [] (fst (tracker_apply (sv_namespaceMap s) (sv_nsChanges s)))"
    using tracker_reach.applied [of ns_Name nsToNamespaceMap "cl_namespaces cl"] f
    by (simp add: namespaces_reach_def)
  moreover have "policies_reach (cl_policies cl) [] (fst (tracker_apply (sv_policyMap s) (sv_policyChanges s)))"
    using tracker_reach.applied [of policy_key policyToPolicyMap "cl_policies cl"] f
    by (simp add: policies_reach_def)
  moreover have "pods_follow (src_ann src) (cl_pods cl) [] (fst (tracker_apply (sv_podMap s) (sv_podChanges s)))"
    using pods_follow_apply(1) f by blast
  moreover have "sv_netdefChanges (update_maps s) = sv_netdefChanges s"
    by (simp add: update_maps_def Let_def case_prod_unfold)
  ultimately show ?thesis
    using f by (simp add: follows_def update_maps_fields)
qed

lemma update_pods_fields:
  "sv_podMap (update_pods s) = fst (tracker_apply (sv_podMap s) (sv_podChanges s))" "sv_podChanges (update_pods s) = []"
  "sv_policyMap (update_pods s) = sv_policyMap s" "sv_namespaceMap (update_pods s) = sv_namespaceMap s"
  "sv_policyChanges (update_pods s) = sv_policyChanges s" "sv_nsChanges (update_pods s) = sv_nsChanges s"
  "sv_netdefChanges (update_pods s) = sv_netdefChanges s"
  by (simp_all add: update_pods_def PodMap_Update_def Let_def case_prod_unfold)

lemma update_pods_idle: "sv_podChanges s = [] \<Longrightarrow> update_pods s = s"
  by (simp add: update_pods_def PodMap_Update_def tracker_apply_def)

lemma follows_update_pods: "follows src cl s \<Longrightarrow> follows src cl (update_pods s)"
  using pods_follow_apply(1) by (auto simp: follows_def update_pods_fields)

lemma handler_follows: "handler_step src cl s cl' s' \<Longrightarrow> follows src cl s \<Longrightarrow> follows src cl' s'"
  by (induction rule: handler_step.induct)
    (simp_all add: dispatch_simps follows_pod follows_policy follows_netdef follows_namespace)

lemma handler_keeps_maps:
  "handler_step src cl s cl' s' \<Longrightarrow> sv_podMap s' = sv_podMap s \<and> sv_policyMap s' = sv_policyMap s \<and>
    sv_namespaceMap s' = sv_namespaceMap s"
proof (induction rule: handler_step.induct)
  case (pod_event s cl ev)
  then show ?case by (simp add: dispatch_simps pod_update_def Sync_def Let_def case_prod_unfold)
qed (use synced_keeps_maps in \<open>auto simp: dispatch_simps policy_update_def netdef_update_def ns_update_def
    Sync_def Let_def case_prod_unfold map_fields_def\<close>)

lemma heard_keeps_maps:
  "heard src cl s cl' s' \<Longrightarrow> sv_podMap s' = sv_podMap s \<and> sv_policyMap s' = sv_policyMap s \<and>
    sv_namespaceMap s' = sv_namespaceMap s"
  by (induction rule: heard.induct) (simp_all add: handler_keeps_maps)

lemma follows_reach: "server_reach src cl s \<Longrightarrow> follows src cl s"
proof (induction rule: server_reach.induct)
  case boot
  then show ?case
    by (simp add: follows_def empty_cluster_def NewServer_def namespaces_reach_def policies_reach_def
        netdefs_reach_def pods_follow_def NewPodChangeTracker_def NewPolicyChangeTracker_def
        NewNetDefChangeTracker_def NewNamespaceChangeTracker_def tracker_reach.start tracker_inv_def view_def)
qed (simp_all add: handler_follows follows_update_maps follows_update_pods)

section \<open>Where the interfaces come from\<close>

text \<open>The later states of a run.\<close>

inductive later :: "Sources \<Rightarrow> 'sel Cluster \<Rightarrow> 'sel Server \<Rightarrow> 'sel Cluster \<Rightarrow> 'sel Server \<Rightarrow> bool"
  for src :: Sources where
  now: "later src cl s cl s"
| later_handled: "later src cl0 s0 cl s \<Longrightarrow> handler_step src cl s cl' s' \<Longrightarrow> later src cl0 s0 cl' s'"
| later_maps: "later src cl0 s0 cl s \<Longrightarrow> later src cl0 s0 cl (update_maps s)"
| later_pods: "later src cl0 s0 cl s \<Longrightarrow> later src cl0 s0 cl (update_pods s)"
| later_asked: "later src cl0 s0 cl s \<Longrightarrow> later src cl0 s0 cl (Sync s)"

text \<open>
  A stored information about a pod was computed at some moment of the run, for the pod of that
  name the cluster had then, with the definitions the server knew then.
\<close>

definition computed_before :: "Sources \<Rightarrow> 'sel Cluster \<Rightarrow> 'sel Server \<Rightarrow> NamespacedName \<Rightarrow> PodInfo \<Rightarrow> bool" where
  "computed_before src cl s k i \<longleftrightarrow>
     (\<exists>cl0 s0 pod. server_reach src cl0 s0 \<and> later src cl0 s0 cl s \<and> cl_pods cl0 k = Some pod \<and>
        i = fst (newPodInfo (src_ann src) (src_plugins src) (sv_netdefChanges s0) pod))"

lemma computed_later:
  "computed_before src cl s k i \<Longrightarrow> handler_step src cl s cl' s' \<Longrightarrow> computed_before src cl' s' k i"
  "computed_before src cl s k i \<Longrightarrow> computed_before src cl (update_maps s) k i"
  "computed_before src cl s k i \<Longrightarrow> computed_before src cl (update_pods s) k i"
  "computed_before src cl s k i \<Longrightarrow> computed_before src cl (Sync s) k i"
  unfolding computed_before_def by (blast intro: later.intros)+

lemma computed_now:
  "server_reach src cl s \<Longrightarrow> cl_pods cl k = Some pod \<Longrightarrow>
    computed_before src cl s k (fst (newPodInfo (src_ann src) (src_plugins src) (sv_netdefChanges s) pod))"
  unfolding computed_before_def by (blast intro: later.now)

definition infos_computed :: "Sources \<Rightarrow> 'sel Cluster \<Rightarrow> 'sel Server \<Rightarrow> bool" where
  "infos_computed src cl s \<longleftrightarrow> all_entries (computed_before src cl s) (sv_podChanges s) (sv_podMap s)"

lemma infos_pod:
  assumes "server_reach src cl s" and "infos_computed src cl s"
    and "0 < sv_startPodConfig s" and "legal pod_key (cl_pods cl) ev"
  shows "infos_computed src (cl\<lparr>cl_pods := after pod_key (cl_pods cl) ev\<rparr>) (deliver_pod src ev s)"
proof -
  let ?cl = "cl\<lparr>cl_pods := after pod_key (cl_pods cl) ev\<rparr>" and ?s = "deliver_pod src ev s"
  note step = handler_step.pod_event [OF assms(3,4)]
  obtain changed items ndt where run: "PodChangeTracker_Update (src_ann src) (src_plugins src)
      (sv_podChanges s) (sv_netdefChanges s) (event_prev ev) (event_cur ev) = (changed, items, ndt)"
    by (metis prod.exhaust)
  have "pods_follow (src_ann src) (cl_pods cl) (sv_podChanges s) (sv_podMap s)"
    using follows_reach [OF assms(1)] by (simp add: follows_def)
  from pods_follow_event [OF this assms(4) run]
  have ndt: "ndt = sv_netdefChanges s \<or> ndt = NetDefMap_Update (sv_netdefChanges s)" by simp
  have after: "sv_podChanges ?s = items" "sv_podMap ?s = sv_podMap s" "sv_netdefChanges ?s = ndt"
    by (simp_all add: deliver_pod_eq pod_update_def run Sync_def Let_def)
  have same: "fst (newPodInfo (src_ann src) (src_plugins src) ndt pod) =
      fst (newPodInfo (src_ann src) (src_plugins src) (sv_netdefChanges s) pod)" for pod
    using ndt by auto
  have "computed_before src ?cl ?s (pod_key pod)
      (fst (newPodInfo (src_ann src) (src_plugins src) (sv_netdefChanges s) pod))"
    if "event_prev ev = Some pod \<or> event_cur ev = Some pod" for pod
    using that
  proof
    assume "event_prev ev = Some pod"
    then have "cl_pods cl (pod_key pod) = Some pod" using assms(4) by (cases ev) auto
    from computed_later(1) [OF computed_now [OF assms(1) this] step] show ?thesis .
  next
    assume "event_cur ev = Some pod"
    then have "cl_pods ?cl (pod_key pod) = Some pod" by (cases ev) auto
    from computed_now [OF server_reach.handled [OF assms(1) step] this] show ?thesis
      unfolding after same .
  qed
  moreover have "all_entries (computed_before src ?cl ?s) (sv_podChanges s) (sv_podMap s)"
    using assms(2) computed_later(1) [OF _ step] unfolding infos_computed_def by (rule all_entries_mono)
  ultimately show ?thesis
    using all_entries_pod_update [of "computed_before src ?cl ?s" "sv_podChanges s" "sv_podMap s" "event_prev ev"
        "event_cur ev" "src_ann src" "src_plugins src" "sv_netdefChanges s"]
    by (simp add: infos_computed_def after(1,2) run)
qed

lemma handler_infos:
  assumes "handler_step src cl s cl' s'" and "server_reach src cl s" and "infos_computed src cl s"
  shows "infos_computed src cl' s'"
proof -
  have keep: "infos_computed src cl' s'" if "sv_podChanges s' = sv_podChanges s" "sv_podMap s' = sv_podMap s"
    unfolding infos_computed_def that
    by (rule all_entries_mono [OF assms(3) [unfolded infos_computed_def] computed_later(1) [OF _ assms(1)]])
  note quiet = synced_keeps_maps [of s, unfolded map_fields_def]
  show ?thesis
    using assms(1)
  proof cases
    case (pod_event ev)
    then show ?thesis using infos_pod [OF assms(2,3)] by simp
  qed (rule keep; use quiet in \<open>simp add: dispatch_simps policy_update_def netdef_update_def ns_update_def Sync_def
      Let_def case_prod_unfold\<close>)+
qed

lemma infos_reach: "server_reach src cl s \<Longrightarrow> infos_computed src cl s"
proof (induction rule: server_reach.induct)
  case boot
  then show ?case by (simp add: infos_computed_def all_entries_def NewServer_def NewPodChangeTracker_def)
next
  case (handled cl s cl' s')
  then show ?case using handler_infos by blast
next
  case (synced_maps cl s)
  have "all_entries (computed_before src cl (update_maps s)) (sv_podChanges s) (sv_podMap s)"
    by (rule all_entries_mono [OF synced_maps(2) [unfolded infos_computed_def] computed_later(2)])
  from all_entries_apply [OF this] show ?case unfolding infos_computed_def update_maps_fields .
next
  case (synced_pods cl s)
  have "all_entries (computed_before src cl (update_pods s)) (sv_podChanges s) (sv_podMap s)"
    by (rule all_entries_mono [OF synced_pods(2) [unfolded infos_computed_def] computed_later(3)])
  from all_entries_apply [OF this] show ?case unfolding infos_computed_def update_pods_fields .
next
  case (asked cl s)
  have "all_entries (computed_before src cl (Sync s)) (sv_podChanges s) (sv_podMap s)"
    by (rule all_entries_mono [OF asked(2) [unfolded infos_computed_def] computed_later(4)])
  then show ?case unfolding infos_computed_def by (simp add: Sync_def)
qed

lemma stored_info:
  assumes "server_reach src cl s" and "map_of (sv_podMap s) k = Some i"
  shows "computed_before src cl s k i"
  using infos_reach [OF assms(1)] map_of_SomeD [OF assms(2)] by (auto simp: infos_computed_def all_entries_def)


section \<open>Examples\<close>

definition ex_src :: Sources where
  "ex_src = \<lparr>src_ann = ex_ann, src_cni = ex_cni, src_plugins = ex_plugins\<rparr>"

definition ex_cluster :: "'sel Cluster" where
  "ex_cluster = empty_cluster"

definition ex_started :: "'sel Server" where
  "ex_started = Server_OnNetDefSynced (Server_OnPolicySynced (Server_OnNamespaceSynced NewServer))"

definition ex_ready :: "'sel Server" where
  "ex_ready = Server_OnPodSynced ex_started"

lemma ex_ready_reach: "server_reach ex_src ex_cluster (ex_ready :: 'sel Server)"
proof -
  have "server_reach ex_src ex_cluster (ex_started :: 'sel Server)"
    using reach_netdefs_synced [OF reach_policies_synced [OF
        reach_namespaces_synced [OF server_reach.boot]], of ex_src]
    by (simp add: dispatch_simps ex_started_def ex_cluster_def)
  moreover have "0 < sv_startPodConfig (ex_started :: 'sel Server)" by code_simp
  ultimately show ?thesis
    using reach_pods_synced [of ex_src ex_cluster "ex_started :: 'sel Server"]
    by (simp add: dispatch_simps ex_ready_def)
qed

theorem startup_protocol_witness:
  "isInitialized (ex_ready :: unit Server) \<and> 0 < sv_startPodConfig (ex_ready :: unit Server) \<and>
   sv_startPodConfig (ex_ready :: unit Server) \<le> 1"
proof -
  have "sv_podSynced (ex_ready :: unit Server)" by code_simp
  then show ?thesis using startup_protocol [OF ex_ready_reach] by blast
qed

theorem sync_requests_witness:
  "sv_syncRequests (deliver_namespace (Added (ex_ns 0)) (ex_ready :: unit Server)) = 1"
proof -
  have "sv_syncRequests (ex_ready :: unit Server) = 0" and "isInitialized (ex_ready :: unit Server)" by code_simp+
  then show ?thesis
    using sync_requests [OF ex_ready_reach, where s' = "deliver_namespace (Added (ex_ns 0)) (ex_ready :: unit Server)"
        and nev = "Added (ex_ns 0)"] by (simp del: deliver_namespace.simps)
qed


end
