(* ===== verification/Tc_Types.thy ===== *)
theory Tc_Types
  imports Policy_Rules
begin

text \<open>
  Model of \<open>pkg/tc/types\<close>: actions, chains, qdiscs and flower filters with their builders, the
  command line arguments each of them prints and their \<open>Equals\<close> methods. The Go interfaces
  \<open>Action\<close>, \<open>Chain\<close>, \<open>QDisc\<close> and \<open>Filter\<close> have one implementation each in the repository
  (\<open>GenericAction\<close>, \<open>ChainImpl\<close>, \<open>GenericQDisc\<close>, \<open>FlowerFilter\<close>), so the type assertions of
  \<open>Equals\<close> always succeed here. A builder is a value that each \<open>With...\<close> method returns changed.
\<close>

section \<open>Constants\<close>

type_synonym FilterProtocol = string
type_synonym FilterKind = string
type_synonym FlowerIPProto = string
type_synonym FlowerVlanEthType = string
type_synonym ActionGenericType = string
type_synonym QDiscType = string

definition FilterProtocolAll :: FilterProtocol where
  [go_consts]: "FilterProtocolAll = ''all''"

definition FilterProtocolIPv4 :: FilterProtocol where
  [go_consts]: "FilterProtocolIPv4 = ''ip''"

definition FilterProtocolIPv6 :: FilterProtocol where
  [go_consts]: "FilterProtocolIPv6 = ''ipv6''"

definition FilterProtocol8021Q :: FilterProtocol where
  [go_consts]: "FilterProtocol8021Q = ''802.1q''"

definition FilterKindFlower :: FilterKind where
  [go_consts]: "FilterKindFlower = ''flower''"

definition FlowerKeyIPProto :: string where
  [go_consts]: "FlowerKeyIPProto = ''ip_proto''"

definition FlowerKeyDstIP :: string where
  [go_consts]: "FlowerKeyDstIP = ''dst_ip''"

definition FlowerKeyDstPort :: string where
  [go_consts]: "FlowerKeyDstPort = ''dst_port''"

definition FlowerKeyVlanEthType :: string where
  [go_consts]: "FlowerKeyVlanEthType = ''vlan_ethtype''"

definition FlowerIPProtoTCP :: FlowerIPProto where
  [go_consts]: "FlowerIPProtoTCP = ''tcp''"

definition FlowerIPProtoUDP :: FlowerIPProto where
  [go_consts]: "FlowerIPProtoUDP = ''udp''"

definition FlowerVlanEthTypeIPv4 :: FlowerVlanEthType where
  [go_consts]: "FlowerVlanEthTypeIPv4 = ''ip''"

definition FlowerVlanEthTypeIPv6 :: FlowerVlanEthType where
  [go_consts]: "FlowerVlanEthTypeIPv6 = ''ipv6''"

definition ActionTypeGeneric :: string where
  [go_consts]: "ActionTypeGeneric = ''gact''"

definition ActionGenericPass :: ActionGenericType where
  [go_consts]: "ActionGenericPass = ''pass''"

definition ActionGenericDrop :: ActionGenericType where
  [go_consts]: "ActionGenericDrop = ''drop''"

definition QDiscIngressType :: QDiscType where
  [go_consts]: "QDiscIngressType = ''ingress''"

definition ChainDefaultParent :: u32 where
  [go_consts]: "ChainDefaultParent = 0xfffffff1"

definition ChainDefaultChain :: u32 where
  [go_consts]: "ChainDefaultChain = 0"

lemma tc_consts_distinct [simp]:
  "FilterProtocolIPv4 \<noteq> FilterProtocolIPv6" "FilterProtocolIPv6 \<noteq> FilterProtocolIPv4"
  "FilterProtocolIPv4 \<noteq> FilterProtocol8021Q" "FilterProtocol8021Q \<noteq> FilterProtocolIPv4"
  "FilterProtocolIPv6 \<noteq> FilterProtocol8021Q" "FilterProtocol8021Q \<noteq> FilterProtocolIPv6"
  "FilterProtocolAll \<noteq> FilterProtocolIPv4" "FilterProtocolAll \<noteq> FilterProtocolIPv6"
  "FilterProtocolAll \<noteq> FilterProtocol8021Q" "FilterProtocol8021Q \<noteq> FilterProtocolAll"
  "FlowerVlanEthTypeIPv4 \<noteq> FlowerVlanEthTypeIPv6" "FlowerVlanEthTypeIPv6 \<noteq> FlowerVlanEthTypeIPv4"
  "FlowerIPProtoTCP \<noteq> FlowerIPProtoUDP" "FlowerIPProtoUDP \<noteq> FlowerIPProtoTCP"
  "ActionGenericPass \<noteq> ActionGenericDrop" "ActionGenericDrop \<noteq> ActionGenericPass"
  by (simp_all add: go_consts)

section \<open>Helpers (utils.go)\<close>

text \<open>
  \<open>compare\<close> on two pointers and a default. Two equal pointers point to equal values, so the
  pointer test of the code decides two nils and is implied by the value test otherwise.
\<close>

definition compare :: "'a option \<Rightarrow> 'a option \<Rightarrow> 'a option \<Rightarrow> bool" where
  "compare first second nilVal =
     (case (first, second) of
        (None, None) \<Rightarrow> True
      | (Some a, Some b) \<Rightarrow> a = b
      | (Some a, None) \<Rightarrow> (case nilVal of None \<Rightarrow> False | Some n \<Rightarrow> a = n)
      | (None, Some b) \<Rightarrow> (case nilVal of None \<Rightarrow> False | Some n \<Rightarrow> b = n))"

definition ProtoToFlowerVlanEthType :: "FilterProtocol \<Rightarrow> FlowerVlanEthType" where
  "ProtoToFlowerVlanEthType proto =
     (if proto = FilterProtocolIPv4 then FlowerVlanEthTypeIPv4
      else if proto = FilterProtocolIPv6 then FlowerVlanEthTypeIPv6
      else [])"

definition PortProtocolToFlowerIPProto :: "PolicyPortProtocol \<Rightarrow> FlowerIPProto" where
  "PortProtocolToFlowerIPProto proto =
     (if proto = ProtocolTCP then FlowerIPProtoTCP
      else if proto = ProtocolUDP then FlowerIPProtoUDP
      else [])"

lemma compare_None_iff: "compare a b None \<longleftrightarrow> a = b"
  by (auto simp: compare_def split: option.splits)

lemma compare_default_iff:
  "compare a b (Some d) \<longleftrightarrow> (case a of None \<Rightarrow> d | Some x \<Rightarrow> x) = (case b of None \<Rightarrow> d | Some x \<Rightarrow> x)"
  by (auto simp: compare_def split: option.splits)

section \<open>Actions (action.go)\<close>

record GenericAction =
  controlAction :: ActionGenericType

definition NewGenericAction :: "ActionGenericType \<Rightarrow> GenericAction" where
  "NewGenericAction c = \<lparr>controlAction = c\<rparr>"

definition GenericAction_Spec :: "GenericAction \<Rightarrow> (string \<rightharpoonup> string)" where
  "GenericAction_Spec a = [''control_action'' \<mapsto> controlAction a]"

definition GenericAction_Equals :: "GenericAction \<Rightarrow> GenericAction \<Rightarrow> bool" where
  "GenericAction_Equals a b \<longleftrightarrow> controlAction a = controlAction b"

definition GenericAction_GenCmdLineArgs :: "GenericAction \<Rightarrow> string list" where
  "GenericAction_GenCmdLineArgs a = [''action'', ActionTypeGeneric, controlAction a]"

definition NewGenericActionBuiler :: GenericAction where
  "NewGenericActionBuiler = \<lparr>controlAction = []\<rparr>"

definition Action_WithDrop :: "GenericAction \<Rightarrow> GenericAction" where
  "Action_WithDrop gb = gb\<lparr>controlAction := ActionGenericDrop\<rparr>"

definition Action_WithPass :: "GenericAction \<Rightarrow> GenericAction" where
  "Action_WithPass gb = gb\<lparr>controlAction := ActionGenericPass\<rparr>"

definition Action_Build :: "GenericAction \<Rightarrow> GenericAction" where
  "Action_Build gb = NewGenericAction (controlAction gb)"

lemma action_builds [builder_simps]:
  "Action_Build (Action_WithDrop NewGenericActionBuiler) = \<lparr>controlAction = ActionGenericDrop\<rparr>"
  "Action_Build (Action_WithPass NewGenericActionBuiler) = \<lparr>controlAction = ActionGenericPass\<rparr>"
  by (simp_all add: Action_Build_def Action_WithDrop_def Action_WithPass_def NewGenericAction_def
      NewGenericActionBuiler_def)

section \<open>Chains (chain.go)\<close>

record Chain =
  ch_Parent :: "u32 option"
  ch_Chain :: "u32 option"

text \<open>\<open>fmt.Sprintf("%x:%x", uint16(p >> 16), uint16(p))\<close>\<close>

definition format_handle :: "u32 \<Rightarrow> string" where
  "format_handle p = hex (unat (ucast (drop_bit 16 p) :: u16)) @ '':'' @ hex (unat (ucast p :: u16))"

definition Chain_GenCmdLineArgs :: "Chain \<Rightarrow> string list" where
  "Chain_GenCmdLineArgs c =
     (case ch_Parent c of None \<Rightarrow> [] | Some p \<Rightarrow> [''parent'', format_handle p]) @
     (case ch_Chain c of None \<Rightarrow> [] | Some n \<Rightarrow> [''chain'', FormatUint (unat n)])"

definition NewChainImpl :: "u32 option \<Rightarrow> u32 option \<Rightarrow> Chain" where
  "NewChainImpl parent chain = \<lparr>ch_Parent = parent, ch_Chain = chain\<rparr>"

definition NewChainBuilder :: Chain where
  "NewChainBuilder = \<lparr>ch_Parent = None, ch_Chain = None\<rparr>"

definition Chain_WithParent :: "u32 \<Rightarrow> Chain \<Rightarrow> Chain" where
  "Chain_WithParent p cb = cb\<lparr>ch_Parent := Some p\<rparr>"

definition Chain_WithChain :: "u32 \<Rightarrow> Chain \<Rightarrow> Chain" where
  "Chain_WithChain n cb = cb\<lparr>ch_Chain := Some n\<rparr>"

definition Chain_Build :: "Chain \<Rightarrow> Chain" where
  "Chain_Build cb =
     (let cb' = (case ch_Chain cb of None \<Rightarrow> cb\<lparr>ch_Chain := Some ChainDefaultChain\<rparr> | Some _ \<Rightarrow> cb)
      in NewChainImpl (ch_Parent cb') (ch_Chain cb'))"

section \<open>Qdiscs (qdisc.go)\<close>

record QDiscAttrs =
  qd_Parent :: "u32 option"
  qd_Handle :: "u32 option"

definition NewQDiscAttrs :: "u32 option \<Rightarrow> u32 option \<Rightarrow> QDiscAttrs" where
  "NewQDiscAttrs parent handle = \<lparr>qd_Parent = parent, qd_Handle = handle\<rparr>"

text \<open>\<open>GenericQDisc\<close> embeds the attributes; its \<open>Type()\<close> is the field \<open>qd_Type\<close>.\<close>

record QDisc = QDiscAttrs +
  qd_Type :: QDiscType

definition QDisc_GenCmdLineArgs :: "QDisc \<Rightarrow> string list" where
  "QDisc_GenCmdLineArgs q = [qd_Type q]"

definition NewGenericQdisc :: "QDiscAttrs \<Rightarrow> QDiscType \<Rightarrow> QDisc" where
  "NewGenericQdisc qDiscAttrs qType =
     \<lparr>qd_Parent = qd_Parent qDiscAttrs, qd_Handle = qd_Handle qDiscAttrs, qd_Type = qType\<rparr>"

definition NewQDiscAttrsBuilder :: QDiscAttrs where
  "NewQDiscAttrsBuilder = \<lparr>qd_Parent = None, qd_Handle = None\<rparr>"

definition QDiscAttrs_WithParent :: "u32 \<Rightarrow> QDiscAttrs \<Rightarrow> QDiscAttrs" where
  "QDiscAttrs_WithParent p qb = qb\<lparr>qd_Parent := Some p\<rparr>"

definition QDiscAttrs_WithHandle :: "u32 \<Rightarrow> QDiscAttrs \<Rightarrow> QDiscAttrs" where
  "QDiscAttrs_WithHandle h qb = qb\<lparr>qd_Handle := Some h\<rparr>"

definition QDiscAttrs_Build :: "QDiscAttrs \<Rightarrow> QDiscAttrs" where
  "QDiscAttrs_Build qb = NewQDiscAttrs (qd_Parent qb) (qd_Handle qb)"

record IngressQDiscBuilder =
  iqb_qDiscAttrsBuilder :: QDiscAttrs
  iqb_qDiscType :: QDiscType

definition NewIngressQDiscBuilder :: IngressQDiscBuilder where
  "NewIngressQDiscBuilder = \<lparr>iqb_qDiscAttrsBuilder = NewQDiscAttrsBuilder, iqb_qDiscType = QDiscIngressType\<rparr>"

definition QDisc_WithParent :: "u32 \<Rightarrow> IngressQDiscBuilder \<Rightarrow> IngressQDiscBuilder" where
  "QDisc_WithParent p iqb =
     iqb\<lparr>iqb_qDiscAttrsBuilder := QDiscAttrs_WithParent p (iqb_qDiscAttrsBuilder iqb)\<rparr>"

definition QDisc_WithHandle :: "u32 \<Rightarrow> IngressQDiscBuilder \<Rightarrow> IngressQDiscBuilder" where
  "QDisc_WithHandle h iqb =
     iqb\<lparr>iqb_qDiscAttrsBuilder := QDiscAttrs_WithHandle h (iqb_qDiscAttrsBuilder iqb)\<rparr>"

definition QDisc_Build :: "IngressQDiscBuilder \<Rightarrow> QDisc" where
  "QDisc_Build iqb = NewGenericQdisc (QDiscAttrs_Build (iqb_qDiscAttrsBuilder iqb)) (iqb_qDiscType iqb)"

lemmas qdisc_builder_defs = QDisc_Build_def QDisc_WithParent_def QDisc_WithHandle_def
  NewIngressQDiscBuilder_def QDiscAttrs_Build_def QDiscAttrs_WithParent_def QDiscAttrs_WithHandle_def
  NewQDiscAttrsBuilder_def NewQDiscAttrs_def NewGenericQdisc_def

lemma ingress_qdisc:
  "QDisc_Build (QDisc_WithHandle h (QDisc_WithParent p NewIngressQDiscBuilder)) =
    \<lparr>qd_Parent = Some p, qd_Handle = Some h, qd_Type = QDiscIngressType\<rparr>"
  "QDisc_Build NewIngressQDiscBuilder = \<lparr>qd_Parent = None, qd_Handle = None, qd_Type = QDiscIngressType\<rparr>"
  by (simp_all add: qdisc_builder_defs)

lemma qdisc_builds [builder_simps]:
  "qd_Type (QDisc_Build qb) = iqb_qDiscType qb"
  "iqb_qDiscType (QDisc_WithParent p qb) = iqb_qDiscType qb"
  "iqb_qDiscType (QDisc_WithHandle h qb) = iqb_qDiscType qb"
  "iqb_qDiscType NewIngressQDiscBuilder = QDiscIngressType"
  by (simp_all add: qdisc_builder_defs)

lemma chain_builds [builder_simps]:
  "ch_Chain (Chain_Build (Chain_WithParent p (Chain_WithChain n NewChainBuilder))) = Some n"
  "ch_Chain (Chain_Build (Chain_WithChain n cb)) = Some n"
  "ch_Chain (Chain_Build NewChainBuilder) = Some ChainDefaultChain"
  by (simp_all add: Chain_Build_def NewChainImpl_def Chain_WithParent_def Chain_WithChain_def NewChainBuilder_def)

end
