(* ===== verification/Tc_Filter.thy ===== *)
theory Tc_Filter
  imports Tc_Types
begin

text \<open>
  Model of \<open>pkg/tc/types/filter.go\<close>: filter attributes, flower matches and flower filters, their
  builders, the \<open>tc\<close> arguments they print and \<open>Equals\<close>. The main fact is that \<open>Equals\<close> is the
  equality of a normal form (\<open>norm_filter\<close>): the handle is ignored, a missing chain is chain 0,
  and a destination network counts by the text of its address and mask. So \<open>Equals\<close> is an
  equivalence, which is what the filter sets need.
\<close>

section \<open>Attributes\<close>

record FilterAttrs =
  fa_Kind :: FilterKind
  fa_Protocol :: FilterProtocol
  fa_Chain :: "u32 option"
  fa_Handle :: "u32 option"
  fa_Priority :: "u16 option"

definition NewFilterAttrs ::
  "FilterKind \<Rightarrow> FilterProtocol \<Rightarrow> u32 option \<Rightarrow> u32 option \<Rightarrow> u16 option \<Rightarrow> FilterAttrs" where
  "NewFilterAttrs kind protocol chain handle priority =
     \<lparr>fa_Kind = kind, fa_Protocol = protocol, fa_Chain = chain, fa_Handle = handle,
      fa_Priority = priority\<rparr>"

definition FilterAttrs_GenCmdLineArgs :: "FilterAttrs \<Rightarrow> string list" where
  "FilterAttrs_GenCmdLineArgs fa =
     (if fa_Protocol fa \<noteq> [] then [''protocol'', fa_Protocol fa] else []) @
     (case fa_Handle fa of None \<Rightarrow> [] | Some h \<Rightarrow> [''handle'', FormatUint (unat h)]) @
     (case fa_Chain fa of None \<Rightarrow> [] | Some c \<Rightarrow> [''chain'', FormatUint (unat c)]) @
     (case fa_Priority fa of None \<Rightarrow> [] | Some p \<Rightarrow> [''pref'', FormatUint (unat p)]) @
     [fa_Kind fa]"

text \<open>
  The receiver and the argument are pointers. Two non-nil pointers to the same attributes give
  true by the field comparison too, so only the nil cases of the pointer test remain.
\<close>

definition FilterAttrs_Equals :: "FilterAttrs option \<Rightarrow> FilterAttrs option \<Rightarrow> bool" where
  "FilterAttrs_Equals a b =
     (case (a, b) of
        (None, None) \<Rightarrow> True
      | (Some fa, Some other) \<Rightarrow>
          if fa_Kind fa \<noteq> fa_Kind other then False
          else if fa_Protocol fa \<noteq> fa_Protocol other then False
          else if \<not> compare (fa_Chain fa) (fa_Chain other) (Some ChainDefaultChain) then False
          else if \<not> compare (fa_Priority fa) (fa_Priority other) None then False
          else True
      | _ \<Rightarrow> False)"

section \<open>Flower matches\<close>

record FlowerSpec =
  fs_VlanEthType :: "FlowerVlanEthType option"
  fs_IPProto :: "FlowerIPProto option"
  fs_DstIP :: "IPNet option"
  fs_DstPort :: "u16 option"

definition DstIP_arg :: "IPNet \<Rightarrow> string" where
  "DstIP_arg n =
     (if net_Mask n \<noteq> [] \<and> \<not> IsMaskFull (net_Mask n) then IPNet_String n else IP_String (net_IP n))"

definition FlowerSpec_GenCmdLineArgs :: "FlowerSpec option \<Rightarrow> string list" where
  "FlowerSpec_GenCmdLineArgs f =
     (case f of
        None \<Rightarrow> []
      | Some ff \<Rightarrow>
          (case fs_VlanEthType ff of None \<Rightarrow> [] | Some v \<Rightarrow> [FlowerKeyVlanEthType, v]) @
          (case fs_IPProto ff of None \<Rightarrow> [] | Some p \<Rightarrow> [FlowerKeyIPProto, p]) @
          (case fs_DstIP ff of None \<Rightarrow> [] | Some n \<Rightarrow> [FlowerKeyDstIP, DstIP_arg n]) @
          (case fs_DstPort ff of None \<Rightarrow> [] | Some p \<Rightarrow> [FlowerKeyDstPort, FormatUint (unat p)]))"

definition FlowerSpec_Equals :: "FlowerSpec option \<Rightarrow> FlowerSpec option \<Rightarrow> bool" where
  "FlowerSpec_Equals a b =
     (case (a, b) of
        (None, None) \<Rightarrow> True
      | (Some ff, Some other) \<Rightarrow>
          if \<not> compare (fs_VlanEthType ff) (fs_VlanEthType other) None then False
          else if \<not> compare (fs_IPProto ff) (fs_IPProto other) None then False
          else if (case (fs_DstIP ff, fs_DstIP other) of
                     (None, None) \<Rightarrow> False
                   | (Some m, Some n) \<Rightarrow>
                       IP_String (net_IP m) \<noteq> IP_String (net_IP n) \<or>
                       Mask_String (net_Mask m) \<noteq> Mask_String (net_Mask n)
                   | _ \<Rightarrow> True) then False
          else if \<not> compare (fs_DstPort ff) (fs_DstPort other) None then False
          else True
      | _ \<Rightarrow> False)"

section \<open>Flower filters\<close>

record FlowerFilter =
  ff_Attrs :: FilterAttrs
  ff_Flower :: "FlowerSpec option"
  ff_Actions :: "GenericAction list"

definition FlowerFilter_Equals :: "FlowerFilter \<Rightarrow> FlowerFilter \<Rightarrow> bool" where
  "FlowerFilter_Equals f other =
     (if \<not> FilterAttrs_Equals (Some (ff_Attrs f)) (Some (ff_Attrs other)) then False
      else if \<not> FlowerSpec_Equals (ff_Flower f) (ff_Flower other) then False
      else if length (ff_Actions f) \<noteq> length (ff_Actions other) then False
      else list_all (\<lambda>(a, b). GenericAction_Equals a b) (zip (ff_Actions f) (ff_Actions other)))"

definition FlowerFilter_GenCmdLineArgs :: "FlowerFilter \<Rightarrow> string list" where
  "FlowerFilter_GenCmdLineArgs f =
     FilterAttrs_GenCmdLineArgs (ff_Attrs f) @
     (case ff_Flower f of None \<Rightarrow> [] | Some s \<Rightarrow> FlowerSpec_GenCmdLineArgs (Some s)) @
     concat (map GenericAction_GenCmdLineArgs (ff_Actions f))"

section \<open>Builders\<close>

type_synonym FilterAttrsBuilder = FilterAttrs

definition NewFilterAttrsBuilder :: FilterAttrsBuilder where
  "NewFilterAttrsBuilder =
     \<lparr>fa_Kind = [], fa_Protocol = [], fa_Chain = None, fa_Handle = None, fa_Priority = None\<rparr>"

definition Attrs_WithKind :: "FilterKind \<Rightarrow> FilterAttrsBuilder \<Rightarrow> FilterAttrsBuilder" where
  "Attrs_WithKind k fb = fb\<lparr>fa_Kind := k\<rparr>"

definition Attrs_WithProtocol :: "FilterProtocol \<Rightarrow> FilterAttrsBuilder \<Rightarrow> FilterAttrsBuilder" where
  "Attrs_WithProtocol p fb = fb\<lparr>fa_Protocol := p\<rparr>"

definition Attrs_WithChain :: "u32 \<Rightarrow> FilterAttrsBuilder \<Rightarrow> FilterAttrsBuilder" where
  "Attrs_WithChain c fb = fb\<lparr>fa_Chain := Some c\<rparr>"

definition Attrs_WithHandle :: "u32 \<Rightarrow> FilterAttrsBuilder \<Rightarrow> FilterAttrsBuilder" where
  "Attrs_WithHandle h fb = fb\<lparr>fa_Handle := Some h\<rparr>"

definition Attrs_WithPriority :: "u16 \<Rightarrow> FilterAttrsBuilder \<Rightarrow> FilterAttrsBuilder" where
  "Attrs_WithPriority p fb = fb\<lparr>fa_Priority := Some p\<rparr>"

definition Attrs_Build :: "FilterAttrsBuilder \<Rightarrow> FilterAttrs" where
  "Attrs_Build fb =
     NewFilterAttrs (fa_Kind fb) (fa_Protocol fb) (fa_Chain fb) (fa_Handle fb) (fa_Priority fb)"

record FlowerFilterBuilder =
  ffb_attrs :: FilterAttrsBuilder
  ffb_spec :: FlowerSpec
  ffb_actions :: "GenericAction list"

definition NewFlowerFilterBuilder :: FlowerFilterBuilder where
  "NewFlowerFilterBuilder =
     \<lparr>ffb_attrs = NewFilterAttrsBuilder,
      ffb_spec = \<lparr>fs_VlanEthType = None, fs_IPProto = None, fs_DstIP = None, fs_DstPort = None\<rparr>,
      ffb_actions = []\<rparr>"

definition Flower_WithKind :: "FilterKind \<Rightarrow> FlowerFilterBuilder \<Rightarrow> FlowerFilterBuilder" where
  "Flower_WithKind k fb = fb\<lparr>ffb_attrs := Attrs_WithKind k (ffb_attrs fb)\<rparr>"

definition Flower_WithProtocol :: "FilterProtocol \<Rightarrow> FlowerFilterBuilder \<Rightarrow> FlowerFilterBuilder" where
  "Flower_WithProtocol p fb = fb\<lparr>ffb_attrs := Attrs_WithProtocol p (ffb_attrs fb)\<rparr>"

definition Flower_WithChain :: "u32 \<Rightarrow> FlowerFilterBuilder \<Rightarrow> FlowerFilterBuilder" where
  "Flower_WithChain c fb = fb\<lparr>ffb_attrs := Attrs_WithChain c (ffb_attrs fb)\<rparr>"

definition Flower_WithHandle :: "u32 \<Rightarrow> FlowerFilterBuilder \<Rightarrow> FlowerFilterBuilder" where
  "Flower_WithHandle h fb = fb\<lparr>ffb_attrs := Attrs_WithHandle h (ffb_attrs fb)\<rparr>"

definition Flower_WithPriority :: "u16 \<Rightarrow> FlowerFilterBuilder \<Rightarrow> FlowerFilterBuilder" where
  "Flower_WithPriority p fb = fb\<lparr>ffb_attrs := Attrs_WithPriority p (ffb_attrs fb)\<rparr>"

definition WithMatchKeyVlanEthType ::
  "FlowerVlanEthType \<Rightarrow> FlowerFilterBuilder \<Rightarrow> FlowerFilterBuilder" where
  "WithMatchKeyVlanEthType v fb = fb\<lparr>ffb_spec := (ffb_spec fb)\<lparr>fs_VlanEthType := Some v\<rparr>\<rparr>"

definition WithMatchKeyIPProto :: "FlowerIPProto \<Rightarrow> FlowerFilterBuilder \<Rightarrow> FlowerFilterBuilder" where
  "WithMatchKeyIPProto v fb = fb\<lparr>ffb_spec := (ffb_spec fb)\<lparr>fs_IPProto := Some v\<rparr>\<rparr>"

definition WithMatchKeyDstIP :: "IPNet \<Rightarrow> FlowerFilterBuilder \<Rightarrow> FlowerFilterBuilder" where
  "WithMatchKeyDstIP n fb = fb\<lparr>ffb_spec := (ffb_spec fb)\<lparr>fs_DstIP := Some n\<rparr>\<rparr>"

definition WithMatchKeyDstPort :: "u16 \<Rightarrow> FlowerFilterBuilder \<Rightarrow> FlowerFilterBuilder" where
  "WithMatchKeyDstPort p fb = fb\<lparr>ffb_spec := (ffb_spec fb)\<lparr>fs_DstPort := Some p\<rparr>\<rparr>"

definition WithAction :: "GenericAction \<Rightarrow> FlowerFilterBuilder \<Rightarrow> FlowerFilterBuilder" where
  "WithAction a fb = fb\<lparr>ffb_actions := ffb_actions fb @ [a]\<rparr>"

definition Flower_Build :: "FlowerFilterBuilder \<Rightarrow> FlowerFilter" where
  "Flower_Build fb =
     \<lparr>ff_Attrs = (Attrs_Build (ffb_attrs fb))\<lparr>fa_Kind := FilterKindFlower\<rparr>,
      ff_Flower = Some (ffb_spec fb), ff_Actions = ffb_actions fb\<rparr>"

lemmas flower_builders [builder_simps] =
  NewFilterAttrs_def NewFilterAttrsBuilder_def Attrs_WithKind_def Attrs_WithProtocol_def
  Attrs_WithChain_def Attrs_WithHandle_def Attrs_WithPriority_def Attrs_Build_def
  NewFlowerFilterBuilder_def Flower_WithKind_def Flower_WithProtocol_def Flower_WithChain_def
  Flower_WithHandle_def Flower_WithPriority_def WithMatchKeyVlanEthType_def
  WithMatchKeyIPProto_def WithMatchKeyDstIP_def WithMatchKeyDstPort_def WithAction_def
  Flower_Build_def

section \<open>Normal forms\<close>

record NormFilter =
  nf_Kind :: FilterKind
  nf_Protocol :: FilterProtocol
  nf_Chain :: u32
  nf_Priority :: "u16 option"
  nf_Flower ::
    "(FlowerVlanEthType option \<times> FlowerIPProto option \<times> (string \<times> string) option \<times> u16 option) option"
  nf_Actions :: "ActionGenericType list"

definition norm_net :: "IPNet \<Rightarrow> string \<times> string" where
  "norm_net n = (IP_String (net_IP n), Mask_String (net_Mask n))"

definition norm_filter :: "FlowerFilter \<Rightarrow> NormFilter" where
  "norm_filter f =
     \<lparr>nf_Kind = fa_Kind (ff_Attrs f),
      nf_Protocol = fa_Protocol (ff_Attrs f),
      nf_Chain = (case fa_Chain (ff_Attrs f) of None \<Rightarrow> ChainDefaultChain | Some c \<Rightarrow> c),
      nf_Priority = fa_Priority (ff_Attrs f),
      nf_Flower = map_option (\<lambda>s. (fs_VlanEthType s, fs_IPProto s,
        map_option norm_net (fs_DstIP s), fs_DstPort s)) (ff_Flower f),
      nf_Actions = map controlAction (ff_Actions f)\<rparr>"

lemma FilterAttrs_Equals_iff:
  "FilterAttrs_Equals (Some a) (Some b) \<longleftrightarrow>
     fa_Kind a = fa_Kind b \<and> fa_Protocol a = fa_Protocol b \<and>
     (case fa_Chain a of None \<Rightarrow> ChainDefaultChain | Some c \<Rightarrow> c) =
       (case fa_Chain b of None \<Rightarrow> ChainDefaultChain | Some c \<Rightarrow> c) \<and>
     fa_Priority a = fa_Priority b"
  by (simp add: FilterAttrs_Equals_def compare_None_iff compare_default_iff)

lemma FlowerSpec_Equals_iff:
  "FlowerSpec_Equals a b \<longleftrightarrow>
     map_option (\<lambda>s. (fs_VlanEthType s, fs_IPProto s, map_option norm_net (fs_DstIP s), fs_DstPort s)) a =
     map_option (\<lambda>s. (fs_VlanEthType s, fs_IPProto s, map_option norm_net (fs_DstIP s), fs_DstPort s)) b"
  by (auto simp: FlowerSpec_Equals_def compare_None_iff norm_net_def split: option.splits)

lemma actions_equal_iff:
  "length as = length bs \<Longrightarrow>
   list_all (\<lambda>(a, b). GenericAction_Equals a b) (zip as bs) \<longleftrightarrow> map controlAction as = map controlAction bs"
  by (induction as bs rule: list_induct2) (auto simp: GenericAction_Equals_def)

lemma FlowerFilter_Equals_iff: "FlowerFilter_Equals f g \<longleftrightarrow> norm_filter f = norm_filter g"
proof (cases "length (ff_Actions f) = length (ff_Actions g)")
  case True
  then show ?thesis
    by (auto simp: FlowerFilter_Equals_def FilterAttrs_Equals_iff FlowerSpec_Equals_iff
        actions_equal_iff norm_filter_def)
next
  case False
  then have "map controlAction (ff_Actions f) \<noteq> map controlAction (ff_Actions g)"
    by (metis length_map)
  with False show ?thesis by (simp add: FlowerFilter_Equals_def norm_filter_def)
qed

text \<open>
  C36. \<open>FlowerFilter.Equals\<close> is an equivalence on all filters; two filters it takes for equal have
  the same kind, protocol, priority and actions, the same chain when a missing one is chain 0,
  and the same matches, where a destination network is compared by the printed address and mask.
  It does not look at handles, and an IPv4 destination in its 4 byte form equals the 16 byte
  form, which is what separates a filter the driver lists from the one that was generated.
\<close>

theorem filter_equality:
  "equivp FlowerFilter_Equals \<and>
   (\<forall>f g. FlowerFilter_Equals f g =
      ((fa_Kind (ff_Attrs f), fa_Protocol (ff_Attrs f), fa_Priority (ff_Attrs f), map controlAction (ff_Actions f)) =
       (fa_Kind (ff_Attrs g), fa_Protocol (ff_Attrs g), fa_Priority (ff_Attrs g), map controlAction (ff_Actions g)) \<and>
       (case fa_Chain (ff_Attrs f) of None \<Rightarrow> 0 | Some c \<Rightarrow> c) =
       (case fa_Chain (ff_Attrs g) of None \<Rightarrow> 0 | Some c \<Rightarrow> c) \<and>
       map_option (\<lambda>s. (fs_VlanEthType s, fs_IPProto s, map_option norm_net (fs_DstIP s), fs_DstPort s)) (ff_Flower f) =
       map_option (\<lambda>s. (fs_VlanEthType s, fs_IPProto s, map_option norm_net (fs_DstIP s), fs_DstPort s)) (ff_Flower g))) \<and>
   (\<forall>f h. FlowerFilter_Equals f (f\<lparr>ff_Attrs := (ff_Attrs f)\<lparr>fa_Handle := h\<rparr>\<rparr>)) \<and>
   (\<forall>f s a b c d m. FlowerFilter_Equals
      (f\<lparr>ff_Flower := Some (s\<lparr>fs_DstIP := Some \<lparr>net_IP = [a, b, c, d], net_Mask = m\<rparr>\<rparr>)\<rparr>)
      (f\<lparr>ff_Flower := Some (s\<lparr>fs_DstIP := Some \<lparr>net_IP = IPv4 [a, b, c, d], net_Mask = m\<rparr>\<rparr>)\<rparr>))"
proof -
  have ip: "IP_String (IPv4 [a, b, c, d]) = IP_String [a, b, c, d]" for a b c d :: u8
    by (simp add: IP_String_def) (simp add: IPv4_def v4InV6Prefix_def)
  have "equivp FlowerFilter_Equals"
    by (rule equivpI) (auto simp: reflp_def symp_def transp_def FlowerFilter_Equals_iff)
  then show ?thesis
    unfolding FlowerFilter_Equals_iff norm_filter_def ChainDefaultChain_def
    by (auto simp: norm_net_def ip)
qed

end
