(* ===== verification/Filter_Set.thy ===== *)
theory Filter_Set
  imports Tc_Filter "HOL-Library.Multiset"
begin

text \<open>
  Model of \<open>pkg/tc/filterset.go\<close>. A \<open>FilterSetImpl\<close> is a slice of filters without two that are
  \<open>Equals\<close>. The locale \<open>set_ops\<close> is the Go interface \<open>FilterSet\<close> with the laws its comments
  promise, \<open>set_algebra\<close> adds the operations on two sets; both are interpreted on the slice
  implementation, whose abstraction is the set of normal forms of its filters.
\<close>

section \<open>Operations\<close>

record FilterSetImpl =
  items :: "FlowerFilter list"

definition NewFilterSetImpl :: FilterSetImpl where
  "NewFilterSetImpl = \<lparr>items = []\<rparr>"

fun has_equal :: "FlowerFilter \<Rightarrow> FlowerFilter list \<Rightarrow> bool" where
  "has_equal f [] = False"
| "has_equal f (fl # fls) = (if FlowerFilter_Equals f fl then True else has_equal f fls)"

definition Set_Has :: "FilterSetImpl \<Rightarrow> FlowerFilter \<Rightarrow> bool" where
  "Set_Has s f = has_equal f (items s)"

definition Set_Add :: "FilterSetImpl \<Rightarrow> FlowerFilter \<Rightarrow> FilterSetImpl" where
  "Set_Add s f = (if \<not> Set_Has s f then s\<lparr>items := items s @ [f]\<rparr> else s)"

fun find_equal :: "FlowerFilter \<Rightarrow> FlowerFilter list \<Rightarrow> nat option" where
  "find_equal f [] = None"
| "find_equal f (fl # fls) =
     (if FlowerFilter_Equals f fl then Some 0 else map_option Suc (find_equal f fls))"

text \<open>The found element is overwritten by the last one and the slice is cut by one.\<close>

definition Set_Remove :: "FilterSetImpl \<Rightarrow> FlowerFilter \<Rightarrow> FilterSetImpl" where
  "Set_Remove s f =
     (case find_equal f (items s) of
        None \<Rightarrow> s
      | Some i \<Rightarrow> s\<lparr>items := butlast ((items s)[i := last (items s)])\<rparr>)"

definition Set_Len :: "FilterSetImpl \<Rightarrow> nat" where
  "Set_Len s = length (items s)"

definition Set_In :: "FilterSetImpl \<Rightarrow> FilterSetImpl \<Rightarrow> bool" where
  "Set_In s other =
     (if Set_Len other < Set_Len s then False else list_all (Set_Has other) (items s))"

definition Set_Intersect :: "FilterSetImpl \<Rightarrow> FilterSetImpl \<Rightarrow> FilterSetImpl" where
  "Set_Intersect s other =
     foldl (\<lambda>fs fl. if Set_Has other fl then Set_Add fs fl else fs) NewFilterSetImpl (items s)"

definition Set_Difference :: "FilterSetImpl \<Rightarrow> FilterSetImpl \<Rightarrow> FilterSetImpl" where
  "Set_Difference s other =
     foldl (\<lambda>fs fl. if \<not> Set_Has other fl then Set_Add fs fl else fs) NewFilterSetImpl (items s)"

definition Set_Equals :: "FilterSetImpl \<Rightarrow> FilterSetImpl \<Rightarrow> bool" where
  "Set_Equals s other \<longleftrightarrow> Set_Len s = Set_Len other \<and> Set_In s other"

definition Set_List :: "FilterSetImpl \<Rightarrow> FlowerFilter list" where
  "Set_List s = items s"

section \<open>The interface\<close>

text \<open>
  \<open>key\<close> is what two elements that count as equal have in common; \<open>keys s\<close> is the abstract set.
\<close>

locale set_ops =
  fixes new :: 's
    and add :: "'s \<Rightarrow> 'e \<Rightarrow> 's"
    and remove :: "'s \<Rightarrow> 'e \<Rightarrow> 's"
    and has :: "'s \<Rightarrow> 'e \<Rightarrow> bool"
    and len :: "'s \<Rightarrow> nat"
    and list_of :: "'s \<Rightarrow> 'e list"
    and key :: "'e \<Rightarrow> 'k"
    and invar :: "'s \<Rightarrow> bool"
  assumes new_keys: "list_of new = []" and new_invar: "invar new"
    and has_iff: "has s x \<longleftrightarrow> key x \<in> key ` set (list_of s)"
    and list_of_add: "list_of (add s x) = (if has s x then list_of s else list_of s @ [x])"
    and remove_keys: "invar s \<Longrightarrow> key ` set (list_of (remove s x)) = key ` set (list_of s) - {key x}"
    and remove_invar: "invar s \<Longrightarrow> invar (remove s x)"
    and len_length: "len s = length (list_of s)"
    and invar_iff: "invar s \<longleftrightarrow> distinct (map key (list_of s))"
begin

lemma add_keys: "key ` set (list_of (add s x)) = insert (key x) (key ` set (list_of s))"
  by (auto simp: list_of_add has_iff)

lemma add_invar: "invar s \<Longrightarrow> invar (add s x)"
  by (auto simp: invar_iff list_of_add has_iff)

lemma len_card: "invar s \<Longrightarrow> len s = card (key ` set (list_of s))"
  using distinct_card [of "map key (list_of s)"] by (simp add: len_length invar_iff)

lemma foldl_add:
  "invar s \<Longrightarrow>
    invar (foldl add s xs) \<and>
    key ` set (list_of (foldl add s xs)) = key ` set (list_of s) \<union> key ` set xs \<and>
    set (list_of (foldl add s xs)) \<subseteq> set (list_of s) \<union> set xs"
proof (induction xs arbitrary: s)
  case Nil
  then show ?case by simp
next
  case (Cons x xs)
  have "set (list_of (add s x)) \<subseteq> insert x (set (list_of s))"
    by (simp add: list_of_add subset_insertI)
  with Cons.IH [OF add_invar [OF Cons.prems], of x] show ?case
    by (auto simp: add_keys)
qed

text \<open>Collecting the elements of a slice that pass a test, when the slice has no repetition.\<close>

lemma foldl_add_if:
  assumes "distinct (map key (list_of s @ xs))"
  shows "list_of (foldl (\<lambda>t x. if P x then add t x else t) s xs) = list_of s @ filter P xs"
  using assms
proof (induction xs arbitrary: s)
  case Nil
  then show ?case by simp
next
  case (Cons x xs)
  show ?case
  proof (cases "P x")
    case True
    have "list_of (add s x) = list_of s @ [x]"
      using Cons.prems by (auto simp: list_of_add has_iff)
    with Cons True show ?thesis by simp
  next
    case False
    have "distinct (map key (list_of s @ xs))" using Cons.prems by simp
    with Cons.IH False show ?thesis by simp
  qed
qed

end

locale set_algebra = set_ops new add remove has len list_of key invar
  for new :: 's and add :: "'s \<Rightarrow> 'e \<Rightarrow> 's" and remove :: "'s \<Rightarrow> 'e \<Rightarrow> 's"
    and has :: "'s \<Rightarrow> 'e \<Rightarrow> bool" and len :: "'s \<Rightarrow> nat" and list_of :: "'s \<Rightarrow> 'e list"
    and key :: "'e \<Rightarrow> 'k" and invar :: "'s \<Rightarrow> bool" +
  fixes incl :: "'s \<Rightarrow> 's \<Rightarrow> bool"
    and inter :: "'s \<Rightarrow> 's \<Rightarrow> 's"
    and diff :: "'s \<Rightarrow> 's \<Rightarrow> 's"
    and eq :: "'s \<Rightarrow> 's \<Rightarrow> bool"
  assumes incl_iff: "invar s \<Longrightarrow> incl s t \<longleftrightarrow> key ` set (list_of s) \<subseteq> key ` set (list_of t)"
    and inter_list: "invar s \<Longrightarrow> list_of (inter s t) = filter (has t) (list_of s)"
    and diff_list: "invar s \<Longrightarrow> list_of (diff s t) = filter (\<lambda>x. \<not> has t x) (list_of s)"
    and eq_iff: "eq s t \<longleftrightarrow> len s = len t \<and> incl s t"
begin

lemma inter_keys:
  "invar s \<Longrightarrow> key ` set (list_of (inter s t)) = key ` set (list_of s) \<inter> key ` set (list_of t)"
  by (auto simp: inter_list has_iff)

lemma diff_keys:
  "invar s \<Longrightarrow> key ` set (list_of (diff s t)) = key ` set (list_of s) - key ` set (list_of t)"
  by (auto simp: diff_list has_iff)

lemma diff_invar: "invar s \<Longrightarrow> invar (diff s t)"
  by (simp add: diff_list invar_iff distinct_map_filter)

lemma inter_invar: "invar s \<Longrightarrow> invar (inter s t)"
  by (simp add: inter_list invar_iff distinct_map_filter)

lemma eq_keys:
  assumes "invar s" and "invar t"
  shows "eq s t \<longleftrightarrow> key ` set (list_of s) = key ` set (list_of t)"
proof
  assume "eq s t"
  then have "card (key ` set (list_of s)) = card (key ` set (list_of t))"
    and "key ` set (list_of s) \<subseteq> key ` set (list_of t)"
    using assms by (auto simp: eq_iff len_card incl_iff)
  then show "key ` set (list_of s) = key ` set (list_of t)"
    by (simp add: card_subset_eq)
next
  assume "key ` set (list_of s) = key ` set (list_of t)"
  with assms show "eq s t" by (simp add: eq_iff len_card incl_iff)
qed

end

section \<open>The slice implements the interface\<close>

lemma has_equal_iff: "has_equal f fls \<longleftrightarrow> norm_filter f \<in> norm_filter ` set fls"
  by (induction fls) (auto simp: FlowerFilter_Equals_iff)

lemma find_equal_None_iff: "find_equal f fls = None \<longleftrightarrow> norm_filter f \<notin> norm_filter ` set fls"
  by (induction fls) (auto simp: FlowerFilter_Equals_iff)

lemma find_equal_Some:
  "find_equal f fls = Some i \<Longrightarrow> i < length fls \<and> norm_filter (fls ! i) = norm_filter f"
  by (induction fls arbitrary: i) (auto simp: FlowerFilter_Equals_iff split: if_splits)

lemma mset_swap_last:
  assumes "i < length xs"
  shows "mset (butlast (xs[i := last xs])) = mset xs - {#xs ! i#}"
proof (cases xs rule: rev_cases)
  case Nil
  with assms show ?thesis by simp
next
  case (snoc ys y)
  then show ?thesis using assms
    by (cases "i = length ys") (auto simp: list_update_append mset_update nth_append butlast_append)
qed

definition set_invar :: "FilterSetImpl \<Rightarrow> bool" where
  "set_invar s \<longleftrightarrow> distinct (map norm_filter (items s))"

lemma Set_Remove_mset:
  "norm_filter f \<in> norm_filter ` set (items s) \<Longrightarrow>
   mset (map norm_filter (items (Set_Remove s f))) =
   mset (map norm_filter (items s)) - {#norm_filter f#}"
proof -
  assume "norm_filter f \<in> norm_filter ` set (items s)"
  then obtain i where i: "find_equal f (items s) = Some i"
    using find_equal_None_iff by (cases "find_equal f (items s)") auto
  then have "i < length (items s)" and n: "norm_filter (items s ! i) = norm_filter f"
    using find_equal_Some by auto
  then have "mset (items (Set_Remove s f)) = mset (items s) - {#items s ! i#}"
    by (simp add: Set_Remove_def i mset_swap_last)
  moreover have "items s ! i \<in># mset (items s)" using \<open>i < length (items s)\<close> by simp
  ultimately show ?thesis using n by (simp add: image_mset_Diff)
qed

lemma Set_Remove_keys:
  assumes "set_invar s"
  shows "norm_filter ` set (items (Set_Remove s f)) = norm_filter ` set (items s) - {norm_filter f}"
    and "set_invar (Set_Remove s f)"
proof -
  let ?ns = "map norm_filter (items s)"
  let ?rs = "map norm_filter (items (Set_Remove s f))"
  have d: "distinct ?ns" using assms by (simp add: set_invar_def)
  have "set ?rs = set ?ns - {norm_filter f} \<and> distinct ?rs"
  proof (cases "norm_filter f \<in> set ?ns")
    case True
    then have m: "mset ?rs = mset ?ns - {#norm_filter f#}" using Set_Remove_mset by simp
    also have "\<dots> = mset (remove1 (norm_filter f) ?ns)" by simp
    finally have "mset ?rs = mset (remove1 (norm_filter f) ?ns)" .
    then have "set ?rs = set (remove1 (norm_filter f) ?ns)" and
      "distinct ?rs = distinct (remove1 (norm_filter f) ?ns)"
      by (rule mset_eq_setD, rule mset_eq_imp_distinct_iff)
    with d show ?thesis by (simp only: set_remove1_eq distinct_remove1)
  next
    case False
    then have "find_equal f (items s) = None" by (simp add: find_equal_None_iff)
    then have "Set_Remove s f = s" by (simp add: Set_Remove_def)
    with d False show ?thesis by simp
  qed
  then show "norm_filter ` set (items (Set_Remove s f)) = norm_filter ` set (items s) - {norm_filter f}"
    and "set_invar (Set_Remove s f)"
    by (simp_all add: set_invar_def)
qed

interpretation fset: set_ops NewFilterSetImpl Set_Add Set_Remove Set_Has Set_Len Set_List
  norm_filter set_invar
proof unfold_locales
qed (auto simp: NewFilterSetImpl_def Set_List_def set_invar_def Set_Has_def has_equal_iff
    Set_Add_def Set_Len_def Set_Remove_keys Set_Remove_keys(2) [unfolded set_invar_def])

lemma Set_collect:
  assumes "set_invar s"
  shows "items (foldl (\<lambda>fs fl. if P fl then Set_Add fs fl else fs) NewFilterSetImpl (items s)) =
    filter P (items s)"
proof -
  have "distinct (map norm_filter (Set_List NewFilterSetImpl @ items s))"
    using assms by (simp add: set_invar_def NewFilterSetImpl_def Set_List_def)
  from fset.foldl_add_if [OF this, of P] show ?thesis
    by (simp add: Set_List_def NewFilterSetImpl_def)
qed

lemma Set_In_iff:
  assumes "set_invar s"
  shows "Set_In s t \<longleftrightarrow> norm_filter ` set (items s) \<subseteq> norm_filter ` set (items t)"
proof -
  have "norm_filter ` set (items s) \<subseteq> norm_filter ` set (items t) \<Longrightarrow> Set_Len s \<le> Set_Len t"
  proof -
    assume "norm_filter ` set (items s) \<subseteq> norm_filter ` set (items t)"
    then have "card (norm_filter ` set (items s)) \<le> card (norm_filter ` set (items t))"
      by (simp add: card_mono)
    also have "\<dots> \<le> length (items t)"
      using card_length [of "map norm_filter (items t)"] by simp
    finally show ?thesis
      using fset.len_card [OF assms] by (simp add: Set_Len_def Set_List_def)
  qed
  moreover have "list_all (Set_Has t) (items s) \<longleftrightarrow>
      norm_filter ` set (items s) \<subseteq> norm_filter ` set (items t)"
    by (auto simp: list_all_iff Set_Has_def has_equal_iff)
  ultimately show ?thesis by (auto simp: Set_In_def)
qed

interpretation fset2: set_algebra NewFilterSetImpl Set_Add Set_Remove Set_Has Set_Len Set_List
  norm_filter set_invar Set_In Set_Intersect Set_Difference Set_Equals
proof unfold_locales
qed (auto simp: Set_In_iff Set_List_def Set_Intersect_def Set_Difference_def Set_Equals_def
    Set_collect)

text \<open>The sets the actuator builds: all filters of a slice, added one by one.\<close>

definition set_of_filters :: "FlowerFilter list \<Rightarrow> FilterSetImpl" where
  "set_of_filters fs = foldl Set_Add NewFilterSetImpl fs"

lemma set_of_filters:
  "set_invar (set_of_filters fs)"
  "norm_filter ` set (items (set_of_filters fs)) = norm_filter ` set fs"
  "set (items (set_of_filters fs)) \<subseteq> set fs"
  using fset.foldl_add [OF fset.new_invar, of fs]
  by (simp_all add: set_of_filters_def Set_List_def NewFilterSetImpl_def)

section \<open>Property\<close>


definition ex_set_filter :: "u16 \<Rightarrow> u32 \<Rightarrow> FlowerFilter" where
  "ex_set_filter port handle =
     Flower_Build (Flower_WithHandle handle (WithMatchKeyDstPort port NewFlowerFilterBuilder))"


end
