(* ===== verification/Tc_Generator.thy ===== *)
theory Tc_Generator
  imports Filter_Set
begin

text \<open>
  Model of \<open>pkg/tc/generator\<close>: \<open>PrioFromBaseAndProtcol\<close> (priority.go) and \<open>SimpleTCGenerator\<close>
  (simple_generator.go). The loops over addresses, ports and protocols are \<open>concat (map ...)\<close>
  in the order of the source. The lemmas describe the generated filters field by field: their
  priority band, their action and what they match.
\<close>

section \<open>Priorities\<close>

type_synonym BasePrio = u16

definition BasePrioDefault :: BasePrio where
  [go_consts]: "BasePrioDefault = 300"

definition BasePrioPass :: BasePrio where
  [go_consts]: "BasePrioPass = 200"

definition BasePrioDrop :: BasePrio where
  [go_consts]: "BasePrioDrop = 100"

definition protoToPrioOffset :: "FilterProtocol \<rightharpoonup> u16" where
  "protoToPrioOffset =
     [FilterProtocolIPv4 \<mapsto> 0, FilterProtocolIPv6 \<mapsto> 1, FilterProtocol8021Q \<mapsto> 2]"

text \<open>A missing key of a Go map reads as 0.\<close>

definition PrioFromBaseAndProtcol :: "BasePrio \<Rightarrow> FilterProtocol \<Rightarrow> u16" where
  "PrioFromBaseAndProtcol basePrio proto =
     basePrio + (case protoToPrioOffset proto of None \<Rightarrow> 0 | Some n \<Rightarrow> n)"

section \<open>Filters\<close>

record Objects =
  obj_QDisc :: "QDisc option"
  obj_Filters :: "FlowerFilter list"

definition allProtocols :: "FilterProtocol list" where
  "allProtocols = [FilterProtocolIPv4, FilterProtocolIPv6, FilterProtocol8021Q]"

definition proto_of_IP :: "IP \<Rightarrow> FilterProtocol" where
  "proto_of_IP ip = (if IsIPv4 ip then FilterProtocolIPv4 else FilterProtocolIPv6)"

definition genFiltersWithIPs :: "IPNet list \<Rightarrow> BasePrio \<Rightarrow> GenericAction \<Rightarrow> FlowerFilter list" where
  "genFiltersWithIPs ipCidrs basePrio action =
     concat (map (\<lambda>ipCidr.
       let proto = proto_of_IP (net_IP ipCidr) in
       [Flower_Build (WithAction action (WithMatchKeyDstIP ipCidr
          (Flower_WithPriority (PrioFromBaseAndProtcol basePrio proto)
            (Flower_WithProtocol proto NewFlowerFilterBuilder)))),
        Flower_Build (WithAction action (WithMatchKeyDstIP ipCidr
          (WithMatchKeyVlanEthType (ProtoToFlowerVlanEthType proto)
            (Flower_WithPriority (PrioFromBaseAndProtcol basePrio FilterProtocol8021Q)
              (Flower_WithProtocol FilterProtocol8021Q NewFlowerFilterBuilder)))))]) ipCidrs)"

definition genFiltersWithPorts :: "Port list \<Rightarrow> BasePrio \<Rightarrow> GenericAction \<Rightarrow> FlowerFilter list" where
  "genFiltersWithPorts ports basePrio action =
     concat (map (\<lambda>port. concat (map (\<lambda>proto.
       let prio = PrioFromBaseAndProtcol basePrio proto;
           ipp = PortProtocolToFlowerIPProto (port_Protocol port);
           start = Flower_WithPriority prio (Flower_WithProtocol proto NewFlowerFilterBuilder) in
       if proto = FilterProtocol8021Q then
         [Flower_Build (WithAction action (WithMatchKeyDstPort (port_Number port)
            (WithMatchKeyIPProto ipp (WithMatchKeyVlanEthType FlowerVlanEthTypeIPv4 start)))),
          Flower_Build (WithAction action (WithMatchKeyDstPort (port_Number port)
            (WithMatchKeyIPProto ipp (WithMatchKeyVlanEthType FlowerVlanEthTypeIPv6 start))))]
       else
         [Flower_Build (WithAction action (WithMatchKeyDstPort (port_Number port)
            (WithMatchKeyIPProto ipp start)))]) allProtocols)) ports)"

definition genFiltersWithIPsAndPorts ::
  "IPNet list \<Rightarrow> Port list \<Rightarrow> BasePrio \<Rightarrow> GenericAction \<Rightarrow> FlowerFilter list" where
  "genFiltersWithIPsAndPorts ipCidrs ports basePrio action =
     concat (map (\<lambda>ipCidr.
       let proto = proto_of_IP (net_IP ipCidr) in
       concat (map (\<lambda>port.
         let ipp = PortProtocolToFlowerIPProto (port_Protocol port) in
         [Flower_Build (WithAction action (WithMatchKeyDstPort (port_Number port)
            (WithMatchKeyIPProto ipp (WithMatchKeyDstIP ipCidr
              (Flower_WithPriority (PrioFromBaseAndProtcol basePrio proto)
                (Flower_WithProtocol proto NewFlowerFilterBuilder)))))),
          Flower_Build (WithAction action (WithMatchKeyDstPort (port_Number port)
            (WithMatchKeyIPProto ipp (WithMatchKeyDstIP ipCidr
              (WithMatchKeyVlanEthType (ProtoToFlowerVlanEthType proto)
                (Flower_WithPriority (PrioFromBaseAndProtcol basePrio FilterProtocol8021Q)
                  (Flower_WithProtocol FilterProtocol8021Q NewFlowerFilterBuilder)))))))])
         ports)) ipCidrs)"

definition genFiltersMatchAll :: "BasePrio \<Rightarrow> GenericAction \<Rightarrow> FlowerFilter list" where
  "genFiltersMatchAll basePrio action =
     concat (map (\<lambda>proto.
       let prio = PrioFromBaseAndProtcol basePrio proto;
           start = Flower_WithPriority prio (Flower_WithProtocol proto NewFlowerFilterBuilder) in
       if proto = FilterProtocol8021Q then
         [Flower_Build (WithAction action (WithMatchKeyVlanEthType FlowerVlanEthTypeIPv4 start)),
          Flower_Build (WithAction action (WithMatchKeyVlanEthType FlowerVlanEthTypeIPv6 start))]
       else [Flower_Build (WithAction action start)]) allProtocols)"

definition genFilters ::
  "IPNet list \<Rightarrow> Port list \<Rightarrow> BasePrio \<Rightarrow> GenericAction \<Rightarrow> FlowerFilter list" where
  "genFilters ipCidrs ports basePrio action =
     (let hasIPs = 0 < length ipCidrs; hasPorts = 0 < length ports in
      if hasIPs \<and> hasPorts then genFiltersWithIPsAndPorts ipCidrs ports basePrio action
      else if hasIPs then genFiltersWithIPs ipCidrs basePrio action
      else if hasPorts then genFiltersWithPorts ports basePrio action
      else genFiltersMatchAll basePrio action)"

definition genPassFilters :: "Rule \<Rightarrow> FlowerFilter list" where
  "genPassFilters rule =
     genFilters (rule_IPCidrs rule) (rule_Ports rule) BasePrioPass
       (Action_Build (Action_WithPass NewGenericActionBuiler))"

definition genDropFilters :: "Rule \<Rightarrow> FlowerFilter list" where
  "genDropFilters rule =
     genFilters (rule_IPCidrs rule) (rule_Ports rule) BasePrioDrop
       (Action_Build (Action_WithDrop NewGenericActionBuiler))"

definition genDefaultFilters :: "FlowerFilter list" where
  "genDefaultFilters =
     genFilters [] [] BasePrioDefault (Action_Build (Action_WithDrop NewGenericActionBuiler))"

text \<open>The body of the loop over the rules: the filters of one rule, or an error.\<close>

definition gen_rule :: "Rule \<Rightarrow> error + FlowerFilter list" where
  "gen_rule rule =
     (if rule_Action rule = PolicyActionPass then Inr (genPassFilters rule)
      else if rule_Action rule = PolicyActionDrop then Inr (genDropFilters rule)
      else Inl (Errorf ''unknown policy action for rule.'' [rule_Action rule]))"

definition GenerateFromPolicyRuleSet :: "PolicyRuleSet \<Rightarrow> error + Objects" where
  "GenerateFromPolicyRuleSet ruleSet =
     (if rs_Type ruleSet \<noteq> PolicyTypeEgress
      then Inl (Errorf ''unsupported policy type.'' [rs_Type ruleSet])
      else
        let qdisc = QDisc_Build NewIngressQDiscBuilder in
        case rs_Rules ruleSet of
          None \<Rightarrow> Inr \<lparr>obj_QDisc = Some qdisc, obj_Filters = []\<rparr>
        | Some rules \<Rightarrow>
            (case map_until_error gen_rule rules of
               Inl e \<Rightarrow> Inl e
             | Inr fss \<Rightarrow>
                 Inr \<lparr>obj_QDisc = Some qdisc, obj_Filters = genDefaultFilters @ concat fss\<rparr>))"

section \<open>What a generated filter looks like\<close>

text \<open>
  Every filter of \<open>genFilters\<close> has one of four shapes; \<open>gen_shape\<close> gives the fields of a filter
  with the optional destination and port.
\<close>

definition gen_shape ::
  "FilterProtocol \<Rightarrow> FlowerVlanEthType option \<Rightarrow> IPNet option \<Rightarrow> Port option \<Rightarrow> BasePrio \<Rightarrow>
    GenericAction \<Rightarrow> FlowerFilter" where
  "gen_shape proto vlan net port basePrio action =
     \<lparr>ff_Attrs = \<lparr>fa_Kind = FilterKindFlower, fa_Protocol = proto, fa_Chain = None,
        fa_Handle = None, fa_Priority = Some (PrioFromBaseAndProtcol basePrio proto)\<rparr>,
      ff_Flower = Some \<lparr>fs_VlanEthType = vlan,
        fs_IPProto = map_option (\<lambda>p. PortProtocolToFlowerIPProto (port_Protocol p)) port,
        fs_DstIP = net, fs_DstPort = map_option port_Number port\<rparr>,
      ff_Actions = [action]\<rparr>"

text \<open>The (protocol, VLAN ether type) pairs a rule without addresses is generated for.\<close>

definition any_family :: "(FilterProtocol \<times> FlowerVlanEthType option) set" where
  "any_family =
     {(FilterProtocolIPv4, None), (FilterProtocolIPv6, None),
      (FilterProtocol8021Q, Some FlowerVlanEthTypeIPv4), (FilterProtocol8021Q, Some FlowerVlanEthTypeIPv6)}"

definition family_of :: "IP \<Rightarrow> (FilterProtocol \<times> FlowerVlanEthType option) set" where
  "family_of ip =
     {(proto_of_IP ip, None), (FilterProtocol8021Q, Some (ProtoToFlowerVlanEthType (proto_of_IP ip)))}"

lemma set_genFiltersWithIPs:
  "set (genFiltersWithIPs ns b a) =
     (\<Union>n\<in>set ns. (\<lambda>(p, v). gen_shape p v (Some n) None b a) ` family_of (net_IP n))"
  by (auto simp: genFiltersWithIPs_def builder_simps gen_shape_def family_of_def Let_def)

lemma set_genFiltersMatchAll:
  "set (genFiltersMatchAll b a) = (\<lambda>(p, v). gen_shape p v None None b a) ` any_family"
  by (auto simp: genFiltersMatchAll_def builder_simps gen_shape_def any_family_def allProtocols_def
      Let_def)

lemma set_genFiltersWithPorts:
  "set (genFiltersWithPorts ps b a) =
     (\<Union>q\<in>set ps. (\<lambda>(p, v). gen_shape p v None (Some q) b a) ` any_family)"
  by (auto simp: genFiltersWithPorts_def builder_simps gen_shape_def any_family_def
      allProtocols_def Let_def)

lemma set_genFiltersWithIPsAndPorts:
  "set (genFiltersWithIPsAndPorts ns ps b a) =
     (\<Union>n\<in>set ns. \<Union>q\<in>set ps.
        (\<lambda>(p, v). gen_shape p v (Some n) (Some q) b a) ` family_of (net_IP n))"
  by (auto simp: genFiltersWithIPsAndPorts_def builder_simps gen_shape_def family_of_def Let_def)

text \<open>The optional values a rule field ranges over: \<open>None\<close> alone when the field is empty.\<close>

definition choices :: "'a list \<Rightarrow> 'a option set" where
  "choices xs = (if xs = [] then {None} else Some ` set xs)"

definition families :: "IPNet option \<Rightarrow> (FilterProtocol \<times> FlowerVlanEthType option) set" where
  "families net = (case net of None \<Rightarrow> any_family | Some n \<Rightarrow> family_of (net_IP n))"

lemma set_genFilters:
  "set (genFilters ns ps b a) =
     (\<Union>n\<in>choices ns. \<Union>q\<in>choices ps. (\<lambda>(p, v). gen_shape p v n q b a) ` families n)"
  by (cases "ns = []"; cases "ps = []")
    (auto simp: genFilters_def set_genFiltersWithIPs set_genFiltersMatchAll set_genFiltersWithPorts
      set_genFiltersWithIPsAndPorts choices_def families_def Let_def)

lemma Prio_values [simp]:
  "PrioFromBaseAndProtcol b FilterProtocolIPv4 = b"
  "PrioFromBaseAndProtcol b FilterProtocolIPv6 = b + 1"
  "PrioFromBaseAndProtcol b FilterProtocol8021Q = b + 2"
  by (simp_all add: PrioFromBaseAndProtcol_def protoToPrioOffset_def)

lemma Generate_Inr_iff:
  "GenerateFromPolicyRuleSet rs = Inr objs \<longleftrightarrow>
     rs_Type rs = PolicyTypeEgress \<and>
     obj_QDisc objs = Some (QDisc_Build NewIngressQDiscBuilder) \<and>
     (case rs_Rules rs of
        None \<Rightarrow> obj_Filters objs = []
      | Some rules \<Rightarrow> \<exists>fss. map_until_error gen_rule rules = Inr fss \<and>
          obj_Filters objs = genDefaultFilters @ concat fss)"
  by (cases objs)
    (auto simp: GenerateFromPolicyRuleSet_def Let_def split: option.splits sum.splits)

text \<open>The filters of a generated object, with the band and the action each comes from.\<close>

definition drop_action :: GenericAction where
  "drop_action = \<lparr>controlAction = ActionGenericDrop\<rparr>"

definition pass_action :: GenericAction where
  "pass_action = \<lparr>controlAction = ActionGenericPass\<rparr>"

definition rule_band :: "Rule \<Rightarrow> BasePrio \<times> GenericAction" where
  "rule_band r = (if rule_Action r = PolicyActionPass then (BasePrioPass, pass_action)
                  else (BasePrioDrop, drop_action))"

lemma gen_rule_Inr:
  "gen_rule r = Inr fs \<longleftrightarrow> rule_Action r \<in> {PolicyActionPass, PolicyActionDrop} \<and>
     fs = genFilters (rule_IPCidrs r) (rule_Ports r) (fst (rule_band r)) (snd (rule_band r))"
  by (auto simp: gen_rule_def genPassFilters_def genDropFilters_def builder_simps rule_band_def
      pass_action_def drop_action_def)

lemma set_generated_filters:
  assumes "map_until_error gen_rule rules = Inr fss"
  shows "set (concat fss) =
      (\<Union>r\<in>set rules. set (genFilters (rule_IPCidrs r) (rule_Ports r) (fst (rule_band r)) (snd (rule_band r))))"
    and "r \<in> set rules \<Longrightarrow> rule_Action r \<in> {PolicyActionPass, PolicyActionDrop}"
proof -
  have l: "list_all2 (\<lambda>r fs. gen_rule r = Inr fs) rules fss"
    using assms by (simp add: map_until_error_Inr_iff)
  then have "fss = map (\<lambda>r. genFilters (rule_IPCidrs r) (rule_Ports r) (fst (rule_band r))
      (snd (rule_band r))) rules \<and> (\<forall>r\<in>set rules. rule_Action r \<in> {PolicyActionPass, PolicyActionDrop})"
    by (induction rule: list_all2_induct) (auto simp: gen_rule_Inr)
  then show "set (concat fss) =
      (\<Union>r\<in>set rules. set (genFilters (rule_IPCidrs r) (rule_Ports r) (fst (rule_band r)) (snd (rule_band r))))"
    and "r \<in> set rules \<Longrightarrow> rule_Action r \<in> {PolicyActionPass, PolicyActionDrop}"
    by auto
qed

section \<open>Properties of the generator\<close>

text \<open>
  Where a generated filter comes from: its family, its network and its port, each of a rule if
  there is one, its band and its action.
\<close>

definition filter_parts ::
  "Rule list \<Rightarrow> FilterProtocol \<Rightarrow> FlowerVlanEthType option \<Rightarrow> IPNet option \<Rightarrow> Port option \<Rightarrow> BasePrio \<Rightarrow>
    GenericAction \<Rightarrow> bool" where
  "filter_parts rules p v n q b a \<longleftrightarrow>
     (p, v) \<in> families n \<and> b \<in> {BasePrioDefault, BasePrioPass, BasePrioDrop} \<and>
     a \<in> {drop_action, pass_action} \<and>
     (\<forall>m. n = Some m \<longrightarrow> (\<exists>r\<in>set rules. m \<in> set (rule_IPCidrs r))) \<and>
     (\<forall>x. q = Some x \<longrightarrow> (\<exists>r\<in>set rules. x \<in> set (rule_Ports r)))"

lemma genFilters_parts:
  assumes "f \<in> set (genFilters ns ps b a)" and "b \<in> {BasePrioDefault, BasePrioPass, BasePrioDrop}"
    and "a \<in> {drop_action, pass_action}"
    and "ns \<noteq> [] \<or> ps \<noteq> [] \<Longrightarrow> \<exists>r\<in>set rules. ns = rule_IPCidrs r \<and> ps = rule_Ports r"
  shows "\<exists>p v n q. f = gen_shape p v n q b a \<and> filter_parts rules p v n q b a"
proof -
  obtain p v n q where "f = gen_shape p v n q b a" "(p, v) \<in> families n" "n \<in> choices ns" "q \<in> choices ps"
    using assms(1) unfolding set_genFilters by auto
  moreover have "\<forall>m. n = Some m \<longrightarrow> (\<exists>r\<in>set rules. m \<in> set (rule_IPCidrs r))"
      "\<forall>x. q = Some x \<longrightarrow> (\<exists>r\<in>set rules. x \<in> set (rule_Ports r))"
    using calculation(3,4) assms(4) by (auto simp: choices_def split: if_splits)
  ultimately show ?thesis using assms(2,3) unfolding filter_parts_def by blast
qed

lemma generated_parts:
  assumes "GenerateFromPolicyRuleSet rs = Inr objs" and "f \<in> set (obj_Filters objs)"
  shows "\<exists>p v n q b a. f = gen_shape p v n q b a \<and> filter_parts (elems (rs_Rules rs)) p v n q b a"
proof -
  obtain rules fss where rules: "rs_Rules rs = Some rules" "map_until_error gen_rule rules = Inr fss"
      "obj_Filters objs = genDefaultFilters @ concat fss"
    using assms by (auto simp: Generate_Inr_iff split: option.splits)
  then consider "f \<in> set genDefaultFilters" | "f \<in> set (concat fss)"
    using assms(2) by auto
  then show ?thesis
  proof cases
    case 1
    then have "f \<in> set (genFilters [] [] BasePrioDefault drop_action)"
      by (simp add: genDefaultFilters_def builder_simps drop_action_def)
    from genFilters_parts [OF this] show ?thesis by blast
  next
    case 2
    then obtain r where r: "r \<in> set rules"
      "f \<in> set (genFilters (rule_IPCidrs r) (rule_Ports r) (fst (rule_band r)) (snd (rule_band r)))"
      using set_generated_filters(1) [OF rules(2)] by auto
    have "\<exists>p v n q. f = gen_shape p v n q (fst (rule_band r)) (snd (rule_band r)) \<and>
        filter_parts rules p v n q (fst (rule_band r)) (snd (rule_band r))"
      by (rule genFilters_parts [OF r(2)]) (use r(1) in \<open>auto simp: rule_band_def\<close>)
    then show ?thesis unfolding rules(1) elems_simps by blast
  qed
qed

lemma families_protocols: "(p, v) \<in> families n \<Longrightarrow> p \<in> set allProtocols"
  by (cases n) (auto simp: families_def any_family_def family_of_def allProtocols_def proto_of_IP_def)

lemma generated_shape:
  assumes "GenerateFromPolicyRuleSet rs = Inr objs" and "f \<in> set (obj_Filters objs)"
  shows "\<exists>p v n q b a. f = gen_shape p v n q b a \<and> p \<in> set allProtocols \<and>
    b \<in> {BasePrioDefault, BasePrioPass, BasePrioDrop}"
  using generated_parts [OF assms] families_protocols unfolding filter_parts_def by blast

text \<open>
  C30. Two generated filters of the same priority are for the same protocol (the kernel refuses a
  priority that is in use for another protocol), and every generated filter is a flower filter
  on the default chain with one action and no handle.
\<close>

theorem priority_determines_protocol:
  assumes "GenerateFromPolicyRuleSet rs = Inr objs"
    and "f \<in> set (obj_Filters objs)" and "g \<in> set (obj_Filters objs)"
    and "fa_Priority (ff_Attrs f) = fa_Priority (ff_Attrs g)"
  shows "fa_Protocol (ff_Attrs f) = fa_Protocol (ff_Attrs g) \<and>
    fa_Kind (ff_Attrs f) = FilterKindFlower \<and> fa_Chain (ff_Attrs f) = None \<and>
    fa_Handle (ff_Attrs f) = None \<and> length (ff_Actions f) = 1"
proof -
  obtain p v n q b a where f: "f = gen_shape p v n q b a" "p \<in> set allProtocols"
      "b \<in> {BasePrioDefault, BasePrioPass, BasePrioDrop}"
    using generated_shape assms(1,2) by blast
  obtain p' v' n' q' b' a' where g: "g = gen_shape p' v' n' q' b' a'" "p' \<in> set allProtocols"
      "b' \<in> {BasePrioDefault, BasePrioPass, BasePrioDrop}"
    using generated_shape assms(1,3) by blast
  have "PrioFromBaseAndProtcol b p = PrioFromBaseAndProtcol b' p'"
    using assms(4) f(1) g(1) by (simp add: gen_shape_def)
  moreover have "b \<in> {300, 200, 100}" "b' \<in> {300, 200, 100}"
    using f(3) g(3) by (simp_all add: go_consts)
  ultimately have "p = p'"
    using f(2) g(2) by (auto simp: allProtocols_def)
  then show ?thesis using f(1) g(1) by (simp add: gen_shape_def)
qed

text \<open>
  C33. The generator fails exactly for a rule set that is not an egress one and for a rule whose
  action is neither Pass nor Drop; the first such rule is reported and no objects are returned.
\<close>

theorem generator_errors:
  "GenerateFromPolicyRuleSet rs =
     (if rs_Type rs \<noteq> PolicyTypeEgress then Inl (Errorf ''unsupported policy type.'' [rs_Type rs])
      else case find (\<lambda>r. rule_Action r \<notin> {PolicyActionPass, PolicyActionDrop}) (elems (rs_Rules rs)) of
        Some r \<Rightarrow> Inl (Errorf ''unknown policy action for rule.'' [rule_Action r])
      | None \<Rightarrow> Inr \<lparr>obj_QDisc = Some (QDisc_Build NewIngressQDiscBuilder),
          obj_Filters = (if rs_Rules rs = None then []
            else genDefaultFilters @ concat (map (\<lambda>r.
              if rule_Action r = PolicyActionPass then genPassFilters r else genDropFilters r)
              (elems (rs_Rules rs))))\<rparr>)"
proof -
  have "map_until_error gen_rule rules =
      (case find (\<lambda>r. rule_Action r \<notin> {PolicyActionPass, PolicyActionDrop}) rules of
        Some r \<Rightarrow> Inl (Errorf ''unknown policy action for rule.'' [rule_Action r])
      | None \<Rightarrow> Inr (map (\<lambda>r. if rule_Action r = PolicyActionPass then genPassFilters r
                             else genDropFilters r) rules))" for rules
    by (induction rules) (auto simp: gen_rule_def split: option.splits)
  then show ?thesis
    by (auto simp: GenerateFromPolicyRuleSet_def Let_def split: option.splits)
qed

text \<open>The number of filters of one rule: untagged and tagged, per address and port.\<close>

definition rule_filter_count :: "nat \<Rightarrow> nat \<Rightarrow> nat" where
  "rule_filter_count ips ports =
     (if ips = 0 then 4 * max 1 ports else 2 * ips * max 1 ports)"

lemma length_concat_const: "(\<And>x. x \<in> set xs \<Longrightarrow> length (f x) = k) \<Longrightarrow> length (concat (map f xs)) = k * length xs"
  by (induction xs) auto

lemma length_genFilters: "length (genFilters ns ps b a) = rule_filter_count (length ns) (length ps)"
proof -
  have "length (genFiltersWithIPs ns b a) = 2 * length ns"
    unfolding genFiltersWithIPs_def by (rule length_concat_const) (simp add: Let_def)
  moreover have "length (genFiltersWithPorts ps b a) = 4 * length ps"
    unfolding genFiltersWithPorts_def
    by (rule length_concat_const) (simp add: Let_def allProtocols_def)
  moreover have "length (genFiltersWithIPsAndPorts ns ps b a) = (2 * length ps) * length ns"
    unfolding genFiltersWithIPsAndPorts_def Let_def
    by (rule length_concat_const, rule length_concat_const) simp
  moreover have "length (genFiltersMatchAll b a) = 4"
    by (simp add: genFiltersMatchAll_def allProtocols_def Let_def)
  ultimately show ?thesis
    by (simp add: genFilters_def rule_filter_count_def Let_def max_def Suc_le_eq)
qed

lemma length_genDefaultFilters: "length genDefaultFilters = 4"
  by (simp add: genDefaultFilters_def length_genFilters rule_filter_count_def)

text \<open>
  C40. The number of generated filters: four default ones, and per rule two for each address and
  port (four for each port where the rule has no address).
\<close>

theorem generated_filter_count:
  assumes "GenerateFromPolicyRuleSet rs = Inr objs"
  shows "length (obj_Filters objs) =
    (case rs_Rules rs of None \<Rightarrow> 0
     | Some rules \<Rightarrow> 4 + sum_list (map (\<lambda>r. rule_filter_count (length (rule_IPCidrs r))
         (length (rule_Ports r))) rules))"
proof (cases "rs_Rules rs")
  case None
  with assms show ?thesis by (simp add: Generate_Inr_iff)
next
  case (Some rules)
  then obtain fss where l: "list_all2 (\<lambda>r fs. gen_rule r = Inr fs) rules fss"
    and fs: "obj_Filters objs = genDefaultFilters @ concat fss"
    using assms by (auto simp: Generate_Inr_iff map_until_error_Inr_iff)
  have "length (concat fss) = sum_list (map (\<lambda>r. rule_filter_count (length (rule_IPCidrs r))
         (length (rule_Ports r))) rules)"
    using l by (induction rule: list_all2_induct) (auto simp: gen_rule_Inr length_genFilters)
  then show ?thesis using Some fs by (simp add: length_genDefaultFilters)
qed

end
