(* ===== verification/Packet_Verdict.thy ===== *)
theory Packet_Verdict
  imports Tc_Generator
begin

text \<open>
  The abstract specification the generated filters are checked against. \<open>tc_verdict\<close> is what
  the documentation of \<open>tc\<close> and of its flower classifier says a list of filters on chain 0 does
  with a packet: the filters are tried in the order of their priority (\<open>pref\<close>, smaller first)
  and the action of the first one that matches decides. \<open>policy_verdict\<close> is what the rule set
  means: a drop rule wins over a pass rule, and an IP packet no rule matches is dropped.
  These definitions specify the environment and the intent; they are not code of the program.
\<close>

section \<open>Packets\<close>

text \<open>
  A packet as the flower classifier sees it: whether it carries an 802.1Q tag, the (inner) ether
  type, named as the classifier names it, and the destination of the IP header.
\<close>

record Packet =
  pk_Tagged :: bool
  pk_EthType :: string
  pk_DstIP :: "u8 list"
  pk_IPProto :: string
  pk_DstPort :: u16

definition is_ip_packet :: "Packet \<Rightarrow> bool" where
  "is_ip_packet pk \<longleftrightarrow> pk_EthType pk = FlowerVlanEthTypeIPv4 \<or> pk_EthType pk = FlowerVlanEthTypeIPv6"

definition net_contains :: "IPNet \<Rightarrow> u8 list \<Rightarrow> bool" where
  "net_contains n dst =
     (case networkNumberAndMask n of
        None \<Rightarrow> False
      | Some (ip, m) \<Rightarrow>
          length ip = length dst \<and> map2 (AND) ip m = map2 (AND) dst m)"

section \<open>Filters on packets\<close>

definition protocol_matches :: "FilterProtocol \<Rightarrow> Packet \<Rightarrow> bool" where
  "protocol_matches p pk \<longleftrightarrow>
     (if p = FilterProtocolAll then True
      else if p = FilterProtocol8021Q then pk_Tagged pk
      else \<not> pk_Tagged pk \<and> p = pk_EthType pk)"

definition spec_matches :: "FlowerSpec \<Rightarrow> Packet \<Rightarrow> bool" where
  "spec_matches s pk \<longleftrightarrow>
     (case fs_VlanEthType s of None \<Rightarrow> True | Some v \<Rightarrow> pk_Tagged pk \<and> pk_EthType pk = v) \<and>
     (case fs_IPProto s of None \<Rightarrow> True | Some p \<Rightarrow> is_ip_packet pk \<and> pk_IPProto pk = p) \<and>
     (case fs_DstIP s of None \<Rightarrow> True | Some n \<Rightarrow> is_ip_packet pk \<and> net_contains n (pk_DstIP pk)) \<and>
     (case fs_DstPort s of None \<Rightarrow> True | Some p \<Rightarrow> is_ip_packet pk \<and> pk_DstPort pk = p)"

definition filter_matches :: "FlowerFilter \<Rightarrow> Packet \<Rightarrow> bool" where
  "filter_matches f pk \<longleftrightarrow>
     protocol_matches (fa_Protocol (ff_Attrs f)) pk \<and>
     (case ff_Flower f of None \<Rightarrow> True | Some s \<Rightarrow> spec_matches s pk)"

definition filter_prio :: "FlowerFilter \<Rightarrow> u16" where
  "filter_prio f = (case fa_Priority (ff_Attrs f) of None \<Rightarrow> 0 | Some p \<Rightarrow> p)"

datatype verdict = Unmatched | Decided ActionGenericType | Ambiguous

definition winning :: "FlowerFilter list \<Rightarrow> Packet \<Rightarrow> FlowerFilter list" where
  "winning fs pk =
     (let ms = filter (\<lambda>f. filter_matches f pk) fs in
      filter (\<lambda>f. list_all (\<lambda>g. filter_prio f \<le> filter_prio g) ms) ms)"

definition tc_verdict :: "FlowerFilter list \<Rightarrow> Packet \<Rightarrow> verdict" where
  "tc_verdict fs pk =
     (case remdups (map (\<lambda>f. map controlAction (ff_Actions f)) (winning fs pk)) of
        [] \<Rightarrow> Unmatched
      | [[a]] \<Rightarrow> Decided a
      | _ \<Rightarrow> Ambiguous)"

section \<open>Rules on packets\<close>

definition net_applies :: "IPNet \<Rightarrow> Packet \<Rightarrow> bool" where
  "net_applies n pk \<longleftrightarrow>
     pk_EthType pk = ProtoToFlowerVlanEthType (proto_of_IP (net_IP n)) \<and> net_contains n (pk_DstIP pk)"

definition port_applies :: "Port \<Rightarrow> Packet \<Rightarrow> bool" where
  "port_applies p pk \<longleftrightarrow>
     pk_IPProto pk = PortProtocolToFlowerIPProto (port_Protocol p) \<and> pk_DstPort pk = port_Number p"

definition rule_applies :: "Rule \<Rightarrow> Packet \<Rightarrow> bool" where
  "rule_applies r pk \<longleftrightarrow> is_ip_packet pk \<and>
     (rule_IPCidrs r = [] \<or> list_ex (\<lambda>n. net_applies n pk) (rule_IPCidrs r)) \<and>
     (rule_Ports r = [] \<or> list_ex (\<lambda>p. port_applies p pk) (rule_Ports r))"

definition some_rule :: "PolicyAction \<Rightarrow> Rule list \<Rightarrow> Packet \<Rightarrow> bool" where
  "some_rule act rules pk \<longleftrightarrow> list_ex (\<lambda>r. rule_Action r = act \<and> rule_applies r pk) rules"

definition policy_verdict :: "Rule list \<Rightarrow> Packet \<Rightarrow> verdict" where
  "policy_verdict rules pk =
     (if \<not> is_ip_packet pk then Unmatched
      else if some_rule PolicyActionDrop rules pk then Decided ActionGenericDrop
      else if some_rule PolicyActionPass rules pk then Decided ActionGenericPass
      else Decided ActionGenericDrop)"

section \<open>Matching of generated filters\<close>

text \<open>The priority offset of the protocol that a packet matches.\<close>

definition packet_offset :: "Packet \<Rightarrow> u16" where
  "packet_offset pk =
     (if pk_Tagged pk then 2 else if pk_EthType pk = FlowerVlanEthTypeIPv6 then 1 else 0)"

lemma eth_names [simp]:
  "FlowerVlanEthTypeIPv4 = FilterProtocolIPv4" "FlowerVlanEthTypeIPv6 = FilterProtocolIPv6"
  by (simp_all add: go_consts)

lemma proto_names [simp]:
  "FilterProtocolIPv4 \<noteq> FilterProtocolAll" "FilterProtocolIPv6 \<noteq> FilterProtocolAll"
  "FilterProtocol8021Q \<noteq> FilterProtocolAll"
  by (simp_all add: go_consts)

lemma shape_matches:
  "filter_matches (gen_shape p v n q b a) pk \<longleftrightarrow>
     protocol_matches p pk \<and>
     (case v of None \<Rightarrow> True | Some e \<Rightarrow> pk_Tagged pk \<and> pk_EthType pk = e) \<and>
     (case n of None \<Rightarrow> True | Some m \<Rightarrow> is_ip_packet pk \<and> net_contains m (pk_DstIP pk)) \<and>
     (case q of None \<Rightarrow> True | Some r \<Rightarrow> is_ip_packet pk \<and> port_applies r pk)"
  by (auto simp: gen_shape_def filter_matches_def spec_matches_def port_applies_def
      split: option.splits)

text \<open>
  Of the filters generated for one choice of destination and port, some filter matches exactly
  when the packet is an IP packet that the choice applies to.
\<close>

lemma family_matches:
  "(\<exists>(p, v)\<in>families n. protocol_matches p pk \<and>
      (case v of None \<Rightarrow> True | Some e \<Rightarrow> pk_Tagged pk \<and> pk_EthType pk = e)) \<longleftrightarrow>
   is_ip_packet pk \<and>
     (case n of None \<Rightarrow> True
      | Some m \<Rightarrow> pk_EthType pk = ProtoToFlowerVlanEthType (proto_of_IP (net_IP m)))"
  by (cases n; cases "pk_Tagged pk")
    (auto simp: families_def any_family_def family_of_def protocol_matches_def is_ip_packet_def
      proto_of_IP_def ProtoToFlowerVlanEthType_def)

lemma filter_prio_shape [simp]:
  "filter_prio (gen_shape p v n q b a) = PrioFromBaseAndProtcol b p"
  by (simp add: filter_prio_def gen_shape_def)

lemma matching_prio:
  assumes "(p, v) \<in> families n" and "filter_matches (gen_shape p v n q b a) pk"
  shows "PrioFromBaseAndProtcol b p = b + packet_offset pk"
  using assms
  by (cases n)
    (auto simp: shape_matches families_def any_family_def family_of_def protocol_matches_def
      proto_of_IP_def ProtoToFlowerVlanEthType_def packet_offset_def split: if_splits)

lemma genFilters_match_iff:
  "(\<exists>f\<in>set (genFilters ns ps b a). filter_matches f pk) \<longleftrightarrow>
     is_ip_packet pk \<and> (ns = [] \<or> list_ex (\<lambda>n. net_applies n pk) ns) \<and>
     (ps = [] \<or> list_ex (\<lambda>q. port_applies q pk) ps)"
proof -
  have "(\<exists>f\<in>set (genFilters ns ps b a). filter_matches f pk) \<longleftrightarrow>
      (\<exists>n\<in>choices ns. \<exists>q\<in>choices ps.
        (\<exists>(p, v)\<in>families n. protocol_matches p pk \<and>
          (case v of None \<Rightarrow> True | Some e \<Rightarrow> pk_Tagged pk \<and> pk_EthType pk = e)) \<and>
        (case n of None \<Rightarrow> True | Some m \<Rightarrow> is_ip_packet pk \<and> net_contains m (pk_DstIP pk)) \<and>
        (case q of None \<Rightarrow> True | Some r \<Rightarrow> is_ip_packet pk \<and> port_applies r pk))"
  proof -
    have "(\<exists>f\<in>set (genFilters ns ps b a). filter_matches f pk) \<longleftrightarrow>
        (\<exists>n\<in>choices ns. \<exists>q\<in>choices ps. \<exists>(p, v)\<in>families n. filter_matches (gen_shape p v n q b a) pk)"
      unfolding set_genFilters by (simp add: split_beta)
    then show ?thesis by (simp add: shape_matches split_beta cong: conj_cong) blast
  qed
  also have "\<dots> \<longleftrightarrow> (\<exists>n\<in>choices ns. \<exists>q\<in>choices ps. is_ip_packet pk \<and>
        (case n of None \<Rightarrow> True | Some m \<Rightarrow> net_applies m pk) \<and>
        (case q of None \<Rightarrow> True | Some r \<Rightarrow> port_applies r pk))"
    unfolding family_matches
    by (intro bex_cong refl) (auto simp: net_applies_def split: option.splits)
  also have "\<dots> \<longleftrightarrow> is_ip_packet pk \<and> (ns = [] \<or> list_ex (\<lambda>n. net_applies n pk) ns) \<and>
     (ps = [] \<or> list_ex (\<lambda>q. port_applies q pk) ps)"
    by (auto simp: choices_def list_ex_iff)
  finally show ?thesis .
qed

lemma genFilters_matching:
  assumes "f \<in> set (genFilters ns ps b a)" and "filter_matches f pk"
  shows "filter_prio f = b + packet_offset pk" and "ff_Actions f = [a]"
proof -
  obtain n q p v where f: "f = gen_shape p v n q b a" "(p, v) \<in> families n"
    using assms(1) unfolding set_genFilters by auto
  with assms(2) show "filter_prio f = b + packet_offset pk" by (simp add: matching_prio)
  show "ff_Actions f = [a]" by (simp add: f gen_shape_def)
qed

section \<open>The verdict of a list of filters\<close>

text \<open>
  \<open>tc_verdict\<close> is decided by any set of matching filters whose priority is minimal and whose
  actions agree.
\<close>

lemma tc_verdict_Unmatched: "\<forall>f\<in>set fs. \<not> filter_matches f pk \<Longrightarrow> tc_verdict fs pk = Unmatched"
  by (simp add: tc_verdict_def winning_def filter_False)

lemma set_winning:
  "set (winning fs pk) =
     {f \<in> set fs. filter_matches f pk \<and>
        (\<forall>g\<in>set fs. filter_matches g pk \<longrightarrow> filter_prio f \<le> filter_prio g)}"
  by (auto simp: winning_def Let_def list_all_iff)

lemma remdups_all_same: "set xs = {x} \<Longrightarrow> remdups xs = [x]"
proof -
  assume x: "set xs = {x}"
  then have "length (remdups xs) = 1" by (simp add: length_remdups_card_conv)
  then obtain y where y: "remdups xs = [y]" by (auto simp: length_Suc_conv)
  with x show ?thesis by (metis list.simps(15) list.set(1) set_remdups singleton_insert_inj_eq)
qed

lemma tc_verdict_Decided:
  assumes "g \<in> set fs" and "filter_matches g pk" and "filter_prio g = p"
    and "\<And>f. f \<in> set fs \<Longrightarrow> filter_matches f pk \<Longrightarrow> p \<le> filter_prio f"
    and "\<And>f. f \<in> set fs \<Longrightarrow> filter_matches f pk \<Longrightarrow> filter_prio f = p \<Longrightarrow> map controlAction (ff_Actions f) = [a]"
  shows "tc_verdict fs pk = Decided a"
proof -
  have g: "g \<in> set (winning fs pk)" using assms by (simp add: set_winning)
  have "map controlAction (ff_Actions f) = [a]" if "f \<in> set (winning fs pk)" for f
  proof -
    from that assms(1,2) have "f \<in> set fs" "filter_matches f pk" "filter_prio f \<le> filter_prio g"
      by (auto simp: set_winning)
    with assms(3,4) have "filter_prio f = p" by (simp add: order_antisym)
    with assms(5) \<open>f \<in> set fs\<close> \<open>filter_matches f pk\<close> show ?thesis by simp
  qed
  with g have "set (map (\<lambda>f. map controlAction (ff_Actions f)) (winning fs pk)) = {[a]}"
    by auto
  then show ?thesis by (simp only: tc_verdict_def remdups_all_same) simp
qed

section \<open>An example\<close>

text \<open>
  Pods may talk to 10.0.0.0/8 on TCP port 80, except 10.1.0.0/16: the rule set the witnesses use.
\<close>

definition ex_net :: "u8 \<Rightarrow> u8 \<Rightarrow> nat \<Rightarrow> IPNet" where
  "ex_net a b len = \<lparr>net_IP = [a, b, 0, 0], net_Mask = CIDRMask len 32\<rparr>"

definition ex_port :: Port where
  "ex_port = \<lparr>port_Protocol = ProtocolTCP, port_Number = 80\<rparr>"

definition ex_rules :: "Rule list" where
  "ex_rules =
     [\<lparr>rule_IPCidrs = [ex_net 10 0 8], rule_Ports = [ex_port], rule_Action = PolicyActionPass\<rparr>,
      \<lparr>rule_IPCidrs = [ex_net 10 1 16], rule_Ports = [ex_port], rule_Action = PolicyActionDrop\<rparr>]"

definition ex_ifc :: RuleInterface where
  "ex_ifc = \<lparr>ri_Network = ''default/net1'', ri_InterfaceName = ''net1'', ri_IPs = [], ri_DeviceID = ''0000:03:00.4''\<rparr>"

definition ex_rule_set :: PolicyRuleSet where
  "ex_rule_set = \<lparr>rs_IfcInfo = ex_ifc, rs_Type = PolicyTypeEgress, rs_Rules = Some ex_rules\<rparr>"

definition ex_packet :: "u8 \<Rightarrow> Packet" where
  "ex_packet b = \<lparr>pk_Tagged = True, pk_EthType = FlowerVlanEthTypeIPv4, pk_DstIP = [10, b, 0, 7],
     pk_IPProto = FlowerIPProtoTCP, pk_DstPort = 80\<rparr>"

lemma ex_generates: "\<exists>objs. GenerateFromPolicyRuleSet ex_rule_set = Inr objs"
  by (simp add: GenerateFromPolicyRuleSet_def ex_rule_set_def ex_rules_def gen_rule_def Let_def)

section \<open>The generator implements the policy\<close>

text \<open>Where a matching filter of a generated object comes from.\<close>

lemma generated_match:
  assumes "map_until_error gen_rule rules = Inr fss"
    and "f \<in> set (genDefaultFilters @ concat fss)" and "filter_matches f pk"
  shows "is_ip_packet pk \<and>
    (filter_prio f = BasePrioDefault + packet_offset pk \<and> ff_Actions f = [drop_action] \<or>
     filter_prio f = BasePrioPass + packet_offset pk \<and> ff_Actions f = [pass_action] \<and>
       some_rule PolicyActionPass rules pk \<or>
     filter_prio f = BasePrioDrop + packet_offset pk \<and> ff_Actions f = [drop_action] \<and>
       some_rule PolicyActionDrop rules pk)"
proof -
  consider (default) "f \<in> set genDefaultFilters" | (rule) "f \<in> set (concat fss)"
    using assms(2) by auto
  then show ?thesis
  proof cases
    case default
    then have f: "f \<in> set (genFilters [] [] BasePrioDefault drop_action)"
      by (simp add: genDefaultFilters_def builder_simps drop_action_def)
    then have "is_ip_packet pk" using assms(3) genFilters_match_iff by blast
    with genFilters_matching [OF f assms(3)] show ?thesis by simp
  next
    case rule
    then obtain r where r: "r \<in> set rules"
      and f: "f \<in> set (genFilters (rule_IPCidrs r) (rule_Ports r) (fst (rule_band r)) (snd (rule_band r)))"
      using set_generated_filters(1) [OF assms(1)] by auto
    have "rule_applies r pk"
      using f assms(3) genFilters_match_iff [of "rule_IPCidrs r" "rule_Ports r" _ _ pk]
      by (auto simp: rule_applies_def)
    then have "is_ip_packet pk" and "some_rule (rule_Action r) rules pk"
      using r by (auto simp: rule_applies_def some_rule_def list_ex_iff)
    moreover have "rule_Action r = PolicyActionPass \<or> rule_Action r = PolicyActionDrop"
      using set_generated_filters(2) [OF assms(1) r] by simp
    ultimately show ?thesis
      using genFilters_matching [OF f assms(3)] by (auto simp: rule_band_def)
  qed
qed

lemma default_exists:
  assumes "is_ip_packet pk"
  shows "\<exists>g\<in>set genDefaultFilters. filter_matches g pk \<and>
    filter_prio g = BasePrioDefault + packet_offset pk"
proof -
  have eq: "genDefaultFilters = genFilters [] [] BasePrioDefault drop_action"
    by (simp add: genDefaultFilters_def builder_simps drop_action_def)
  then obtain g where "g \<in> set genDefaultFilters" "filter_matches g pk"
    using assms genFilters_match_iff [of "[]" "[]" BasePrioDefault drop_action pk] by auto
  with eq show ?thesis using genFilters_matching(1) by metis
qed

lemma rule_filter_exists:
  assumes "map_until_error gen_rule rules = Inr fss" and "some_rule act rules pk"
  shows "\<exists>g\<in>set (concat fss). filter_matches g pk \<and>
    filter_prio g = (if act = PolicyActionPass then BasePrioPass else BasePrioDrop) + packet_offset pk"
proof -
  obtain r where r: "r \<in> set rules" "rule_Action r = act" "rule_applies r pk"
    using assms(2) by (auto simp: some_rule_def list_ex_iff)
  let ?gs = "genFilters (rule_IPCidrs r) (rule_Ports r) (fst (rule_band r)) (snd (rule_band r))"
  have "\<exists>g\<in>set ?gs. filter_matches g pk"
    using r(3) by (simp add: genFilters_match_iff rule_applies_def)
  then obtain g where g: "g \<in> set ?gs" "filter_matches g pk" by blast
  show ?thesis
  proof (rule bexI [of _ g])
    show "filter_matches g pk \<and> filter_prio g =
        (if act = PolicyActionPass then BasePrioPass else BasePrioDrop) + packet_offset pk"
      using g(2) genFilters_matching(1) [OF g] r(2) by (simp add: rule_band_def)
    show "g \<in> set (concat fss)"
      using set_generated_filters(1) [OF assms(1)] r(1) g(1) by blast
  qed
qed

lemma bands_ordered:
  "BasePrioDrop + packet_offset pk < BasePrioPass + packet_offset pk"
  "BasePrioPass + packet_offset pk < BasePrioDefault + packet_offset pk"
  by (simp_all add: packet_offset_def go_consts)

lemma generated_verdict:
  assumes "GenerateFromPolicyRuleSet rs = Inr objs" and "rs_Rules rs = Some rules"
  shows "tc_verdict (obj_Filters objs) pk = policy_verdict rules pk"
proof -
  obtain fss where fss: "map_until_error gen_rule rules = Inr fss"
    and fs: "obj_Filters objs = genDefaultFilters @ concat fss"
    using assms by (auto simp: Generate_Inr_iff)
  note match = generated_match [OF fss]
  note some = rule_filter_exists [OF fss, of _ pk]
  note bands = bands_ordered [of pk]
  consider (other) "\<not> is_ip_packet pk"
    | (drop) "is_ip_packet pk" "some_rule PolicyActionDrop rules pk"
    | (pass) "is_ip_packet pk" "\<not> some_rule PolicyActionDrop rules pk" "some_rule PolicyActionPass rules pk"
    | (none) "is_ip_packet pk" "\<not> some_rule PolicyActionDrop rules pk" "\<not> some_rule PolicyActionPass rules pk"
    by blast
  then show ?thesis
  proof cases
    case other
    then have "\<forall>f\<in>set (obj_Filters objs). \<not> filter_matches f pk"
      using match by (fastforce simp: fs)
    with other show ?thesis by (simp add: tc_verdict_Unmatched policy_verdict_def)
  next
    case drop
    obtain g where "g \<in> set (concat fss)" "filter_matches g pk"
      "filter_prio g = BasePrioDrop + packet_offset pk"
      using some [OF drop(2)] by auto
    then have "tc_verdict (obj_Filters objs) pk = Decided ActionGenericDrop"
      unfolding fs using match bands
      by (intro tc_verdict_Decided [of g _ _ "BasePrioDrop + packet_offset pk"])
        (fastforce simp: drop_action_def)+
    with drop show ?thesis by (simp add: policy_verdict_def)
  next
    case pass
    obtain g where "g \<in> set (concat fss)" "filter_matches g pk"
      "filter_prio g = BasePrioPass + packet_offset pk"
      using some [OF pass(3)] by auto
    then have "tc_verdict (obj_Filters objs) pk = Decided ActionGenericPass"
      unfolding fs using match bands pass(2)
      by (intro tc_verdict_Decided [of g _ _ "BasePrioPass + packet_offset pk"])
        (fastforce simp: pass_action_def)+
    with pass show ?thesis by (simp add: policy_verdict_def)
  next
    case none
    obtain g where "g \<in> set genDefaultFilters" "filter_matches g pk"
      "filter_prio g = BasePrioDefault + packet_offset pk"
      using default_exists [OF none(1)] by auto
    then have "tc_verdict (obj_Filters objs) pk = Decided ActionGenericDrop"
      unfolding fs using match bands none(2,3)
      by (intro tc_verdict_Decided [of g _ _ "BasePrioDefault + packet_offset pk"])
        (fastforce simp: drop_action_def)+
    with none show ?thesis by (simp add: policy_verdict_def)
  qed
qed

text \<open>
  C6. The filters generated for a rule set decide every packet as the rule set says: a drop rule
  that applies wins, then a pass rule, an IP packet that no rule applies to is dropped, and a
  packet that is not IP is left alone. The verdict is never ambiguous: filters of equal priority
  that match the same packet have the same action.
\<close>

theorem generated_filters_verdict:
  assumes "GenerateFromPolicyRuleSet rs = Inr objs" and "rs_Rules rs = Some rules"
  shows "tc_verdict (obj_Filters objs) pk = policy_verdict rules pk"
  using generated_verdict [OF assms] .

theorem generated_filters_verdict_witness:
  "\<exists>objs. GenerateFromPolicyRuleSet ex_rule_set = Inr objs \<and>
     tc_verdict (obj_Filters objs) (ex_packet 2) = Decided ActionGenericPass \<and>
     tc_verdict (obj_Filters objs) (ex_packet 1) = Decided ActionGenericDrop"
proof -
  obtain objs where g: "GenerateFromPolicyRuleSet ex_rule_set = Inr objs"
    using ex_generates by blast
  have "rs_Rules ex_rule_set = Some ex_rules" by (simp add: ex_rule_set_def)
  note v = generated_filters_verdict [OF g this]
  have "policy_verdict ex_rules (ex_packet 2) = Decided ActionGenericPass"
    and "policy_verdict ex_rules (ex_packet 1) = Decided ActionGenericDrop"
    by code_simp+
  then show ?thesis using g v by auto
qed

theorem priority_determines_protocol_witness:
  "\<exists>objs f. GenerateFromPolicyRuleSet ex_rule_set = Inr objs \<and> f \<in> set (obj_Filters objs) \<and>
     fa_Kind (ff_Attrs f) = FilterKindFlower"
proof -
  obtain objs where g: "GenerateFromPolicyRuleSet ex_rule_set = Inr objs"
    using ex_generates by blast
  then have "4 \<le> length (obj_Filters objs)"
    by (auto simp: Generate_Inr_iff ex_rule_set_def length_genDefaultFilters)
  then have "obj_Filters objs \<noteq> []" by auto
  then obtain f where f: "f \<in> set (obj_Filters objs)" by (meson list.set_sel(1))
  from priority_determines_protocol [OF g f f refl] g f show ?thesis by blast
qed

theorem generated_filter_count_witness:
  "\<exists>objs. GenerateFromPolicyRuleSet ex_rule_set = Inr objs \<and> length (obj_Filters objs) = 8"
proof -
  obtain objs where g: "GenerateFromPolicyRuleSet ex_rule_set = Inr objs"
    using ex_generates by blast
  from generated_filter_count [OF g] g show ?thesis
    by (simp add: ex_rule_set_def ex_rules_def rule_filter_count_def)
qed

end
