(* ===== verification/Tc_Actuator.thy ===== *)
theory Tc_Actuator
  imports Packet_Verdict
begin

text \<open>
  Model of \<open>pkg/tc/interface.go\<close> and \<open>pkg/tc/actuator_tc.go\<close>. The interface \<open>TC\<close> is a record of
  operations on a world of any type; \<open>Actuate\<close> is the whole method, with every call in the
  order of the source and every early return. \<open>tc_contract\<close> is what the comments of the
  interface promise of an implementation (that is, of the driver and the kernel behind it): a
  view \<open>inst\<close> of the world gives the installed filters, and each operation changes it as
  documented. The theorems say that \<open>Actuate\<close> makes the installed filters the wanted ones, that
  it never removes a wanted filter or adds an unwanted one, even when it fails half-way, and
  that it does nothing when the filters are already right.
\<close>

section \<open>The interface\<close>

record 'w TC =
  tc_QDiscAdd :: "QDisc \<Rightarrow> 'w \<Rightarrow> error option \<times> 'w"
  tc_QDiscDel :: "QDisc \<Rightarrow> 'w \<Rightarrow> error option \<times> 'w"
  tc_QDiscList :: "'w \<Rightarrow> (error + QDisc list) \<times> 'w"
  tc_FilterAdd :: "QDisc \<Rightarrow> FlowerFilter \<Rightarrow> 'w \<Rightarrow> error option \<times> 'w"
  tc_FilterDel :: "QDisc \<Rightarrow> FilterAttrs \<Rightarrow> 'w \<Rightarrow> error option \<times> 'w"
  tc_FilterList :: "QDisc \<Rightarrow> 'w \<Rightarrow> (error + FlowerFilter list) \<times> 'w"
  tc_ChainAdd :: "QDisc \<Rightarrow> Chain \<Rightarrow> 'w \<Rightarrow> error option \<times> 'w"
  tc_ChainDel :: "QDisc \<Rightarrow> Chain \<Rightarrow> 'w \<Rightarrow> error option \<times> 'w"
  tc_ChainList :: "QDisc \<Rightarrow> 'w \<Rightarrow> (error + Chain list) \<times> 'w"

section \<open>Actuate\<close>

text \<open>No filters are wanted: delete chain 0 if it is listed (lines 51 to 64).\<close>

fun delete_chain_zero :: "'w TC \<Rightarrow> QDisc \<Rightarrow> Chain list \<Rightarrow> 'w \<Rightarrow> error option \<times> 'w" where
  "delete_chain_zero api qd [] w = (None, w)"
| "delete_chain_zero api qd (c # cs) w =
     (case ch_Chain c of
        None \<Rightarrow> (Some (Panic ''nil pointer dereference''), w)
      | Some n \<Rightarrow>
          if n = 0 then tc_ChainDel api qd (Chain_Build (Chain_WithChain 0 NewChainBuilder)) w
          else delete_chain_zero api qd cs w)"

definition actuate_no_filters :: "'w TC \<Rightarrow> QDisc \<Rightarrow> 'w \<Rightarrow> error option \<times> 'w" where
  "actuate_no_filters api qd w =
     (case tc_ChainList api (QDisc_Build NewIngressQDiscBuilder) w of
        (Inl e, w1) \<Rightarrow> (Some e, w1)
      | (Inr cs, w1) \<Rightarrow> delete_chain_zero api qd cs w1)"

text \<open>Bring the filters of the qdisc to the wanted ones (lines 73 to 114).\<close>

definition actuate_filters :: "'w TC \<Rightarrow> QDisc \<Rightarrow> FlowerFilter list \<Rightarrow> 'w \<Rightarrow> error option \<times> 'w" where
  "actuate_filters api qd wanted w =
     (case tc_FilterList api qd w of
        (Inl e, w1) \<Rightarrow> (Some e, w1)
      | (Inr existing, w1) \<Rightarrow>
          let existingFilterSet = foldl Set_Add NewFilterSetImpl existing;
              newFilterSet = foldl Set_Add NewFilterSetImpl wanted
          in if Set_Equals existingFilterSet newFilterSet then (None, w1)
             else
               let toRemove = Set_List (Set_Difference existingFilterSet newFilterSet);
                   toAdd = Set_List (Set_Difference newFilterSet existingFilterSet)
               in case each_until_error (\<lambda>f. tc_FilterDel api qd (ff_Attrs f)) toRemove w1 of
                    (Some e, w2) \<Rightarrow> (Some e, w2)
                  | (None, w2) \<Rightarrow> each_until_error (tc_FilterAdd api qd) toAdd w2)"

definition Actuate :: "'w TC \<Rightarrow> Objects \<Rightarrow> 'w \<Rightarrow> error option \<times> 'w" where
  "Actuate api objects w =
     (if obj_QDisc objects = None \<and> 0 < length (obj_Filters objects)
      then (Some (Errorf ''Qdisc cannot be nil if Filters are provided'' []), w)
      else case tc_QDiscList api w of
        (Inl e, w1) \<Rightarrow> (Some (Wrap ''failed to list qdiscs'' e), w1)
      | (Inr currentQDiscs, w1) \<Rightarrow>
          let ingressQDiscExist = list_ex (\<lambda>q. qd_Type q = QDiscIngressType) currentQDiscs in
          case obj_QDisc objects of
            None \<Rightarrow>
              if ingressQDiscExist then tc_QDiscDel api (QDisc_Build NewIngressQDiscBuilder) w1
              else (None, w1)
          | Some qd \<Rightarrow>
              if length (obj_Filters objects) = 0 then actuate_no_filters api qd w1
              else (case (if \<not> ingressQDiscExist then tc_QDiscAdd api qd w1 else (None, w1)) of
                      (Some e, w2) \<Rightarrow> (Some e, w2)
                    | (None, w2) \<Rightarrow> actuate_filters api qd (obj_Filters objects) w2))"

section \<open>The two differences\<close>

text \<open>What is to be removed and added, as sets of normal forms.\<close>

lemma to_remove:
  fixes es ws :: "FlowerFilter list"
  defines "rs \<equiv> Set_List (Set_Difference (set_of_filters es) (set_of_filters ws))"
  shows "norm_filter ` set rs = norm_filter ` set es - norm_filter ` set ws" and "set rs \<subseteq> set es"
proof -
  show "norm_filter ` set rs = norm_filter ` set es - norm_filter ` set ws"
    using fset2.diff_keys [OF set_of_filters(1)] set_of_filters(2)
    by (simp add: rs_def Set_List_def)
  have "set rs \<subseteq> set (items (set_of_filters es))"
    using fset2.diff_list [OF set_of_filters(1)] by (auto simp: rs_def Set_List_def)
  then show "set rs \<subseteq> set es" using set_of_filters(3) by blast
qed

lemma sets_equal:
  "Set_Equals (set_of_filters es) (set_of_filters ws) \<longleftrightarrow> norm_filter ` set es = norm_filter ` set ws"
  using fset2.eq_keys [OF set_of_filters(1) set_of_filters(1)]
  by (simp add: Set_List_def set_of_filters(2))

section \<open>Without filters\<close>

lemma delete_chain_zero_all:
  "\<forall>c\<in>set cs. ch_Chain c \<noteq> None \<Longrightarrow> delete_chain_zero api qd cs w =
     (if Some 0 \<in> ch_Chain ` set cs
      then tc_ChainDel api qd \<lparr>ch_Parent = None, ch_Chain = Some 0\<rparr> w else (None, w))"
proof -
  have zero: "Chain_Build (Chain_WithChain 0 NewChainBuilder) = \<lparr>ch_Parent = None, ch_Chain = Some 0\<rparr>"
    by (simp add: Chain_Build_def NewChainImpl_def Chain_WithChain_def NewChainBuilder_def)
  show "\<forall>c\<in>set cs. ch_Chain c \<noteq> None \<Longrightarrow> ?thesis"
    by (induction cs) (auto simp: zero)
qed

section \<open>The contract of an implementation\<close>

text \<open>
  \<open>inst w\<close> are the filters installed on the qdisc \<open>q\<close>. Listing reports them all, in any
  order; deleting removes the ones with the given attributes (handle included), provided these
  are attributes a device can list; adding a filter that the driver can express (\<open>good\<close>) installs
  a filter that is equal up to its handle, under attributes not in use; the chains of all filters
  are listed, and deleting a chain removes the filters in it. A call that fails changes nothing.
  Both drivers keep this contract (\<open>Netlink_Contract\<close>, \<open>Cmdline_Contract\<close>).
\<close>

definition listable :: "('w \<Rightarrow> FlowerFilter set) \<Rightarrow> FilterAttrs \<Rightarrow> bool" where
  "listable inst a \<longleftrightarrow> (\<exists>v. a \<in> ff_Attrs ` inst v)"

abbreviation ingress :: QDisc where
  "ingress \<equiv> QDisc_Build NewIngressQDiscBuilder"

text \<open>The number of the chain a filter is in.\<close>

definition chain_no :: "FlowerFilter \<Rightarrow> u32" where
  "chain_no f = (case fa_Chain (ff_Attrs f) of None \<Rightarrow> ChainDefaultChain | Some c \<Rightarrow> c)"

locale tc_contract =
  fixes api :: "'w TC" and q :: QDisc and inst :: "'w \<Rightarrow> FlowerFilter set" and good :: "FlowerFilter \<Rightarrow> bool"
  assumes qdisc_list: "tc_QDiscList api w = (l, w') \<Longrightarrow> inst w' = inst w"
    and qdisc_add: "tc_QDiscAdd api q w = (r, w') \<Longrightarrow> inst w' = inst w"
    and filter_list: "tc_FilterList api q w = (fs, w') \<Longrightarrow>
      inst w' = inst w \<and> (\<forall>xs. fs = Inr xs \<longrightarrow> set xs = inst w)"
    and filter_del: "tc_FilterDel api q a w = (r, w') \<Longrightarrow> listable inst a \<Longrightarrow>
      inst w' = (if r = None then {f \<in> inst w. ff_Attrs f \<noteq> a} else inst w)"
    and filter_add: "tc_FilterAdd api q f w = (r, w') \<Longrightarrow> good f \<Longrightarrow>
      (if r = None
       then \<exists>g. norm_filter g = norm_filter f \<and> ff_Attrs g \<notin> ff_Attrs ` inst w \<and> inst w' = insert g (inst w)
       else inst w' = inst w)"
    and chain_list: "tc_ChainList api q w = (cs, w') \<Longrightarrow>
      inst w' = inst w \<and> (\<forall>xs. cs = Inr xs \<longrightarrow>
        (\<forall>c\<in>set xs. ch_Chain c \<noteq> None) \<and> Some ` chain_no ` inst w \<subseteq> ch_Chain ` set xs)"
    and chain_del: "tc_ChainDel api q \<lparr>ch_Parent = None, ch_Chain = Some n\<rparr> w = (r, w') \<Longrightarrow>
      inst w' = (if r = None then {f \<in> inst w. chain_no f \<noteq> n} else inst w)"
begin

text \<open>What adding does to the filters up to \<open>Equals\<close>.\<close>

lemma filter_add_norm:
  assumes "tc_FilterAdd api q f w = (r, w')" and "good f"
  shows "norm_filter ` inst w' =
    (if r = None then insert (norm_filter f) (norm_filter ` inst w) else norm_filter ` inst w)"
  using filter_add [OF assms] by (cases r) (fastforce+)

text \<open>The two loops.\<close>

lemma delete_loop:
  assumes "each_until_error (\<lambda>f. tc_FilterDel api q (ff_Attrs f)) fs w = (r, w')"
    and "set fs \<subseteq> inst v"
  shows "inst w' \<subseteq> inst w \<and> {f \<in> inst w. ff_Attrs f \<notin> ff_Attrs ` set fs} \<subseteq> inst w' \<and>
    (r = None \<longrightarrow> inst w' = {f \<in> inst w. ff_Attrs f \<notin> ff_Attrs ` set fs})"
  using assms(1,2)
proof (induction fs arbitrary: w)
  case Nil
  then show ?case by simp
next
  case (Cons f fs)
  obtain r1 w1 where s: "tc_FilterDel api q (ff_Attrs f) w = (r1, w1)" by fastforce
  have "listable inst (ff_Attrs f)" using Cons.prems(2) by (auto simp: listable_def)
  note del = filter_del [OF s this]
  show ?case
  proof (cases r1)
    case None
    with Cons.prems s have "each_until_error (\<lambda>f. tc_FilterDel api q (ff_Attrs f)) fs w1 = (r, w')"
      by simp
    from Cons.IH [OF this] Cons.prems(2) show ?thesis using del None by auto
  next
    case (Some e)
    with Cons.prems s del show ?thesis by auto
  qed
qed

lemma add_loop:
  assumes "each_until_error (tc_FilterAdd api q) fs w = (r, w')"
    and "\<forall>f\<in>set fs. good f"
  shows "norm_filter ` inst w \<subseteq> norm_filter ` inst w' \<and>
    norm_filter ` inst w' \<subseteq> norm_filter ` inst w \<union> norm_filter ` set fs \<and>
    (r = None \<longrightarrow> norm_filter ` inst w' = norm_filter ` inst w \<union> norm_filter ` set fs)"
  using assms(1,2)
proof (induction fs arbitrary: w)
  case Nil
  then show ?case by simp
next
  case (Cons f fs)
  obtain r1 w1 where s: "tc_FilterAdd api q f w = (r1, w1)" by fastforce
  have "good f" using Cons.prems(2) by simp
  note added = filter_add_norm [OF s this]
  show ?case
  proof (cases r1)
    case None
    with Cons.prems s have "each_until_error (tc_FilterAdd api q) fs w1 = (r, w')" by simp
    from Cons.IH [OF this] Cons.prems(2) show ?thesis using added None by auto
  next
    case (Some e)
    with Cons.prems s added show ?thesis by auto
  qed
qed

lemma actuate_filters_run:
  assumes "actuate_filters api q wanted w = (r, w')"
    and "inj_on ff_Attrs (inst w)" and "inj_on norm_filter (inst w)" and "\<forall>f\<in>set wanted. good f"
  shows "norm_filter ` inst w \<inter> norm_filter ` set wanted \<subseteq> norm_filter ` inst w' \<and>
    norm_filter ` inst w' \<subseteq> norm_filter ` inst w \<union> norm_filter ` set wanted \<and>
    (r = None \<longrightarrow> norm_filter ` inst w' = norm_filter ` set wanted)"
proof -
  obtain l w1 where list: "tc_FilterList api q w = (l, w1)" by fastforce
  note listed = filter_list [OF list]
  show ?thesis
  proof (cases l)
    case (Inl e)
    then show ?thesis using assms(1) list listed by (auto simp: actuate_filters_def)
  next
    case (Inr es)
    then have es: "set es = inst w" "inst w1 = inst w" using listed by auto
    let ?E = "set_of_filters es" and ?N = "set_of_filters wanted"
    let ?rs = "Set_List (Set_Difference ?E ?N)" and ?as = "Set_List (Set_Difference ?N ?E)"
    show ?thesis
    proof (cases "Set_Equals ?E ?N")
      case True
      then have "norm_filter ` inst w = norm_filter ` set wanted" using sets_equal es by simp
      then show ?thesis using assms(1) list Inr True es
        by (simp add: actuate_filters_def set_of_filters_def)
    next
      case False
      obtain r2 w2 where dels: "each_until_error (\<lambda>f. tc_FilterDel api q (ff_Attrs f)) ?rs w1 = (r2, w2)"
        by fastforce
      have sub: "set ?rs \<subseteq> inst w" using to_remove(2) [of es wanted] by (simp only: es)
      note inj_on_Collect_image [OF assms(2) sub]
      moreover have "norm_filter ` (inst w - set ?rs) = norm_filter ` inst w - norm_filter ` set ?rs"
        using assms(3) Diff_subset sub by (rule inj_on_image_set_diff)
      ultimately have kept: "norm_filter ` {f \<in> inst w. ff_Attrs f \<notin> ff_Attrs ` set ?rs} =
          norm_filter ` inst w \<inter> norm_filter ` set wanted"
        using to_remove(1) [of es wanted] es by (simp add: Diff_Diff_Int)
      from delete_loop [OF dels sub] es
      have d: "norm_filter ` inst w2 \<subseteq> norm_filter ` inst w"
        "norm_filter ` inst w \<inter> norm_filter ` set wanted \<subseteq> norm_filter ` inst w2"
        "r2 = None \<Longrightarrow> norm_filter ` inst w2 = norm_filter ` inst w \<inter> norm_filter ` set wanted"
        unfolding kept [symmetric] by auto
      show ?thesis
      proof (cases r2)
        case (Some e)
        then have "w' = w2 \<and> r \<noteq> None"
          using assms(1) list Inr False dels by (auto simp: actuate_filters_def set_of_filters_def Let_def)
        then show ?thesis using d by auto
      next
        case None
        then have "each_until_error (tc_FilterAdd api q) ?as w2 = (r, w')"
          using assms(1) list Inr False dels by (simp add: actuate_filters_def set_of_filters_def Let_def)
        moreover have "\<forall>f\<in>set ?as. good f" using to_remove(2) [of wanted es] assms(4) by blast
        ultimately have "norm_filter ` inst w2 \<subseteq> norm_filter ` inst w' \<and>
            norm_filter ` inst w' \<subseteq> norm_filter ` inst w2 \<union> norm_filter ` set ?as \<and>
            (r = None \<longrightarrow> norm_filter ` inst w' = norm_filter ` inst w2 \<union> norm_filter ` set ?as)"
          by (rule add_loop)
        then show ?thesis
          using d None to_remove(1) [of wanted es] es by auto
      qed
    qed
  qed
qed

lemma actuate_run:
  assumes "Actuate api objs w = (r, w')"
    and "obj_QDisc objs = Some q" and "obj_Filters objs \<noteq> []"
    and "inj_on ff_Attrs (inst w)" and "inj_on norm_filter (inst w)" and "\<forall>f\<in>set (obj_Filters objs). good f"
  shows "norm_filter ` inst w \<inter> norm_filter ` set (obj_Filters objs) \<subseteq> norm_filter ` inst w' \<and>
    norm_filter ` inst w' \<subseteq> norm_filter ` inst w \<union> norm_filter ` set (obj_Filters objs) \<and>
    (r = None \<longrightarrow> norm_filter ` inst w' = norm_filter ` set (obj_Filters objs))"
proof -
  obtain l w1 where qlist: "tc_QDiscList api w = (l, w1)" by fastforce
  have w1: "inst w1 = inst w" using qdisc_list [OF qlist] .
  show ?thesis
  proof (cases l)
    case (Inl e)
    then have "r = Some (Wrap ''failed to list qdiscs'' e) \<and> w' = w1"
      using assms(1,2) qlist by (simp add: Actuate_def)
    then show ?thesis using w1 by auto
  next
    case (Inr qs)
    let ?ex = "list_ex (\<lambda>q. qd_Type q = QDiscIngressType) qs"
    obtain r2 w2 where added: "(if \<not> ?ex then tc_QDiscAdd api q w1 else (None, w1)) = (r2, w2)"
      by fastforce
    then have w2: "inst w2 = inst w"
      using qdisc_add [of w1] w1 by (auto split: if_splits)
    show ?thesis
    proof (cases r2)
      case None
      then have "actuate_filters api q (obj_Filters objs) w2 = (r, w')"
        using assms(1-3) qlist Inr added by (simp add: Actuate_def Let_def)
      from actuate_filters_run [OF this] show ?thesis using w2 assms(4-6) by simp
    next
      case (Some e)
      then have "r = Some e \<and> w' = w2"
        using assms(1-3) qlist Inr added by (auto simp: Actuate_def Let_def)
      then show ?thesis using w2 by auto
    qed
  qed
qed

text \<open>Without wanted filters the filters of chain 0 go, which are all the program ever adds.\<close>

lemma actuate_nothing_run:
  assumes "Actuate api objs w = (r, w')" and "obj_QDisc objs = Some q" and "obj_Filters objs = []"
    and "q = ingress"
  shows "{f \<in> inst w. chain_no f \<noteq> 0} \<subseteq> inst w' \<and> inst w' \<subseteq> inst w \<and>
    (r = None \<longrightarrow> inst w' = {f \<in> inst w. chain_no f \<noteq> 0})"
proof -
  obtain l w1 where qlist: "tc_QDiscList api w = (l, w1)" by fastforce
  have w1: "inst w1 = inst w" using qdisc_list [OF qlist] .
  obtain c w2 where clist: "tc_ChainList api q w1 = (c, w2)" by fastforce
  note chains = chain_list [OF clist]
  show ?thesis
  proof (cases l)
    case (Inl e)
    then show ?thesis using assms(1,2) qlist w1 by (auto simp: Actuate_def)
  next
    case (Inr qs)
    then have run: "actuate_no_filters api q w1 = (r, w')"
      using assms(1-3) qlist by (simp add: Actuate_def)
    show ?thesis
    proof (cases c)
      case (Inl e)
      then show ?thesis using run clist chains w1 assms(4) by (auto simp: actuate_no_filters_def)
    next
      case (Inr cs)
      note listed = chains [THEN conjunct2, rule_format, OF Inr]
      have "(if Some 0 \<in> ch_Chain ` set cs
          then tc_ChainDel api q \<lparr>ch_Parent = None, ch_Chain = Some 0\<rparr> w2 else (None, w2)) = (r, w')"
        using run clist Inr assms(4)
        by (simp add: actuate_no_filters_def delete_chain_zero_all [OF conjunct1 [OF listed]] split: if_splits)
      moreover have "{f \<in> inst w. chain_no f \<noteq> 0} = inst w" if "Some 0 \<notin> ch_Chain ` set cs"
        using that listed w1 by (force simp: image_subset_iff)
      ultimately show ?thesis
        using chain_del [of 0 w2 r w'] chains w1 by (auto split: if_splits)
    qed
  qed
qed

end

section \<open>What does not concern another device\<close>

text \<open>A view of the world that no call on the interface changes is not changed by \<open>Actuate\<close>.\<close>

definition keeps :: "('w \<Rightarrow> 'v) \<Rightarrow> ('w \<Rightarrow> 'r \<times> 'w) \<Rightarrow> bool" where
  "keeps v f \<longleftrightarrow> (\<forall>w. v (snd (f w)) = v w)"

lemma keepsD: "keeps v f \<Longrightarrow> f w = (r, w') \<Longrightarrow> v w' = v w"
  unfolding keeps_def by (metis snd_conv)

lemma keeps_each:
  assumes "\<And>x. keeps v (f x)"
  shows "keeps v (each_until_error f xs)"
proof -
  have "v (snd (each_until_error f xs w)) = v w" for w
  proof (induction xs arbitrary: w)
    case (Cons x xs)
    obtain r w1 where run: "f x w = (r, w1)" by fastforce
    show ?case using keepsD [OF assms run] Cons.IH by (cases r) (simp_all add: run)
  qed simp
  then show ?thesis by (simp add: keeps_def)
qed

locale tc_frame =
  fixes api :: "'w TC" and v :: "'w \<Rightarrow> 'v"
  assumes frame_calls: "keeps v (tc_QDiscAdd api qd)" "keeps v (tc_QDiscDel api qd)" "keeps v (tc_QDiscList api)"
    "keeps v (tc_FilterAdd api qd f)" "keeps v (tc_FilterDel api qd a)" "keeps v (tc_FilterList api qd)"
    "keeps v (tc_ChainDel api qd c)" "keeps v (tc_ChainList api qd)"
begin

lemma frame_no_filters: "keeps v (actuate_no_filters api qd)"
proof -
  have "keeps v (delete_chain_zero api qd cs)" for cs
    using frame_calls(7) by (induction cs) (auto simp: keeps_def split: option.split)
  note chains = this
  show ?thesis
    unfolding keeps_def
  proof
    fix w
    obtain c w2 where l: "tc_ChainList api (QDisc_Build NewIngressQDiscBuilder) w = (c, w2)" by fastforce
    show "v (snd (actuate_no_filters api qd w)) = v w"
      using keepsD [OF frame_calls(8) l] chains by (cases c) (simp_all add: actuate_no_filters_def l keeps_def)
  qed
qed

lemma frame_filters: "keeps v (actuate_filters api qd wanted)"
  unfolding keeps_def
proof
  fix w
  note loops = keeps_each [of v "\<lambda>f. tc_FilterDel api qd (ff_Attrs f)", OF frame_calls(5)]
    keeps_each [of v "tc_FilterAdd api qd", OF frame_calls(4)]
  show "v (snd (actuate_filters api qd wanted w)) = v w"
    unfolding actuate_filters_def Let_def
    by (auto split: prod.split sum.split option.split dest!: keepsD [OF frame_calls(6)] keepsD [OF loops(1)])
      (simp add: loops(2) [unfolded keeps_def])
qed

lemma frame_Actuate: "v (snd (Actuate api objs w)) = v w"
  unfolding Actuate_def Let_def
  by (auto split: prod.split sum.split option.split
      dest!: keepsD [OF frame_calls(3)] keepsD [OF frame_calls(1)]
      simp: frame_calls(1,2) [unfolded keeps_def] frame_no_filters [unfolded keeps_def] frame_filters [unfolded keeps_def])

end

section \<open>Properties\<close>

text \<open>
  C11. On a device that keeps the contract of the interface and whose filters have different
  attributes and are pairwise not \<open>Equals\<close>, a successful \<open>Actuate\<close> leaves exactly the wanted
  filters installed (up to the handles the kernel assigns).
\<close>

theorem actuate_installs_wanted:
  assumes "tc_contract api q inst good" and "inj_on ff_Attrs (inst w)" and "inj_on norm_filter (inst w)"
    and "obj_QDisc objs = Some q" and "obj_Filters objs \<noteq> []" and "\<forall>f\<in>set (obj_Filters objs). good f"
    and "Actuate api objs w = (None, w')"
  shows "norm_filter ` inst w' = norm_filter ` set (obj_Filters objs)"
  using tc_contract.actuate_run [OF assms(1,7,4,5,2,3,6)] by simp

text \<open>
  C26. Whether \<open>Actuate\<close> succeeds or fails at any call, no filter that was installed and is wanted
  goes away, and every filter installed at the end was there before or is wanted.
\<close>

theorem actuate_keeps_wanted:
  assumes "tc_contract api q inst good" and "inj_on ff_Attrs (inst w)" and "inj_on norm_filter (inst w)"
    and "obj_QDisc objs = Some q" and "obj_Filters objs \<noteq> []" and "\<forall>f\<in>set (obj_Filters objs). good f"
    and "Actuate api objs w = (r, w')"
  shows "norm_filter ` inst w \<inter> norm_filter ` set (obj_Filters objs) \<subseteq> norm_filter ` inst w' \<and>
    norm_filter ` inst w' \<subseteq> norm_filter ` inst w \<union> norm_filter ` set (obj_Filters objs)"
  using tc_contract.actuate_run [OF assms(1,7,4,5,2,3,6)] by simp

text \<open>
  When the ingress qdisc is there and the listed filters are the wanted ones up to \<open>Equals\<close>,
  \<open>Actuate\<close> succeeds after the two list calls: it adds and deletes nothing.
\<close>

theorem actuate_nothing_to_do:
  assumes "obj_QDisc objs = Some q" and "obj_Filters objs \<noteq> []"
    and "tc_QDiscList api w = (Inr qs, w1)" and "\<exists>x\<in>set qs. qd_Type x = QDiscIngressType"
    and "tc_FilterList api q w1 = (Inr es, w2)"
    and "norm_filter ` set es = norm_filter ` set (obj_Filters objs)"
  shows "Actuate api objs w = (None, w2)"
proof -
  have "list_ex (\<lambda>q. qd_Type q = QDiscIngressType) qs"
    using assms(4) by (simp add: list_ex_iff)
  then have "Actuate api objs w = actuate_filters api q (obj_Filters objs) w1"
    using assms(1-3) by (simp add: Actuate_def)
  also have "\<dots> = (None, w2)"
    using assms(5,6) sets_equal [of es "obj_Filters objs"]
    by (simp add: actuate_filters_def set_of_filters_def)
  finally show ?thesis .
qed

text \<open>
  The branches that write no filter: filters without a qdisc are refused before the device
  is asked anything; without a qdisc and filters the ingress qdisc is deleted exactly when it is
  listed; with a qdisc and no filters chain 0 is deleted exactly when it is listed (before the
  first chain that has no number, which the drivers never return).
\<close>

theorem actuate_without_filters:
  assumes "obj_QDisc objs = None \<or> obj_Filters objs = []"
    and "tc_QDiscList api w = (Inr qs, w1)"
    and "tc_ChainList api (QDisc_Build NewIngressQDiscBuilder) w1 = (Inr cs, w2)"
    and "\<forall>c\<in>set cs. ch_Chain c \<noteq> None"
  shows "Actuate api objs w =
    (case obj_QDisc objs of
       None \<Rightarrow>
         if obj_Filters objs \<noteq> [] then (Some (Errorf ''Qdisc cannot be nil if Filters are provided'' []), w)
         else if QDiscIngressType \<in> qd_Type ` set qs
              then tc_QDiscDel api (QDisc_Build NewIngressQDiscBuilder) w1 else (None, w1)
     | Some q \<Rightarrow>
         if Some 0 \<in> ch_Chain ` set cs
         then tc_ChainDel api q \<lparr>ch_Parent = None, ch_Chain = Some 0\<rparr> w2 else (None, w2))"
proof -
  note del = delete_chain_zero_all [OF assms(4)]
  have ingress: "list_ex (\<lambda>q. qd_Type q = QDiscIngressType) qs \<longleftrightarrow> QDiscIngressType \<in> qd_Type ` set qs"
    by (simp add: list_ex_iff image_iff eq_commute [of QDiscIngressType])
  show ?thesis
    using assms(1-3)
    by (auto simp: Actuate_def actuate_no_filters_def del ingress split: option.splits)
qed

section \<open>A device for the witnesses\<close>

text \<open>
  A device that keeps the contract: the world is the list of installed filters, a new filter gets
  the next handle, and adding fails when that handle is taken.
\<close>

definition ex_add :: "FlowerFilter \<Rightarrow> FlowerFilter list \<Rightarrow> error option \<times> FlowerFilter list" where
  "ex_add f w =
     (let g = f\<lparr>ff_Attrs := (ff_Attrs f)\<lparr>fa_Handle := Some (of_nat (Suc (length w)))\<rparr>\<rparr> in
      if ff_Attrs g \<in> set (map ff_Attrs w) then (Some (External ''exists''), w) else (None, w @ [g]))"

definition ex_tc :: "FlowerFilter list TC" where
  "ex_tc =
     \<lparr>tc_QDiscAdd = (\<lambda>_ w. (None, w)), tc_QDiscDel = (\<lambda>_ w. (None, [])),
      tc_QDiscList = (\<lambda>w. (Inr [QDisc_Build NewIngressQDiscBuilder], w)),
      tc_FilterAdd = (\<lambda>_. ex_add),
      tc_FilterDel = (\<lambda>_ a w. (None, filter (\<lambda>f. ff_Attrs f \<noteq> a) w)),
      tc_FilterList = (\<lambda>_ w. (Inr w, w)), tc_ChainAdd = (\<lambda>_ _ w. (None, w)),
      tc_ChainDel = (\<lambda>_ c w. (None, filter (\<lambda>f. Some (chain_no f) \<noteq> ch_Chain c) w)),
      tc_ChainList = (\<lambda>_ w. (Inr (map (\<lambda>n. \<lparr>ch_Parent = None, ch_Chain = Some n\<rparr>) (0 # map chain_no w)), w))\<rparr>"

lemma ex_add_ok:
  "ex_add f w = (None, w') \<Longrightarrow> \<exists>g. norm_filter g = norm_filter f \<and> ff_Attrs g \<notin> ff_Attrs ` set w \<and>
     set w' = insert g (set w)"
  by (rule exI [of _ "f\<lparr>ff_Attrs := (ff_Attrs f)\<lparr>fa_Handle := Some (of_nat (Suc (length w)))\<rparr>\<rparr>"])
    (auto simp: ex_add_def Let_def norm_filter_def split: if_splits)

lemma ex_add_fail: "ex_add f w = (Some e, w') \<Longrightarrow> w' = w"
  by (auto simp: ex_add_def Let_def split: if_splits)

lemma ex_tc_contract: "tc_contract ex_tc q set (\<lambda>_. True)"
  by unfold_locales (use ex_add_ok in \<open>auto simp: ex_tc_def image_image dest: ex_add_fail\<close>)

definition ex_objects :: Objects where
  "ex_objects = \<lparr>obj_QDisc = Some (QDisc_Build NewIngressQDiscBuilder),
     obj_Filters = [gen_shape FilterProtocolIPv4 None None (Some ex_port) BasePrioPass pass_action]\<rparr>"

definition ex_stale :: FlowerFilter where
  "ex_stale = (gen_shape FilterProtocolIPv4 None None None BasePrioDefault drop_action)
     \<lparr>ff_Attrs := \<lparr>fa_Kind = FilterKindFlower, fa_Protocol = FilterProtocolIPv4, fa_Chain = Some 0,
       fa_Handle = Some 9, fa_Priority = Some 300\<rparr>\<rparr>"

theorem actuate_installs_wanted_witness:
  "fst (Actuate ex_tc ex_objects [ex_stale]) = None \<and>
   norm_filter ` set (snd (Actuate ex_tc ex_objects [ex_stale])) =
     norm_filter ` set (obj_Filters ex_objects)"
proof -
  have r: "fst (Actuate ex_tc ex_objects [ex_stale]) = None" by code_simp
  then have run: "Actuate ex_tc ex_objects [ex_stale] =
      (None, snd (Actuate ex_tc ex_objects [ex_stale]))"
    by (metis prod.collapse)
  have "norm_filter ` set (snd (Actuate ex_tc ex_objects [ex_stale])) =
      norm_filter ` set (obj_Filters ex_objects)"
    by (rule actuate_installs_wanted [OF ex_tc_contract _ _ _ _ _ run, of "QDisc_Build NewIngressQDiscBuilder"])
      (simp_all add: ex_objects_def)
  with r show ?thesis by simp
qed

theorem actuate_keeps_wanted_witness:
  "norm_filter ` set (snd (Actuate ex_tc ex_objects [ex_stale])) \<subseteq>
     norm_filter ` set [ex_stale] \<union> norm_filter ` set (obj_Filters ex_objects)"
proof -
  have run: "Actuate ex_tc ex_objects [ex_stale] =
      (fst (Actuate ex_tc ex_objects [ex_stale]), snd (Actuate ex_tc ex_objects [ex_stale]))"
    by simp
  from actuate_keeps_wanted [OF ex_tc_contract _ _ _ _ _ run, of "QDisc_Build NewIngressQDiscBuilder"]
  show ?thesis by (simp add: ex_objects_def)
qed

theorem actuate_nothing_to_do_witness:
  "Actuate ex_tc ex_objects (obj_Filters ex_objects) = (None, obj_Filters ex_objects)"
proof (rule actuate_nothing_to_do)
  show "obj_QDisc ex_objects = Some (QDisc_Build NewIngressQDiscBuilder)"
    and "obj_Filters ex_objects \<noteq> []"
    by (simp_all add: ex_objects_def)
  show "tc_QDiscList ex_tc (obj_Filters ex_objects) =
      (Inr [QDisc_Build NewIngressQDiscBuilder], obj_Filters ex_objects)"
    by (simp add: ex_tc_def)
  show "\<exists>x\<in>set [QDisc_Build NewIngressQDiscBuilder]. qd_Type x = QDiscIngressType"
    by (simp add: builder_simps)
  show "tc_FilterList ex_tc (QDisc_Build NewIngressQDiscBuilder) (obj_Filters ex_objects) =
      (Inr (obj_Filters ex_objects), obj_Filters ex_objects)"
    by (simp add: ex_tc_def)
qed simp

theorem actuate_without_filters_witness:
  "Actuate ex_tc (ex_objects\<lparr>obj_Filters := []\<rparr>) [ex_stale] = (None, [])"
proof -
  have l: "tc_QDiscList ex_tc [ex_stale] = (Inr [QDisc_Build NewIngressQDiscBuilder], [ex_stale])"
    and c: "tc_ChainList ex_tc (QDisc_Build NewIngressQDiscBuilder) [ex_stale] =
      (Inr (map (\<lambda>n. \<lparr>ch_Parent = None, ch_Chain = Some n\<rparr>) [0, 0]), [ex_stale])"
    by (simp_all add: ex_tc_def chain_no_def ex_stale_def)
  have f: "obj_QDisc (ex_objects\<lparr>obj_Filters := []\<rparr>) = None \<or> obj_Filters (ex_objects\<lparr>obj_Filters := []\<rparr>) = []"
    by simp
  from actuate_without_filters [OF f l c] show ?thesis
    by (simp add: ex_objects_def) (simp add: ex_tc_def chain_no_def ex_stale_def)
qed

end
