(* ===== verification/Tc_Netlink.thy ===== *)
theory Tc_Netlink
  imports Tc_Actuator
begin

text \<open>
  Model of \<open>pkg/tc/driver/netlink\<close>: the converters between the filters of the program and the
  structures of the netlink library, and the driver \<open>TcNetlinkImpl\<close>, an implementation of the
  interface \<open>TC\<close>. The library (behind \<open>pkg/net\<close>'s \<open>NetlinkProvider\<close>) is a parameter; of its
  structures the fields the program writes or reads are modelled. The theorems say that a filter
  the netlink structures can express survives the conversion there and back, and what is lost
  otherwise.
\<close>

section \<open>Structures and constants of the library\<close>

definition ETH_P_IP :: u16 where [go_consts]: "ETH_P_IP = 0x0800"
definition ETH_P_IPV6 :: u16 where [go_consts]: "ETH_P_IPV6 = 0x86dd"
definition ETH_P_8021Q :: u16 where [go_consts]: "ETH_P_8021Q = 0x8100"
definition ETH_P_ALL :: u16 where [go_consts]: "ETH_P_ALL = 0x0003"
definition IPPROTO_TCP :: u8 where [go_consts]: "IPPROTO_TCP = 6"
definition IPPROTO_UDP :: u8 where [go_consts]: "IPPROTO_UDP = 17"
definition TC_ACT_UNSPEC :: int where [go_consts]: "TC_ACT_UNSPEC = -1"
definition TC_ACT_OK :: int where [go_consts]: "TC_ACT_OK = 0"
definition TC_ACT_SHOT :: int where [go_consts]: "TC_ACT_SHOT = 2"
definition HANDLE_INGRESS :: u32 where [go_consts]: "HANDLE_INGRESS = 0xfffffff1"

record Link =
  link_Index :: int

record NlQdisc =
  nq_Type :: string
  nq_LinkIndex :: int
  nq_Handle :: u32
  nq_Parent :: u32

record NlChain =
  nc_Parent :: u32
  nc_Chain :: u32

record NlAction =
  na_Type :: string
  na_Index :: nat
  na_Action :: int

text \<open>A nil \<open>net.IP\<close> or \<open>net.IPMask\<close> is the empty list.\<close>

record NlFlower =
  fl_LinkIndex :: int
  fl_Handle :: u32
  fl_Parent :: u32
  fl_Chain :: "u32 option"
  fl_Priority :: u16
  fl_Protocol :: u16
  fl_DestIP :: IP
  fl_DestIPMask :: IPMask
  fl_DestPort :: u16
  fl_IPProto :: "u8 option"
  fl_EthType :: u16
  fl_Actions :: "NlAction list"

text \<open>What the library lists: a \<open>*netlink.Flower\<close>, or another filter with its \<open>Type()\<close>.\<close>

datatype NlFilter = IsFlower NlFlower | OtherFilter string

definition NlFilter_Type :: "NlFilter \<Rightarrow> string" where
  "NlFilter_Type f = (case f of IsFlower _ \<Rightarrow> ''flower'' | OtherFilter t \<Rightarrow> t)"

record 'w NetlinkProvider =
  nl_QdiscAdd :: "NlQdisc \<Rightarrow> 'w \<Rightarrow> error option \<times> 'w"
  nl_QdiscDel :: "NlQdisc \<Rightarrow> 'w \<Rightarrow> error option \<times> 'w"
  nl_QdiscList :: "Link \<Rightarrow> 'w \<Rightarrow> (error + NlQdisc list) \<times> 'w"
  nl_FilterAdd :: "NlFlower \<Rightarrow> 'w \<Rightarrow> error option \<times> 'w"
  nl_FilterDel :: "NlFlower \<Rightarrow> 'w \<Rightarrow> error option \<times> 'w"
  nl_FilterList :: "Link \<Rightarrow> u32 \<Rightarrow> 'w \<Rightarrow> (error + NlFilter list) \<times> 'w"
  nl_ChainAdd :: "Link \<Rightarrow> NlChain \<Rightarrow> 'w \<Rightarrow> error option \<times> 'w"
  nl_ChainDel :: "Link \<Rightarrow> NlChain \<Rightarrow> 'w \<Rightarrow> error option \<times> 'w"
  nl_ChainList :: "Link \<Rightarrow> u32 \<Rightarrow> 'w \<Rightarrow> (error + NlChain list) \<times> 'w"

section \<open>Scalar converters (converters.go)\<close>

definition u32ValFromPtr :: "u32 option \<Rightarrow> u32 \<Rightarrow> u32" where
  "u32ValFromPtr p defaultVal = (case p of None \<Rightarrow> defaultVal | Some v \<Rightarrow> v)"

definition u16ValFromPtr :: "u16 option \<Rightarrow> u16 \<Rightarrow> u16" where
  "u16ValFromPtr p defaultVal = (case p of None \<Rightarrow> defaultVal | Some v \<Rightarrow> v)"

text \<open>\<open>fmt.Sprintf("Unknown(%d)", n)\<close>\<close>

definition unknown :: "int \<Rightarrow> string" where
  "unknown n = ''Unknown('' @ (if n < 0 then ''-'' @ FormatUint (nat (- n)) else FormatUint (nat n)) @ '')''"

definition filterProtoToUnixProto :: "FilterProtocol \<Rightarrow> u16" where
  "filterProtoToUnixProto protocol =
     (if protocol = FilterProtocolIPv4 then ETH_P_IP
      else if protocol = FilterProtocolIPv6 then ETH_P_IPV6
      else if protocol = FilterProtocol8021Q then ETH_P_8021Q
      else if protocol = FilterProtocolAll then ETH_P_ALL
      else 0)"

definition unixProtoToFilterProto :: "u16 \<Rightarrow> FilterProtocol" where
  "unixProtoToFilterProto protocol =
     (if protocol = ETH_P_IP then FilterProtocolIPv4
      else if protocol = ETH_P_IPV6 then FilterProtocolIPv6
      else if protocol = ETH_P_8021Q then FilterProtocol8021Q
      else if protocol = ETH_P_ALL then FilterProtocolAll
      else unknown (uint protocol))"

definition flowerVlanEthTypeToUnixProto :: "FlowerVlanEthType \<Rightarrow> u16" where
  "flowerVlanEthTypeToUnixProto ethtype =
     (if ethtype = FlowerVlanEthTypeIPv4 then ETH_P_IP
      else if ethtype = FlowerVlanEthTypeIPv6 then ETH_P_IPV6
      else 0)"

definition unixProtoToFlowerVlanEthType :: "u16 \<Rightarrow> FlowerVlanEthType" where
  "unixProtoToFlowerVlanEthType protocol =
     (if protocol = ETH_P_IP then FlowerVlanEthTypeIPv4
      else if protocol = ETH_P_IPV6 then FlowerVlanEthTypeIPv6
      else unknown (uint protocol))"

definition flowerIPProtoToNlIPProto :: "FlowerIPProto \<Rightarrow> u8" where
  "flowerIPProtoToNlIPProto protocol =
     (if protocol = FlowerIPProtoTCP then IPPROTO_TCP
      else if protocol = FlowerIPProtoUDP then IPPROTO_UDP
      else 0)"

definition nlIPProtoToFlowerIPProto :: "u8 \<Rightarrow> FlowerIPProto" where
  "nlIPProtoToFlowerIPProto protocol =
     (if protocol = IPPROTO_TCP then FlowerIPProtoTCP
      else if protocol = IPPROTO_UDP then FlowerIPProtoUDP
      else unknown (uint protocol))"

definition actionGenericToTcAction :: "ActionGenericType \<Rightarrow> int" where
  "actionGenericToTcAction action =
     (if action = ActionGenericPass then TC_ACT_OK
      else if action = ActionGenericDrop then TC_ACT_SHOT
      else TC_ACT_UNSPEC)"

definition tcActionToActionGeneric :: "int \<Rightarrow> ActionGenericType" where
  "tcActionToActionGeneric action =
     (if action = TC_ACT_OK then ActionGenericPass
      else if action = TC_ACT_SHOT then ActionGenericDrop
      else unknown action)"

section \<open>Structure converters (converters.go)\<close>

definition qdiscToNlQdisc :: "QDisc \<Rightarrow> int \<Rightarrow> NlQdisc" where
  "qdiscToNlQdisc qd linkIdx =
     \<lparr>nq_Type = ''ingress'', nq_LinkIndex = linkIdx, nq_Handle = u32ValFromPtr (qd_Handle qd) 0,
      nq_Parent = u32ValFromPtr (qd_Parent qd) HANDLE_INGRESS\<rparr>"

definition nlQdiscToQdisc :: "NlQdisc \<Rightarrow> QDisc" where
  "nlQdiscToQdisc qd =
     QDisc_Build (QDisc_WithHandle (nq_Handle qd) (QDisc_WithParent (nq_Parent qd) NewIngressQDiscBuilder))"

definition chainToNlChain :: "Chain \<Rightarrow> u32 \<Rightarrow> NlChain" where
  "chainToNlChain chain parent = \<lparr>nc_Parent = parent, nc_Chain = u32ValFromPtr (ch_Chain chain) 0\<rparr>"

definition nlChainToChain :: "NlChain \<Rightarrow> Chain" where
  "nlChainToChain chain =
     Chain_Build (Chain_WithChain (nc_Chain chain) (Chain_WithParent (nc_Parent chain) NewChainBuilder))"

text \<open>The action of the source's \<open>Spec()["control_action"]\<close>, \<open>""\<close> when the key is missing.\<close>

definition action_to_nl :: "nat \<Rightarrow> GenericAction \<Rightarrow> NlAction" where
  "action_to_nl idx act =
     \<lparr>na_Type = ''generic'', na_Index = idx,
      na_Action = actionGenericToTcAction
        (case GenericAction_Spec act ''control_action'' of None \<Rightarrow> [] | Some c \<Rightarrow> c)\<rparr>"

definition flowerFilterToNlFlowerFilter :: "FlowerFilter \<Rightarrow> u32 \<Rightarrow> int \<Rightarrow> NlFlower" where
  "flowerFilterToNlFlowerFilter flt parent linkIdx =
     (let a = ff_Attrs flt;
          nl = \<lparr>fl_LinkIndex = linkIdx, fl_Handle = u32ValFromPtr (fa_Handle a) 0, fl_Parent = parent,
                fl_Chain = fa_Chain a, fl_Priority = u16ValFromPtr (fa_Priority a) 0,
                fl_Protocol = filterProtoToUnixProto (fa_Protocol a),
                fl_DestIP = [], fl_DestIPMask = [], fl_DestPort = 0, fl_IPProto = None, fl_EthType = 0,
                fl_Actions = []\<rparr>;
          matched =
            (case ff_Flower flt of
               None \<Rightarrow> nl
             | Some s \<Rightarrow>
                 let nl1 = (case fs_DstIP s of None \<Rightarrow> nl
                            | Some n \<Rightarrow> nl\<lparr>fl_DestIP := net_IP n, fl_DestIPMask := net_Mask n\<rparr>);
                     nl2 = (case fs_DstPort s of None \<Rightarrow> nl1 | Some p \<Rightarrow> nl1\<lparr>fl_DestPort := p\<rparr>);
                     nl3 = (case fs_IPProto s of None \<Rightarrow> nl2
                            | Some p \<Rightarrow> nl2\<lparr>fl_IPProto := Some (flowerIPProtoToNlIPProto p)\<rparr>)
                 in (case fs_VlanEthType s of
                       Some v \<Rightarrow> nl3\<lparr>fl_EthType := flowerVlanEthTypeToUnixProto v\<rparr>
                     | None \<Rightarrow> nl3\<lparr>fl_EthType := fl_Protocol nl3\<rparr>))
      in matched\<lparr>fl_Actions := map2 action_to_nl [0..<length (ff_Actions flt)] (ff_Actions flt)\<rparr>)"

definition nlFlowerFilterToFlowerFilter :: "NlFlower \<Rightarrow> FlowerFilter" where
  "nlFlowerFilterToFlowerFilter flt =
     (let fb = Flower_WithPriority (fl_Priority flt)
            (Flower_WithProtocol (unixProtoToFilterProto (fl_Protocol flt))
              (Flower_WithHandle (fl_Handle flt) NewFlowerFilterBuilder));
          fb1 = (case fl_Chain flt of None \<Rightarrow> fb | Some c \<Rightarrow> Flower_WithChain c fb);
          fb2 = (if fl_DestIP flt \<noteq> []
                 then WithMatchKeyDstIP \<lparr>net_IP = fl_DestIP flt, net_Mask = fl_DestIPMask flt\<rparr> fb1
                 else fb1);
          fb3 = (case fl_IPProto flt of None \<Rightarrow> fb2
                 | Some p \<Rightarrow> WithMatchKeyIPProto (nlIPProtoToFlowerIPProto p) fb2);
          fb4 = (if fl_DestPort flt \<noteq> 0 then WithMatchKeyDstPort (fl_DestPort flt) fb3 else fb3);
          fb5 = (if fl_Protocol flt = ETH_P_8021Q
                 then WithMatchKeyVlanEthType (unixProtoToFlowerVlanEthType (fl_EthType flt)) fb4
                 else fb4);
          fb6 = fold (\<lambda>act fb. if na_Type act \<noteq> ''generic'' then fb
                  else WithAction (NewGenericAction (tcActionToActionGeneric (na_Action act))) fb)
                (fl_Actions flt) fb5
      in Flower_Build fb6)"

section \<open>The driver (tc_netlink.go)\<close>

definition Nl_QDiscAdd :: "Link \<Rightarrow> 'w NetlinkProvider \<Rightarrow> QDisc \<Rightarrow> 'w \<Rightarrow> error option \<times> 'w" where
  "Nl_QDiscAdd lnk nl qdisc w =
     (if qd_Type qdisc \<noteq> QDiscIngressType
      then (Some (Errorf ''unsupported qdisc type: '' [qd_Type qdisc]), w)
      else nl_QdiscAdd nl (qdiscToNlQdisc qdisc (link_Index lnk)) w)"

definition Nl_QDiscDel :: "Link \<Rightarrow> 'w NetlinkProvider \<Rightarrow> QDisc \<Rightarrow> 'w \<Rightarrow> error option \<times> 'w" where
  "Nl_QDiscDel lnk nl qdisc w =
     (if qd_Type qdisc \<noteq> QDiscIngressType
      then (Some (Errorf ''unsupported qdisc type: '' [qd_Type qdisc]), w)
      else nl_QdiscDel nl (qdiscToNlQdisc qdisc (link_Index lnk)) w)"

definition Nl_QDiscList :: "Link \<Rightarrow> 'w NetlinkProvider \<Rightarrow> 'w \<Rightarrow> (error + QDisc list) \<times> 'w" where
  "Nl_QDiscList lnk nl w =
     (case nl_QdiscList nl lnk w of
        (Inl e, w') \<Rightarrow> (Inl (Wrap ''failed to list qdiscs'' e), w')
      | (Inr nlQdiscs, w') \<Rightarrow>
          (Inr (map nlQdiscToQdisc (filter (\<lambda>q. nq_Type q = QDiscIngressType) nlQdiscs)), w'))"

text \<open>
  The type assertion to \<open>*types.FlowerFilter\<close> cannot fail: the interface has no other
  implementation.
\<close>

definition Nl_FilterAdd ::
  "Link \<Rightarrow> 'w NetlinkProvider \<Rightarrow> QDisc \<Rightarrow> FlowerFilter \<Rightarrow> 'w \<Rightarrow> error option \<times> 'w" where
  "Nl_FilterAdd lnk nl qdisc f w =
     (if fa_Kind (ff_Attrs f) \<noteq> FilterKindFlower then (Some (Errorf ''unsupported filter kind'' []), w)
      else if qd_Type qdisc \<noteq> QDiscIngressType then (Some (Errorf ''unsupported qdisc type'' []), w)
      else nl_FilterAdd nl (flowerFilterToNlFlowerFilter f HANDLE_INGRESS (link_Index lnk)) w)"

definition Nl_FilterDel ::
  "Link \<Rightarrow> 'w NetlinkProvider \<Rightarrow> QDisc \<Rightarrow> FilterAttrs \<Rightarrow> 'w \<Rightarrow> error option \<times> 'w" where
  "Nl_FilterDel lnk nl qdisc filterAttr w =
     (if fa_Kind filterAttr \<noteq> FilterKindFlower then (Some (Errorf ''unsupported filter kind'' []), w)
      else if qd_Type qdisc \<noteq> QDiscIngressType then (Some (Errorf ''unsupported qdisc type'' []), w)
      else
        let flowerFilter = \<lparr>ff_Attrs = filterAttr, ff_Flower = None, ff_Actions = []\<rparr>
        in nl_FilterDel nl (flowerFilterToNlFlowerFilter flowerFilter HANDLE_INGRESS (link_Index lnk)) w)"

definition Nl_FilterList ::
  "Link \<Rightarrow> 'w NetlinkProvider \<Rightarrow> QDisc \<Rightarrow> 'w \<Rightarrow> (error + FlowerFilter list) \<times> 'w" where
  "Nl_FilterList lnk nl qdisc w =
     (if qd_Type qdisc \<noteq> QDiscIngressType then (Inl (Errorf ''unsupported qdisc type'' []), w)
      else case nl_FilterList nl lnk HANDLE_INGRESS w of
        (Inl e, w') \<Rightarrow> (Inl (Wrap ''failed to list filters'' e), w')
      | (Inr nlFilters, w') \<Rightarrow>
          (Inr (concat (map (\<lambda>nlFilter.
             if NlFilter_Type nlFilter \<noteq> ''flower'' then []
             else case nlFilter of
               OtherFilter _ \<Rightarrow> []
             | IsFlower nlFlowerFilter \<Rightarrow> [nlFlowerFilterToFlowerFilter nlFlowerFilter]) nlFilters)), w'))"

definition Nl_ChainAdd :: "Link \<Rightarrow> 'w NetlinkProvider \<Rightarrow> QDisc \<Rightarrow> Chain \<Rightarrow> 'w \<Rightarrow> error option \<times> 'w" where
  "Nl_ChainAdd lnk nl qdisc chain w =
     (if qd_Type qdisc \<noteq> QDiscIngressType then (Some (Errorf ''unsupported qdisc type'' []), w)
      else nl_ChainAdd nl lnk (chainToNlChain chain HANDLE_INGRESS) w)"

definition Nl_ChainDel :: "Link \<Rightarrow> 'w NetlinkProvider \<Rightarrow> QDisc \<Rightarrow> Chain \<Rightarrow> 'w \<Rightarrow> error option \<times> 'w" where
  "Nl_ChainDel lnk nl qdisc chain w =
     (if qd_Type qdisc \<noteq> QDiscIngressType then (Some (Errorf ''unsupported qdisc type'' []), w)
      else nl_ChainDel nl lnk (chainToNlChain chain HANDLE_INGRESS) w)"

definition Nl_ChainList ::
  "Link \<Rightarrow> 'w NetlinkProvider \<Rightarrow> QDisc \<Rightarrow> 'w \<Rightarrow> (error + Chain list) \<times> 'w" where
  "Nl_ChainList lnk nl qdisc w =
     (if qd_Type qdisc \<noteq> QDiscIngressType then (Inl (Errorf ''unsupported qdisc type'' []), w)
      else case nl_ChainList nl lnk HANDLE_INGRESS w of
        (Inl e, w') \<Rightarrow> (Inl (Wrap ''failed to list chains'' e), w')
      | (Inr nlChains, w') \<Rightarrow> (Inr (map nlChainToChain nlChains), w'))"

definition NewTcNetlinkImpl :: "Link \<Rightarrow> 'w NetlinkProvider \<Rightarrow> 'w TC" where
  "NewTcNetlinkImpl lnk nl =
     \<lparr>tc_QDiscAdd = Nl_QDiscAdd lnk nl, tc_QDiscDel = Nl_QDiscDel lnk nl,
      tc_QDiscList = Nl_QDiscList lnk nl, tc_FilterAdd = Nl_FilterAdd lnk nl,
      tc_FilterDel = Nl_FilterDel lnk nl, tc_FilterList = Nl_FilterList lnk nl,
      tc_ChainAdd = Nl_ChainAdd lnk nl, tc_ChainDel = Nl_ChainDel lnk nl,
      tc_ChainList = Nl_ChainList lnk nl\<rparr>"

section \<open>What the conversions keep\<close>

text \<open>The filters the netlink structures can express without losing anything.\<close>

definition nl_expressible :: "FlowerFilter \<Rightarrow> bool" where
  "nl_expressible f \<longleftrightarrow>
     fa_Kind (ff_Attrs f) = FilterKindFlower \<and>
     fa_Protocol (ff_Attrs f) \<in> {FilterProtocolIPv4, FilterProtocolIPv6, FilterProtocol8021Q, FilterProtocolAll} \<and>
     fa_Handle (ff_Attrs f) = None \<and>
     (\<exists>p. fa_Priority (ff_Attrs f) = Some p \<and> p \<noteq> 0) \<and>
     (\<exists>s. ff_Flower f = Some s \<and>
        (if fa_Protocol (ff_Attrs f) = FilterProtocol8021Q
         then fs_VlanEthType s \<in> {Some FlowerVlanEthTypeIPv4, Some FlowerVlanEthTypeIPv6}
         else fs_VlanEthType s = None) \<and>
        fs_IPProto s \<in> {None, Some FlowerIPProtoTCP, Some FlowerIPProtoUDP} \<and>
        (\<forall>n. fs_DstIP s = Some n \<longrightarrow> net_IP n \<noteq> []) \<and>
        fs_DstPort s \<noteq> Some 0) \<and>
     (\<forall>a\<in>set (ff_Actions f). controlAction a \<in> {ActionGenericPass, ActionGenericDrop})"

lemma proto_roundtrip:
  "p \<in> {FilterProtocolIPv4, FilterProtocolIPv6, FilterProtocol8021Q, FilterProtocolAll} \<Longrightarrow>
    unixProtoToFilterProto (filterProtoToUnixProto p) = p"
  "v \<in> {FlowerVlanEthTypeIPv4, FlowerVlanEthTypeIPv6} \<Longrightarrow>
    unixProtoToFlowerVlanEthType (flowerVlanEthTypeToUnixProto v) = v"
  "q \<in> {FlowerIPProtoTCP, FlowerIPProtoUDP} \<Longrightarrow>
    nlIPProtoToFlowerIPProto (flowerIPProtoToNlIPProto q) = q"
  "c \<in> {ActionGenericPass, ActionGenericDrop} \<Longrightarrow> tcActionToActionGeneric (actionGenericToTcAction c) = c"
  by (auto simp: go_consts unixProtoToFilterProto_def filterProtoToUnixProto_def
      unixProtoToFlowerVlanEthType_def flowerVlanEthTypeToUnixProto_def nlIPProtoToFlowerIPProto_def
      flowerIPProtoToNlIPProto_def tcActionToActionGeneric_def actionGenericToTcAction_def)

lemma tagged_proto:
  "p \<in> {FilterProtocolIPv4, FilterProtocolIPv6, FilterProtocol8021Q, FilterProtocolAll} \<Longrightarrow>
    filterProtoToUnixProto p = ETH_P_8021Q \<longleftrightarrow> p = FilterProtocol8021Q"
  by (auto simp: go_consts filterProtoToUnixProto_def)

lemma fold_actions:
  "fold (\<lambda>act fb. if na_Type act \<noteq> ''generic'' then fb
       else WithAction (NewGenericAction (tcActionToActionGeneric (na_Action act))) fb) as fb =
     fb\<lparr>ffb_actions := ffb_actions fb @ map (\<lambda>a. NewGenericAction (tcActionToActionGeneric (na_Action a)))
       (filter (\<lambda>a. na_Type a = ''generic'') as)\<rparr>"
  by (induction as arbitrary: fb) (simp_all add: WithAction_def)

text \<open>A filter read back, field by field.\<close>

lemma read_back:
  "nlFlowerFilterToFlowerFilter x =
     \<lparr>ff_Attrs = \<lparr>fa_Kind = FilterKindFlower, fa_Protocol = unixProtoToFilterProto (fl_Protocol x),
        fa_Chain = fl_Chain x, fa_Handle = Some (fl_Handle x), fa_Priority = Some (fl_Priority x)\<rparr>,
      ff_Flower = Some
        \<lparr>fs_VlanEthType = (if fl_Protocol x = ETH_P_8021Q
           then Some (unixProtoToFlowerVlanEthType (fl_EthType x)) else None),
         fs_IPProto = map_option nlIPProtoToFlowerIPProto (fl_IPProto x),
         fs_DstIP = (if fl_DestIP x \<noteq> [] then Some \<lparr>net_IP = fl_DestIP x, net_Mask = fl_DestIPMask x\<rparr> else None),
         fs_DstPort = (if fl_DestPort x \<noteq> 0 then Some (fl_DestPort x) else None)\<rparr>,
      ff_Actions = map (\<lambda>a. NewGenericAction (tcActionToActionGeneric (na_Action a)))
        (filter (\<lambda>a. na_Type a = ''generic'') (fl_Actions x))\<rparr>"
  unfolding nlFlowerFilterToFlowerFilter_def Let_def fold_actions
  by (cases "fl_Chain x"; cases "fl_IPProto x") (simp_all add: builder_simps)

text \<open>What the kernel gives back for a filter that was added: a handle of its own, chain 0 spelled
  out, the address in either form.\<close>

definition nl_same :: "NlFlower \<Rightarrow> NlFlower \<Rightarrow> bool" where
  "nl_same x k \<longleftrightarrow>
     fl_Chain x = Some (case fl_Chain k of None \<Rightarrow> 0 | Some c \<Rightarrow> c) \<and>
     fl_Priority x = fl_Priority k \<and> fl_Protocol x = fl_Protocol k \<and>
     (fl_DestIP x = [] \<longleftrightarrow> fl_DestIP k = []) \<and>
     (fl_DestIP k \<noteq> [] \<longrightarrow> norm_net \<lparr>net_IP = fl_DestIP x, net_Mask = fl_DestIPMask x\<rparr> =
        norm_net \<lparr>net_IP = fl_DestIP k, net_Mask = fl_DestIPMask k\<rparr>) \<and>
     fl_DestPort x = fl_DestPort k \<and> fl_IPProto x = fl_IPProto k \<and> fl_EthType x = fl_EthType k \<and>
     map (\<lambda>a. (na_Type a, na_Action a)) (fl_Actions x) = map (\<lambda>a. (na_Type a, na_Action a)) (fl_Actions k)"

lemma generic_actions_cong:
  "map (\<lambda>a. (na_Type a, na_Action a)) xs = map (\<lambda>a. (na_Type a, na_Action a)) ys \<Longrightarrow>
    map (\<lambda>a. tcActionToActionGeneric (na_Action a)) (filter (\<lambda>a. na_Type a = ''generic'') xs) =
    map (\<lambda>a. tcActionToActionGeneric (na_Action a)) (filter (\<lambda>a. na_Type a = ''generic'') ys)"
proof (induction xs arbitrary: ys)
  case Nil
  then show ?case by simp
next
  case (Cons x xs)
  then show ?case by (cases ys) auto
qed

lemma nl_same_norm:
  assumes "nl_same x k"
  shows "norm_filter (nlFlowerFilterToFlowerFilter x) = norm_filter (nlFlowerFilterToFlowerFilter k)"
  using assms generic_actions_cong [of "fl_Actions x" "fl_Actions k"]
  by (auto simp: nl_same_def norm_filter_def read_back NewGenericAction_def comp_def ChainDefaultChain_def
      split: option.splits)

lemma map2_actions:
  "map (\<lambda>a. NewGenericAction (tcActionToActionGeneric (na_Action a)))
     (filter (\<lambda>a. na_Type a = ''generic'') (map2 action_to_nl [n..<n + length as] as)) =
   map (\<lambda>a. NewGenericAction (tcActionToActionGeneric (actionGenericToTcAction (controlAction a)))) as"
proof (induction as arbitrary: n)
  case Nil
  then show ?case by simp
next
  case (Cons a as)
  have "[n..<n + length (a # as)] = n # [Suc n..<Suc n + length as]"
    by (simp add: upt_rec)
  with Cons [of "Suc n"] show ?case by (simp add: action_to_nl_def GenericAction_Spec_def)
qed

lemma roundtrip:
  assumes "nl_expressible f"
  shows "norm_filter (nlFlowerFilterToFlowerFilter (flowerFilterToNlFlowerFilter f parent idx)) = norm_filter f"
proof -
  let ?k = "flowerFilterToNlFlowerFilter f parent idx"
  obtain s p where s: "ff_Flower f = Some s" and p: "fa_Priority (ff_Attrs f) = Some p"
    using assms by (auto simp: nl_expressible_def)
  note e = assms [unfolded nl_expressible_def, simplified s p option.inject, simplified]
  have fields: "fl_Protocol ?k = filterProtoToUnixProto (fa_Protocol (ff_Attrs f))"
    "fl_Chain ?k = fa_Chain (ff_Attrs f)" "fl_Priority ?k = p"
    "fl_DestPort ?k = (case fs_DstPort s of None \<Rightarrow> 0 | Some q \<Rightarrow> q)"
    "fl_IPProto ?k = map_option flowerIPProtoToNlIPProto (fs_IPProto s)"
    "fl_DestIP ?k = (case fs_DstIP s of None \<Rightarrow> [] | Some n \<Rightarrow> net_IP n)"
    "fl_DestIPMask ?k = (case fs_DstIP s of None \<Rightarrow> [] | Some n \<Rightarrow> net_Mask n)"
    "fl_EthType ?k = (case fs_VlanEthType s of None \<Rightarrow> filterProtoToUnixProto (fa_Protocol (ff_Attrs f))
       | Some v \<Rightarrow> flowerVlanEthTypeToUnixProto v)"
    "fl_Actions ?k = map2 action_to_nl [0..<length (ff_Actions f)] (ff_Actions f)"
    by (simp_all add: flowerFilterToNlFlowerFilter_def Let_def s p u16ValFromPtr_def split: option.split)
  have proto: "fa_Protocol (ff_Attrs f) \<in>
      {FilterProtocolIPv4, FilterProtocolIPv6, FilterProtocol8021Q, FilterProtocolAll}"
    using e by blast
  have tag: "fl_Protocol ?k = ETH_P_8021Q \<longleftrightarrow> fa_Protocol (ff_Attrs f) = FilterProtocol8021Q"
    using tagged_proto [OF proto] fields(1) by simp
  have vlan: "(if fl_Protocol ?k = ETH_P_8021Q then Some (unixProtoToFlowerVlanEthType (fl_EthType ?k)) else None) =
      fs_VlanEthType s"
  proof (cases "fa_Protocol (ff_Attrs f) = FilterProtocol8021Q")
    case True
    then obtain v where v: "fs_VlanEthType s = Some v" "v \<in> {FlowerVlanEthTypeIPv4, FlowerVlanEthTypeIPv6}"
      using e by auto
    then show ?thesis using True proto_roundtrip(2) [OF v(2)] by (simp add: tag fields(8))
  next
    case False
    then show ?thesis using e by (simp add: tag)
  qed
  have ipproto: "map_option nlIPProtoToFlowerIPProto (fl_IPProto ?k) = fs_IPProto s"
    using e proto_roundtrip(3) by (cases "fs_IPProto s") (auto simp: fields(5))
  have dst: "(if fl_DestIP ?k \<noteq> [] then Some \<lparr>net_IP = fl_DestIP ?k, net_Mask = fl_DestIPMask ?k\<rparr> else None) =
      fs_DstIP s"
    using e by (cases "fs_DstIP s") (simp_all add: fields(6,7))
  have port: "(if fl_DestPort ?k \<noteq> 0 then Some (fl_DestPort ?k) else None) = fs_DstPort s"
    using e by (cases "fs_DstPort s") (simp_all add: fields(4))
  have acts: "map (\<lambda>a. NewGenericAction (tcActionToActionGeneric (na_Action a)))
      (filter (\<lambda>a. na_Type a = ''generic'') (fl_Actions ?k)) = ff_Actions f"
    using map2_actions [of 0 "ff_Actions f"] e proto_roundtrip(4)
    by (auto simp: fields(9) NewGenericAction_def intro!: map_idI)
  show ?thesis
    unfolding read_back vlan ipproto dst port acts
    using e by (simp add: norm_filter_def fields(1-3) proto_roundtrip(1) [OF proto] s p)
qed

section \<open>Properties\<close>

text \<open>
  C15. The netlink structures lose nothing of a filter they can express: what the driver reads
  back for a filter it added, with the handle the kernel chose, chain 0 spelled out and the
  destination in either form, is \<open>Equals\<close> to the filter.
\<close>

theorem netlink_roundtrip:
  assumes "nl_expressible f" and "nl_same x (flowerFilterToNlFlowerFilter f HANDLE_INGRESS idx)"
  shows "FlowerFilter_Equals (nlFlowerFilterToFlowerFilter x) f"
  using nl_same_norm [OF assms(2)] roundtrip [OF assms(1)] by (simp add: FlowerFilter_Equals_iff)

text \<open>
  C24. The exception is destination port 0: the structure has no way to say that a port is
  matched when it is 0, so the filter is installed without a port match, it matches every port,
  and what is read back is never \<open>Equals\<close> to the filter (each synchronisation deletes it and
  adds it again).
\<close>

theorem netlink_loses_port_zero:
  assumes "ff_Flower f = Some s" and "fs_DstPort s = Some 0"
    and "nl_same x (flowerFilterToNlFlowerFilter f HANDLE_INGRESS idx)"
  shows "\<not> FlowerFilter_Equals (nlFlowerFilterToFlowerFilter x) f \<and>
    (\<exists>t. ff_Flower (nlFlowerFilterToFlowerFilter x) = Some t \<and> fs_DstPort t = None)"
proof -
  have "fl_DestPort x = 0"
    using assms by (auto simp: nl_same_def flowerFilterToNlFlowerFilter_def Let_def split: option.splits)
  then show ?thesis
    using assms(1,2) by (auto simp: read_back FlowerFilter_Equals_iff norm_filter_def)
qed

section \<open>Examples\<close>

definition ex_nl_filter :: "u16 \<Rightarrow> FlowerFilter" where
  "ex_nl_filter port =
     gen_shape FilterProtocol8021Q (Some FlowerVlanEthTypeIPv4) (Some (ex_net 10 0 8))
       (Some \<lparr>port_Protocol = ProtocolTCP, port_Number = port\<rparr>) BasePrioPass pass_action"

text \<open>What the kernel would list for it.\<close>

definition ex_nl_listed :: "u16 \<Rightarrow> NlFlower" where
  "ex_nl_listed port = (flowerFilterToNlFlowerFilter (ex_nl_filter port) HANDLE_INGRESS 3)
     \<lparr>fl_Handle := 1, fl_Chain := Some 0\<rparr>"

lemma ex_nl_same:
  "nl_same (ex_nl_listed port) (flowerFilterToNlFlowerFilter (ex_nl_filter port) HANDLE_INGRESS 3)"
proof -
  have "fl_Chain (flowerFilterToNlFlowerFilter (ex_nl_filter port) HANDLE_INGRESS 3) = None"
    by (simp add: flowerFilterToNlFlowerFilter_def Let_def ex_nl_filter_def gen_shape_def)
  then show ?thesis by (simp add: nl_same_def ex_nl_listed_def)
qed

theorem netlink_roundtrip_witness:
  "FlowerFilter_Equals (nlFlowerFilterToFlowerFilter (ex_nl_listed 80)) (ex_nl_filter 80)"
proof (rule netlink_roundtrip [OF _ ex_nl_same])
  show "nl_expressible (ex_nl_filter 80)"
    by (simp add: nl_expressible_def ex_nl_filter_def gen_shape_def ex_net_def pass_action_def
        PortProtocolToFlowerIPProto_def BasePrioPass_def)
qed

theorem netlink_loses_port_zero_witness:
  "\<not> FlowerFilter_Equals (nlFlowerFilterToFlowerFilter (ex_nl_listed 0)) (ex_nl_filter 0)"
  using netlink_loses_port_zero [OF _ _ ex_nl_same, of 0] by (simp add: ex_nl_filter_def gen_shape_def)

end
