(* ===== verification/Go_Json.thy ===== *)
theory Go_Json
  imports Go_Strings Prelude
begin

text \<open>
  What the program uses of Go's \<open>encoding/json\<close>: \<open>Unmarshal\<close> of a text into structures with
  string, unsigned integer, pointer, slice and structure fields. First the scanner, from bytes to
  a tree; then the decoding rules of \<open>Unmarshal\<close>: null leaves a value as it is, an unknown key is
  skipped, a key matches a field by its name or, when there is none, without regard to case, a
  value of another type is an error. Bytes outside ASCII are kept as they are (Go replaces
  invalid UTF-8). The scanner takes fuel; \<open>scan_fuel\<close> says that more fuel than bytes changes nothing.
\<close>

section \<open>The scanner\<close>

datatype json =
    JNull
  | JBool bool
  | JNum string
  | JStr string
  | JArr "json list"
  | JObj "(string \<times> json) list"

definition json_ws :: "char \<Rightarrow> bool" where
  "json_ws c \<longleftrightarrow> c = CHR '' '' \<or> c = CHR 0x09 \<or> c = CHR 0x0A \<or> c = CHR 0x0D"

definition skip_ws :: "string \<Rightarrow> string" where
  "skip_ws s = dropWhile json_ws s"

definition json_escape :: "char \<Rightarrow> char option" where
  "json_escape e = map_of [(CHR 0x22, CHR 0x22), (CHR 0x5C, CHR 0x5C), (CHR ''/'', CHR ''/''),
     (CHR ''b'', CHR 0x08), (CHR ''f'', CHR 0x0C), (CHR ''n'', CHR 0x0A), (CHR ''r'', CHR 0x0D),
     (CHR ''t'', CHR 0x09)] e"

definition hex_value :: "string \<Rightarrow> nat option" where
  "hex_value ds = (case parse_digits False 16 (2 ^ 16) 0 ds of Inl _ \<Rightarrow> None | Inr n \<Rightarrow> Some n)"

text \<open>The UTF-8 bytes of a code point.\<close>

definition utf8 :: "nat \<Rightarrow> string" where
  "utf8 n =
     (if n < 0x80 then [char_of n]
      else if n < 0x800 then [char_of (0xC0 + n div 64), char_of (0x80 + n mod 64)]
      else if n < 0x10000
        then [char_of (0xE0 + n div 4096), char_of (0x80 + n div 64 mod 64), char_of (0x80 + n mod 64)]
      else [char_of (0xF0 + n div 262144), char_of (0x80 + n div 4096 mod 64),
            char_of (0x80 + n div 64 mod 64), char_of (0x80 + n mod 64)])"

text \<open>
  The code point of a \<open>\u\<close> escape and the rest: two surrogates make one code point, a lonely one
  is replaced.
\<close>

definition unicode_escape :: "string \<Rightarrow> (nat \<times> string) option" where
  "unicode_escape s =
     (if length s < 4 then None
      else case hex_value (take 4 s) of
        None \<Rightarrow> None
      | Some u \<Rightarrow>
          let r = drop 4 s in
          if u < 0xD800 \<or> 0xE000 \<le> u then Some (u, r)
          else
            (case (if take 2 r = [CHR 0x5C, CHR ''u''] \<and> 6 \<le> length r then hex_value (take 4 (drop 2 r)) else None) of
               Some v \<Rightarrow>
                 if u < 0xDC00 \<and> 0xDC00 \<le> v \<and> v < 0xE000
                 then Some (0x10000 + (u - 0xD800) * 1024 + (v - 0xDC00), drop 6 r)
                 else Some (0xFFFD, r)
             | None \<Rightarrow> Some (0xFFFD, r)))"

lemma unicode_escape_shorter: "unicode_escape s = Some (u, r) \<Longrightarrow> length r < length s"
  by (auto simp: unicode_escape_def Let_def split: if_splits option.splits)

text \<open>The text of a string after its opening quote, and what follows the closing one.\<close>

function scan_string :: "string \<Rightarrow> (string \<times> string) option" where
  "scan_string [] = None"
| "scan_string (c # cs) =
     (if c = CHR 0x22 then Some ([], cs)
      else if c = CHR 0x5C then
        (case cs of
           [] \<Rightarrow> None
         | e # ds \<Rightarrow>
             (case json_escape e of
                Some x \<Rightarrow> map_option (\<lambda>(t, r). (x # t, r)) (scan_string ds)
              | None \<Rightarrow>
                  if e = CHR ''u'' then
                    (case unicode_escape ds of
                       None \<Rightarrow> None
                     | Some (u, r) \<Rightarrow> map_option (\<lambda>(t, r'). (utf8 u @ t, r')) (scan_string r))
                  else None))
      else if (of_char c :: nat) < 0x20 then None
      else map_option (\<lambda>(t, r). (c # t, r)) (scan_string cs))"
  by pat_completeness auto
termination
  by (relation "measure length") (auto dest: unicode_escape_shorter)

lemma scan_string_shorter: "scan_string s = Some (t, r) \<Longrightarrow> length r < length s"
proof (induction s arbitrary: t r rule: scan_string.induct)
  case 1
  then show ?case by simp
next
  case (2 c cs)
  then show ?case
    by (auto split: if_splits list.splits option.splits dest!: unicode_escape_shorter) fastforce+
qed

definition digits :: "string \<Rightarrow> string \<times> string" where
  "digits s = (takeWhile is_dec_digit s, dropWhile is_dec_digit s)"

text \<open>\<open>-?(0|[1-9][0-9]*)(\.[0-9]+)?([eE][+-]?[0-9]+)?\<close>, with what follows it.\<close>

definition scan_fraction :: "string \<Rightarrow> (string \<times> string) option" where
  "scan_fraction s =
     (case s of
        c # cs \<Rightarrow>
          if c = CHR ''.'' then
            (case digits cs of (ds, r) \<Rightarrow> if ds = [] then None else Some (c # ds, r))
          else Some ([], s)
      | [] \<Rightarrow> Some ([], s))"

definition scan_exponent :: "string \<Rightarrow> (string \<times> string) option" where
  "scan_exponent s =
     (case s of
        c # cs \<Rightarrow>
          if c = CHR ''e'' \<or> c = CHR ''E'' then
            (let (sign, cs') = (case cs of
                 x # xs \<Rightarrow> if x = CHR ''+'' \<or> x = CHR ''-'' then ([x], xs) else ([], cs)
               | [] \<Rightarrow> ([], cs));
                 (ds, r) = digits cs'
             in if ds = [] then None else Some (c # sign @ ds, r))
          else Some ([], s)
      | [] \<Rightarrow> Some ([], s))"

definition scan_number :: "string \<Rightarrow> (string \<times> string) option" where
  "scan_number s0 =
     (let (sign, s) = (case s0 of
            c # cs \<Rightarrow> if c = CHR ''-'' then ([c], cs) else ([], s0)
          | [] \<Rightarrow> ([], s0));
          (ds, r) = (case s of
            c # cs \<Rightarrow> if c = CHR ''0'' then ([c], cs) else digits s
          | [] \<Rightarrow> ([], s))
      in if ds = [] then None
         else (case scan_fraction r of
                 None \<Rightarrow> None
               | Some (f, r1) \<Rightarrow>
                   (case scan_exponent r1 of
                      None \<Rightarrow> None
                    | Some (e, r2) \<Rightarrow> Some (sign @ ds @ f @ e, r2))))"

text \<open>A value, the rest of an array after its bracket, the rest of an object after its brace.\<close>

fun scan_value :: "nat \<Rightarrow> string \<Rightarrow> (json \<times> string) option"
  and scan_elems :: "nat \<Rightarrow> string \<Rightarrow> (json list \<times> string) option"
  and scan_members :: "nat \<Rightarrow> string \<Rightarrow> ((string \<times> json) list \<times> string) option" where
  "scan_value 0 s = None"
| "scan_value (Suc n) s =
     (case skip_ws s of
        [] \<Rightarrow> None
      | c # cs \<Rightarrow>
          if c = CHR ''{'' then
            (case skip_ws cs of
               [] \<Rightarrow> None
             | d # ds \<Rightarrow>
                 if d = CHR ''}'' then Some (JObj [], ds)
                 else map_option (\<lambda>(ms, r). (JObj ms, r)) (scan_members n (d # ds)))
          else if c = CHR ''['' then
            (case skip_ws cs of
               [] \<Rightarrow> None
             | d # ds \<Rightarrow>
                 if d = CHR '']'' then Some (JArr [], ds)
                 else map_option (\<lambda>(vs, r). (JArr vs, r)) (scan_elems n (d # ds)))
          else if c = CHR 0x22 then map_option (\<lambda>(t, r). (JStr t, r)) (scan_string cs)
          else if take 4 (c # cs) = ''true'' then Some (JBool True, drop 3 cs)
          else if take 5 (c # cs) = ''false'' then Some (JBool False, drop 4 cs)
          else if take 4 (c # cs) = ''null'' then Some (JNull, drop 3 cs)
          else map_option (\<lambda>(t, r). (JNum t, r)) (scan_number (c # cs)))"
| "scan_elems 0 s = None"
| "scan_elems (Suc n) s =
     (case scan_value n s of
        None \<Rightarrow> None
      | Some (v, r) \<Rightarrow>
          (case skip_ws r of
             [] \<Rightarrow> None
           | c # cs \<Rightarrow>
               if c = CHR '','' then map_option (\<lambda>(vs, r'). (v # vs, r')) (scan_elems n cs)
               else if c = CHR '']'' then Some ([v], cs)
               else None))"
| "scan_members 0 s = None"
| "scan_members (Suc n) s =
     (case skip_ws s of
        [] \<Rightarrow> None
      | q # qs \<Rightarrow>
          if q \<noteq> CHR 0x22 then None
          else
            (case scan_string qs of
               None \<Rightarrow> None
             | Some (k, r0) \<Rightarrow>
                 (case skip_ws r0 of
                    [] \<Rightarrow> None
                  | colon # r1 \<Rightarrow>
                      if colon \<noteq> CHR '':'' then None
                      else
                        (case scan_value n r1 of
                           None \<Rightarrow> None
                         | Some (v, r) \<Rightarrow>
                             (case skip_ws r of
                                [] \<Rightarrow> None
                              | c # cs \<Rightarrow>
                                  if c = CHR '','' then map_option (\<lambda>(ms, r'). ((k, v) # ms, r')) (scan_members n cs)
                                  else if c = CHR ''}'' then Some ([(k, v)], cs)
                                  else None)))))"

definition json_scan :: "string \<Rightarrow> error + json" where
  "json_scan s =
     (case scan_value (2 * length s + 2) s of
        Some (v, r) \<Rightarrow> if skip_ws r = [] then Inr v else Inl (External ''invalid character after top-level value'')
      | None \<Rightarrow> Inl (External ''invalid character or unexpected end of JSON input''))"

section \<open>The fuel is enough\<close>

lemma length_skip_ws: "length (skip_ws s) \<le> length s"
  by (simp add: skip_ws_def length_dropWhile_le)

lemma skip_ws_Cons: "skip_ws s = c # cs \<Longrightarrow> length cs < length s"
  using length_skip_ws [of s] by simp

lemma digits_length: "digits s = (ds, r) \<Longrightarrow> length ds + length r = length s"
  by (auto simp: digits_def) (metis length_append takeWhile_dropWhile_id)

lemma scan_fraction_length: "scan_fraction s = Some (f, r) \<Longrightarrow> length r \<le> length s"
  by (auto simp: scan_fraction_def split: list.splits if_splits prod.splits dest!: digits_length)

lemma scan_exponent_length: "scan_exponent s = Some (f, r) \<Longrightarrow> length r \<le> length s"
  by (auto simp: scan_exponent_def Let_def split: list.splits if_splits prod.splits dest!: digits_length)

lemma scan_number_shorter: "scan_number s = Some (t, r) \<Longrightarrow> length r < length s"
proof -
  assume a: "scan_number s = Some (t, r)"
  obtain sign s1 where s1: "(case s of c # cs \<Rightarrow> if c = CHR ''-'' then ([c], cs) else ([], s) | [] \<Rightarrow> ([], s)) = (sign, s1)"
    by fastforce
  obtain ds r0 where ds: "(case s1 of c # cs \<Rightarrow> if c = CHR ''0'' then ([c], cs) else digits s1 | [] \<Rightarrow> ([], s1)) = (ds, r0)"
    by fastforce
  have l1: "length s1 \<le> length s" using s1 by (auto split: list.splits if_splits)
  have "length ds + length r0 = length s1" using ds by (auto split: list.splits if_splits dest: digits_length)
  moreover have "ds \<noteq> []" using a by (auto simp: scan_number_def s1 ds)
  ultimately have "length r0 < length s" using l1 by (cases ds) auto
  moreover have "length r \<le> length r0"
    using a by (auto simp: scan_number_def s1 ds split: if_splits option.splits
        dest!: scan_fraction_length scan_exponent_length)
  ultimately show ?thesis by simp
qed

lemma scan_shorter:
  "scan_value n s = Some (v, r) \<Longrightarrow> length r < length s"
  "scan_elems n s = Some (vs, r) \<Longrightarrow> length r < length s"
  "scan_members n s = Some (ms, r) \<Longrightarrow> length r < length s"
proof (induction n s and n s and n s arbitrary: v r and vs r and ms r
    rule: scan_value_scan_elems_scan_members.induct)
  case (2 n s)
  then show ?case
    by (fastforce split: list.splits if_splits dest!: skip_ws_Cons scan_string_shorter scan_number_shorter)
next
  case (4 n s)
  then show ?case
    by (fastforce split: list.splits if_splits option.splits dest!: skip_ws_Cons)
next
  case (6 n s)
  then show ?case
    by (fastforce split: list.splits if_splits option.splits dest!: skip_ws_Cons scan_string_shorter)
qed simp_all

text \<open>Two amounts of fuel that are enough give the same result.\<close>

lemma scan_fuel:
  "2 * length s + 1 \<le> n \<Longrightarrow> 2 * length s + 1 \<le> m \<Longrightarrow> scan_value n s = scan_value m s"
  "2 * length s + 2 \<le> n \<Longrightarrow> 2 * length s + 2 \<le> m \<Longrightarrow> scan_elems n s = scan_elems m s"
  "2 * length s + 2 \<le> n \<Longrightarrow> 2 * length s + 2 \<le> m \<Longrightarrow> scan_members n s = scan_members m s"
proof (induction n s and n s and n s arbitrary: m and m and m
    rule: scan_value_scan_elems_scan_members.induct)
  case (2 n s)
  obtain m' where m: "m = Suc m'" using 2(4) by (cases m) auto
  show ?case
  proof (cases "skip_ws s")
    case Nil
    then show ?thesis by (simp add: m)
  next
    case (Cons c cs)
    note l = skip_ws_Cons [OF Cons]
    show ?thesis
    proof (cases "skip_ws cs")
      case Nil
      then show ?thesis using Cons by (simp add: m)
    next
      case (Cons d ds)
      note l' = skip_ws_Cons [OF Cons]
      have "c = CHR ''{'' \<Longrightarrow> d \<noteq> CHR ''}'' \<Longrightarrow> scan_members n (d # ds) = scan_members m' (d # ds)"
        using 2(1) [OF \<open>skip_ws s = c # cs\<close> _ Cons, of m'] 2(3,4) l l' by (simp add: m)
      moreover have "c = CHR ''['' \<Longrightarrow> d \<noteq> CHR '']'' \<Longrightarrow> scan_elems n (d # ds) = scan_elems m' (d # ds)"
        using 2(2) [OF \<open>skip_ws s = c # cs\<close> _ _ Cons, of m'] 2(3,4) l l' by (simp add: m)
      ultimately show ?thesis using Cons \<open>skip_ws s = c # cs\<close> by (auto simp: m)
    qed
  qed
next
  case (4 n s)
  obtain m' where m: "m = Suc m'" using 4(4) by (cases m) auto
  have v: "scan_value n s = scan_value m' s" using 4(1) [of m'] 4(3,4) by (simp add: m)
  show ?case
  proof (cases "scan_value n s")
    case None
    then show ?thesis using v by (simp add: m)
  next
    case (Some p)
    obtain x r where p: "p = (x, r)" by fastforce
    show ?thesis
    proof (cases "skip_ws r")
      case Nil
      then show ?thesis using Some p v by (simp add: m)
    next
      case (Cons c cs)
      have "length cs < length r" "length r < length s"
        using skip_ws_Cons [OF Cons] scan_shorter(1) Some p by auto
      then have "c = CHR '','' \<Longrightarrow> scan_elems n cs = scan_elems m' cs"
        using 4(2) [OF Some p [symmetric] Cons, of m'] 4(3,4) by (simp add: m)
      then show ?thesis using Some p v Cons by (simp add: m)
    qed
  qed
next
  case (6 n s)
  obtain m' where m: "m = Suc m'" using 6(4) by (cases m) auto
  show ?case
  proof (cases "\<exists>qs k r0 r1. skip_ws s = CHR 0x22 # qs \<and> scan_string qs = Some (k, r0) \<and> skip_ws r0 = CHR '':'' # r1")
    case False
    then show ?thesis by (auto simp: m split: list.split option.split)
  next
    case True
    then obtain qs k r0 r1 where q: "skip_ws s = CHR 0x22 # qs" "scan_string qs = Some (k, r0)"
        "skip_ws r0 = CHR '':'' # r1" by blast
    have l1: "length r1 < length s"
      using skip_ws_Cons [OF q(1)] scan_string_shorter [OF q(2)] skip_ws_Cons [OF q(3)] by simp
    have v: "scan_value n r1 = scan_value m' r1"
      using 6(1) [OF q(1) _ q(2) refl q(3), of m'] 6(3,4) l1 by (simp add: m)
    show ?thesis
    proof (cases "scan_value n r1")
      case None
      then show ?thesis using v q by (simp add: m)
    next
      case (Some p)
      obtain x r where p: "p = (x, r)" by fastforce
      show ?thesis
      proof (cases "skip_ws r")
        case Nil
        then show ?thesis using Some p v q by (simp add: m)
      next
        case (Cons c cs)
        have "length cs < length r" "length r < length r1"
          using skip_ws_Cons [OF Cons] scan_shorter(1) Some p by auto
        then have "c = CHR '','' \<Longrightarrow> scan_members n cs = scan_members m' cs"
          using 6(2) [OF q(1) _ q(2) refl q(3) _ Some p [symmetric] Cons, of m'] 6(3,4) l1 by (simp add: m)
        then show ?thesis using Some p v q Cons by (simp add: m)
      qed
    qed
  qed
qed simp_all
corollary json_scan_fuel:
  assumes "2 * length s + 2 \<le> n"
  shows "json_scan s =
    (case scan_value n s of
       Some (v, r) \<Rightarrow> if skip_ws r = [] then Inr v else Inl (External ''invalid character after top-level value'')
     | None \<Rightarrow> Inl (External ''invalid character or unexpected end of JSON input''))"
  using scan_fuel(1) [of s "2 * length s + 2" n] assms by (simp add: json_scan_def)

section \<open>Decoding\<close>

text \<open>A decoder gets the value a variable has and gives the one \<open>Unmarshal\<close> leaves in it.\<close>

type_synonym 'a decoder = "json \<Rightarrow> 'a \<Rightarrow> error + 'a"

definition type_error :: error where
  "type_error = External ''json: cannot unmarshal value into Go value''"

definition decode_string :: "string decoder" where
  "decode_string j old = (case j of JStr s \<Rightarrow> Inr s | JNull \<Rightarrow> Inr old | _ \<Rightarrow> Inl type_error)"

definition decode_uint :: "('l::len) word decoder" where
  "decode_uint j old =
     (case j of
        JNum t \<Rightarrow> (case ParseUint t 10 LENGTH('l) of Inl _ \<Rightarrow> Inl type_error | Inr n \<Rightarrow> Inr (of_nat n))
      | JNull \<Rightarrow> Inr old
      | _ \<Rightarrow> Inl type_error)"

text \<open>A pointer is set to nil by null, else to the decoded value (of what it pointed to, or of zero).\<close>

definition decode_ptr :: "'a \<Rightarrow> 'a decoder \<Rightarrow> 'a option decoder" where
  "decode_ptr zero dec j old =
     (case j of
        JNull \<Rightarrow> Inr None
      | _ \<Rightarrow> (case dec j (case old of None \<Rightarrow> zero | Some v \<Rightarrow> v) of Inl e \<Rightarrow> Inl e | Inr v \<Rightarrow> Inr (Some v)))"

definition decode_slice :: "'a \<Rightarrow> 'a decoder \<Rightarrow> 'a list decoder" where
  "decode_slice zero dec j old =
     (case j of
        JNull \<Rightarrow> Inr []
      | JArr vs \<Rightarrow> map_until_error (\<lambda>v. dec v zero) vs
      | _ \<Rightarrow> Inl type_error)"

definition find_field :: "(string \<times> 'a) list \<Rightarrow> string \<Rightarrow> 'a option" where
  "find_field fields k =
     (case map_of fields k of
        Some f \<Rightarrow> Some f
      | None \<Rightarrow> map_option snd (find (\<lambda>(n, _). to_lower n = to_lower k) fields))"

fun decode_members :: "(string \<times> 'a decoder) list \<Rightarrow> (string \<times> json) list \<Rightarrow> 'a \<Rightarrow> error + 'a" where
  "decode_members fields [] old = Inr old"
| "decode_members fields ((k, v) # ms) old =
     (case find_field fields k of
        None \<Rightarrow> decode_members fields ms old
      | Some dec \<Rightarrow> (case dec v old of Inl e \<Rightarrow> Inl e | Inr new \<Rightarrow> decode_members fields ms new))"

definition decode_struct :: "(string \<times> 'a decoder) list \<Rightarrow> 'a decoder" where
  "decode_struct fields j old =
     (case j of JObj ms \<Rightarrow> decode_members fields ms old | JNull \<Rightarrow> Inr old | _ \<Rightarrow> Inl type_error)"

text \<open>A field of a structure, by its getter and its setter.\<close>

definition field :: "('a \<Rightarrow> 'b) \<Rightarrow> (('b \<Rightarrow> 'b) \<Rightarrow> 'a \<Rightarrow> 'a) \<Rightarrow> 'b decoder \<Rightarrow> 'a decoder" where
  "field get upd dec j old = (case dec j (get old) of Inl e \<Rightarrow> Inl e | Inr v \<Rightarrow> Inr (upd (\<lambda>_. v) old))"

end
