(* ===== verification/Tc_Cmdline.thy ===== *)
theory Tc_Cmdline
  imports Tc_Actuator Go_Json
begin

text \<open>
  Model of \<open>pkg/tc/driver/cmdline\<close>: the driver that runs the \<open>tc\<close> program and reads its JSON
  output. The program is a parameter, an executor that runs a command with its arguments in the
  world; the commands, the decoding of the output and the conversion into objects are the code's.
\<close>

section \<open>Output objects (objects.go)\<close>

record cQDisc =
  cq_Kind :: string
  cq_Handle :: string
  cq_Parent :: string

record cChain =
  cc_Parent :: string
  cc_Chain :: u32

record cFlowerKeys =
  ck_VlanEthType :: "string option"
  ck_IPProto :: "string option"
  ck_DstIP :: "string option"
  ck_DstPort :: "u16 option"

record cControlAction =
  cca_Type :: string

record cAction =
  ca_Order :: "64 word"
  ca_Kind :: string
  ca_ControlAction :: cControlAction

record cFilterOptions =
  co_Handle :: u32
  co_Keys :: cFlowerKeys
  co_Actions :: "cAction list"

record cFilter =
  cf_Protocol :: string
  cf_Priority :: u16
  cf_Kind :: string
  cf_Chain :: u32
  cf_Options :: "cFilterOptions option"

definition zero_cQDisc :: cQDisc where
  "zero_cQDisc = \<lparr>cq_Kind = [], cq_Handle = [], cq_Parent = []\<rparr>"

definition decode_cQDisc :: "cQDisc decoder" where
  "decode_cQDisc = decode_struct
     [(''kind'', field cq_Kind cq_Kind_update decode_string),
      (''handle'', field cq_Handle cq_Handle_update decode_string),
      (''parent'', field cq_Parent cq_Parent_update decode_string)]"

definition zero_cChain :: cChain where
  "zero_cChain = \<lparr>cc_Parent = [], cc_Chain = 0\<rparr>"

definition decode_cChain :: "cChain decoder" where
  "decode_cChain = decode_struct
     [(''parent'', field cc_Parent cc_Parent_update decode_string),
      (''chain'', field cc_Chain cc_Chain_update decode_uint)]"

definition zero_cFlowerKeys :: cFlowerKeys where
  "zero_cFlowerKeys = \<lparr>ck_VlanEthType = None, ck_IPProto = None, ck_DstIP = None, ck_DstPort = None\<rparr>"

definition decode_cFlowerKeys :: "cFlowerKeys decoder" where
  "decode_cFlowerKeys = decode_struct
     [(''vlan_ethtype'', field ck_VlanEthType ck_VlanEthType_update (decode_ptr [] decode_string)),
      (''ip_proto'', field ck_IPProto ck_IPProto_update (decode_ptr [] decode_string)),
      (''dst_ip'', field ck_DstIP ck_DstIP_update (decode_ptr [] decode_string)),
      (''dst_port'', field ck_DstPort ck_DstPort_update (decode_ptr 0 decode_uint))]"

definition decode_cControlAction :: "cControlAction decoder" where
  "decode_cControlAction = decode_struct [(''type'', field cca_Type cca_Type_update decode_string)]"

definition zero_cAction :: cAction where
  "zero_cAction = \<lparr>ca_Order = 0, ca_Kind = [], ca_ControlAction = \<lparr>cca_Type = []\<rparr>\<rparr>"

definition decode_cAction :: "cAction decoder" where
  "decode_cAction = decode_struct
     [(''order'', field ca_Order ca_Order_update decode_uint),
      (''kind'', field ca_Kind ca_Kind_update decode_string),
      (''control_action'', field ca_ControlAction ca_ControlAction_update decode_cControlAction)]"

definition zero_cFilterOptions :: cFilterOptions where
  "zero_cFilterOptions = \<lparr>co_Handle = 0, co_Keys = zero_cFlowerKeys, co_Actions = []\<rparr>"

definition decode_cFilterOptions :: "cFilterOptions decoder" where
  "decode_cFilterOptions = decode_struct
     [(''handle'', field co_Handle co_Handle_update decode_uint),
      (''keys'', field co_Keys co_Keys_update decode_cFlowerKeys),
      (''actions'', field co_Actions co_Actions_update (decode_slice zero_cAction decode_cAction))]"

definition zero_cFilter :: cFilter where
  "zero_cFilter = \<lparr>cf_Protocol = [], cf_Priority = 0, cf_Kind = [], cf_Chain = 0, cf_Options = None\<rparr>"

definition decode_cFilter :: "cFilter decoder" where
  "decode_cFilter = decode_struct
     [(''protocol'', field cf_Protocol cf_Protocol_update decode_string),
      (''pref'', field cf_Priority cf_Priority_update decode_uint),
      (''kind'', field cf_Kind cf_Kind_update decode_string),
      (''chain'', field cf_Chain cf_Chain_update decode_uint),
      (''options'', field cf_Options cf_Options_update (decode_ptr zero_cFilterOptions decode_cFilterOptions))]"

text \<open>\<open>json.Unmarshal(out, &objs)\<close> for a slice of objects.\<close>

definition unmarshal_slice :: "'a \<Rightarrow> 'a decoder \<Rightarrow> string \<Rightarrow> error + 'a list" where
  "unmarshal_slice zero dec out =
     (case json_scan out of Inl e \<Rightarrow> Inl e | Inr j \<Rightarrow> decode_slice zero dec j [])"

section \<open>Converters (converters.go)\<close>

definition sToFilterProtocol :: "string \<Rightarrow> FilterProtocol" where
  "sToFilterProtocol proto =
     (let p = to_lower proto in
      if p = ''all'' then FilterProtocolAll
      else if p = ''ip'' then FilterProtocolIPv4
      else if p = ''ipv6'' then FilterProtocolIPv6
      else if p = ''802.1q'' then FilterProtocol8021Q
      else [])"

definition sToFlowerIPProto :: "string \<Rightarrow> FlowerIPProto" where
  "sToFlowerIPProto ipp =
     (let p = to_lower ipp in
      if p = ''tcp'' then FlowerIPProtoTCP else if p = ''udp'' then FlowerIPProtoUDP else [])"

definition sToFlowerVlanEthType :: "string \<Rightarrow> FlowerVlanEthType" where
  "sToFlowerVlanEthType ethtype =
     (let p = to_lower ethtype in
      if p = ''ip'' then FlowerVlanEthTypeIPv4 else if p = ''ipv6'' then FlowerVlanEthTypeIPv6 else [])"

section \<open>Handles (parseMajorMinor)\<close>

definition parse_hex32 :: "string \<Rightarrow> error + u32" where
  "parse_hex32 s =
     (case ParseUint s 16 32 of Inl _ \<Rightarrow> Inl (External ''strconv.ParseUint'') | Inr n \<Rightarrow> Inr (of_nat n))"

definition parseMajorMinor :: "string \<Rightarrow> error + u32" where
  "parseMajorMinor mm =
     (case split_on CHR '':'' mm of
        [p] \<Rightarrow> parse_hex32 p
      | [p, q] \<Rightarrow>
          (case parse_hex32 p of
             Inl e \<Rightarrow> Inl e
           | Inr major \<Rightarrow>
               if 0 < length q then
                 (case parse_hex32 q of
                    Inl e \<Rightarrow> Inl e
                  | Inr minor \<Rightarrow> Inr (push_bit 16 (major AND 0xffff) OR (minor AND 0xffff)))
               else Inr major)
      | _ \<Rightarrow> Inl (Errorf ''failed to parse MajorMinor string:'' [mm]))"

section \<open>Running tc\<close>

text \<open>\<open>Command(cmd, args...).Run()\<close> and \<open>.Output()\<close>.\<close>

record 'w Executor =
  Cmd_Run :: "string \<Rightarrow> string list \<Rightarrow> 'w \<Rightarrow> error option \<times> 'w"
  Cmd_Output :: "string \<Rightarrow> string list \<Rightarrow> 'w \<Rightarrow> (error + string) \<times> 'w"

record 'w TcCmdLineImpl =
  cl_netDev :: string
  cl_executor :: "'w Executor"
  cl_cmdline :: string
  cl_options :: "string list"

definition NewTcCmdLineImpl_obj :: "string \<Rightarrow> 'w Executor \<Rightarrow> 'w TcCmdLineImpl" where
  "NewTcCmdLineImpl_obj dev executor =
     \<lparr>cl_netDev = dev, cl_executor = executor, cl_cmdline = ''tc'', cl_options = [''-json'']\<rparr>"

definition execTcCmdNoOutput :: "'w TcCmdLineImpl \<Rightarrow> string list \<Rightarrow> 'w \<Rightarrow> error option \<times> 'w" where
  "execTcCmdNoOutput t args = Cmd_Run (cl_executor t) ''tc'' (cl_options t @ args)"

definition execTcCmd :: "'w TcCmdLineImpl \<Rightarrow> string list \<Rightarrow> 'w \<Rightarrow> (error + string) \<times> 'w" where
  "execTcCmd t args = Cmd_Output (cl_executor t) ''tc'' (cl_options t @ args)"

section \<open>The driver\<close>

definition Cl_QDiscAdd :: "'w TcCmdLineImpl \<Rightarrow> QDisc \<Rightarrow> 'w \<Rightarrow> error option \<times> 'w" where
  "Cl_QDiscAdd t qdisc =
     execTcCmdNoOutput t ([''qdisc'', ''add'', ''dev'', cl_netDev t] @ QDisc_GenCmdLineArgs qdisc)"

definition Cl_QDiscDel :: "'w TcCmdLineImpl \<Rightarrow> QDisc \<Rightarrow> 'w \<Rightarrow> error option \<times> 'w" where
  "Cl_QDiscDel t qdisc =
     execTcCmdNoOutput t ([''qdisc'', ''del'', ''dev'', cl_netDev t] @ QDisc_GenCmdLineArgs qdisc)"

text \<open>A listed qdisc, nothing when it is not an ingress one.\<close>

definition read_qdisc :: "cQDisc \<Rightarrow> error + QDisc list" where
  "read_qdisc q =
     (if cq_Kind q \<noteq> QDiscIngressType then Inr []
      else case parseMajorMinor (cq_Handle q) of
        Inl e \<Rightarrow> Inl (Wrap ''Failed to parse qdisc Handle'' e)
      | Inr handle \<Rightarrow>
          (case parseMajorMinor (cq_Parent q) of
             Inl e \<Rightarrow> Inl (Wrap ''Failed to parse qdisc Parent'' e)
           | Inr parent \<Rightarrow>
               Inr [QDisc_Build (QDisc_WithHandle handle (QDisc_WithParent parent NewIngressQDiscBuilder))]))"

text \<open>List, decode and convert: an error of any step is returned.\<close>

definition list_objects ::
  "'w TcCmdLineImpl \<Rightarrow> string list \<Rightarrow> 'c \<Rightarrow> 'c decoder \<Rightarrow> ('c \<Rightarrow> error + 'o list) \<Rightarrow> 'w \<Rightarrow>
    (error + 'o list) \<times> 'w" where
  "list_objects t args zero dec read w =
     (case execTcCmd t args w of
        (Inl e, w') \<Rightarrow> (Inl e, w')
      | (Inr out, w') \<Rightarrow>
          (case unmarshal_slice zero dec out of
             Inl e \<Rightarrow> (Inl e, w')
           | Inr cs \<Rightarrow>
               (case map_until_error read cs of
                  Inl e \<Rightarrow> (Inl e, w')
                | Inr objs \<Rightarrow> (Inr (concat objs), w'))))"

definition Cl_QDiscList :: "'w TcCmdLineImpl \<Rightarrow> 'w \<Rightarrow> (error + QDisc list) \<times> 'w" where
  "Cl_QDiscList t =
     list_objects t [''qdisc'', ''list'', ''dev'', cl_netDev t] zero_cQDisc decode_cQDisc read_qdisc"

definition Cl_FilterAdd :: "'w TcCmdLineImpl \<Rightarrow> QDisc \<Rightarrow> FlowerFilter \<Rightarrow> 'w \<Rightarrow> error option \<times> 'w" where
  "Cl_FilterAdd t qdisc f =
     execTcCmdNoOutput t ([''filter'', ''add'', ''dev'', cl_netDev t] @ QDisc_GenCmdLineArgs qdisc @
       FlowerFilter_GenCmdLineArgs f)"

definition Cl_FilterDel :: "'w TcCmdLineImpl \<Rightarrow> QDisc \<Rightarrow> FilterAttrs \<Rightarrow> 'w \<Rightarrow> error option \<times> 'w" where
  "Cl_FilterDel t qdisc filterAttr =
     execTcCmdNoOutput t ([''filter'', ''del'', ''dev'', cl_netDev t] @ QDisc_GenCmdLineArgs qdisc @
       FilterAttrs_GenCmdLineArgs filterAttr)"

text \<open>The actions of a listed filter, added to the builder one by one.\<close>

fun read_actions :: "cAction list \<Rightarrow> FlowerFilterBuilder \<Rightarrow> error + FlowerFilterBuilder" where
  "read_actions [] fb = Inr fb"
| "read_actions (a # as) fb =
     (if ca_Kind a \<noteq> ActionTypeGeneric then Inl (Errorf ''unexpected action:'' [ca_Kind a])
      else read_actions as (WithAction (NewGenericAction (cca_Type (ca_ControlAction a))) fb))"

definition read_filter :: "cFilter \<Rightarrow> error + FlowerFilter list" where
  "read_filter f =
     (case cf_Options f of
        None \<Rightarrow> Inr []
      | Some opts \<Rightarrow>
          if cf_Kind f \<noteq> FilterKindFlower then Inl (Errorf ''unexpected filter Kind:'' [cf_Kind f])
          else
            let keys = co_Keys opts;
                fb = Flower_WithHandle (co_Handle opts) (Flower_WithPriority (cf_Priority f)
                  (Flower_WithProtocol (sToFilterProtocol (cf_Protocol f))
                    (Flower_WithChain (cf_Chain f) NewFlowerFilterBuilder)));
                fb1 = (case ck_VlanEthType keys of None \<Rightarrow> fb
                       | Some v \<Rightarrow> WithMatchKeyVlanEthType (sToFlowerVlanEthType v) fb);
                fb2 = (case ck_IPProto keys of None \<Rightarrow> fb1
                       | Some p \<Rightarrow> WithMatchKeyIPProto (sToFlowerIPProto p) fb1)
            in case (case ck_DstIP keys of
                       None \<Rightarrow> Inr fb2
                     | Some ip \<Rightarrow>
                         (case IPToIPNet ip of
                            Inl e \<Rightarrow> Inl (Wrap (''failed to parse dest IP: '' @ ip) e)
                          | Inr ipn \<Rightarrow> Inr (WithMatchKeyDstIP ipn fb2))) of
                 Inl e \<Rightarrow> Inl e
               | Inr fb3 \<Rightarrow>
                   let fb4 = (case ck_DstPort keys of None \<Rightarrow> fb3 | Some p \<Rightarrow> WithMatchKeyDstPort p fb3)
                   in (case read_actions (co_Actions opts) fb4 of
                         Inl e \<Rightarrow> Inl e
                       | Inr fb5 \<Rightarrow> Inr [Flower_Build fb5]))"

definition Cl_FilterList :: "'w TcCmdLineImpl \<Rightarrow> QDisc \<Rightarrow> 'w \<Rightarrow> (error + FlowerFilter list) \<times> 'w" where
  "Cl_FilterList t qdisc =
     list_objects t ([''filter'', ''list'', ''dev'', cl_netDev t] @ QDisc_GenCmdLineArgs qdisc)
       zero_cFilter decode_cFilter read_filter"

definition Cl_ChainAdd :: "'w TcCmdLineImpl \<Rightarrow> QDisc \<Rightarrow> Chain \<Rightarrow> 'w \<Rightarrow> error option \<times> 'w" where
  "Cl_ChainAdd t qdisc chain =
     execTcCmdNoOutput t ([''chain'', ''add'', ''dev'', cl_netDev t] @ QDisc_GenCmdLineArgs qdisc @
       Chain_GenCmdLineArgs chain)"

definition Cl_ChainDel :: "'w TcCmdLineImpl \<Rightarrow> QDisc \<Rightarrow> Chain \<Rightarrow> 'w \<Rightarrow> error option \<times> 'w" where
  "Cl_ChainDel t qdisc chain =
     execTcCmdNoOutput t ([''chain'', ''del'', ''dev'', cl_netDev t] @ QDisc_GenCmdLineArgs qdisc @
       Chain_GenCmdLineArgs chain)"

definition read_chain :: "cChain \<Rightarrow> error + Chain list" where
  "read_chain c =
     (case parseMajorMinor (cc_Parent c) of
        Inl e \<Rightarrow> Inl (Wrap ''Failed to parse Chain Parent'' e)
      | Inr parent \<Rightarrow> Inr [Chain_Build (Chain_WithParent parent (Chain_WithChain (cc_Chain c) NewChainBuilder))])"

definition Cl_ChainList :: "'w TcCmdLineImpl \<Rightarrow> QDisc \<Rightarrow> 'w \<Rightarrow> (error + Chain list) \<times> 'w" where
  "Cl_ChainList t qdisc =
     list_objects t ([''chain'', ''list'', ''dev'', cl_netDev t] @ QDisc_GenCmdLineArgs qdisc)
       zero_cChain decode_cChain read_chain"

definition NewTcCmdLineImpl :: "string \<Rightarrow> 'w Executor \<Rightarrow> 'w TC" where
  "NewTcCmdLineImpl dev executor =
     (let t = NewTcCmdLineImpl_obj dev executor in
      \<lparr>tc_QDiscAdd = Cl_QDiscAdd t, tc_QDiscDel = Cl_QDiscDel t, tc_QDiscList = Cl_QDiscList t,
       tc_FilterAdd = Cl_FilterAdd t, tc_FilterDel = Cl_FilterDel t, tc_FilterList = Cl_FilterList t,
       tc_ChainAdd = Cl_ChainAdd t, tc_ChainDel = Cl_ChainDel t, tc_ChainList = Cl_ChainList t\<rparr>)"

end
