(* ===== verification/Tc_File_Writer.thy ===== *)
theory Tc_File_Writer
  imports Tc_Generator Change_Tracker
begin

text \<open>
  Model of \<open>pkg/tc/actuator_file_writer.go\<close>, with the file system calls of the Go library it and
  the server use. The file system maps resolved paths to directories and files; a path is
  resolved lexically (no symbolic links). Any call may also fail for a reason of its own
  (permissions, a full disk): \<open>Failures\<close> says when, and how much of a failing write arrives.
\<close>

section \<open>Files\<close>

text \<open>\<open>filepath.Clean\<close> and \<open>filepath.Join\<close> of two elements.\<close>

definition clean_step :: "bool \<Rightarrow> string \<Rightarrow> string list \<Rightarrow> string list" where
  "clean_step rooted e st =
     (if e = [] \<or> e = ''.'' then st
      else if e = ''..''
      then (if st \<noteq> [] \<and> last st \<noteq> ''..'' then butlast st else if rooted then st else st @ [e])
      else st @ [e])"

definition path_elems :: "bool \<Rightarrow> string \<Rightarrow> string list" where
  "path_elems rooted path = fold (clean_step rooted) (split_on CHR ''/'' path) []"

definition rooted :: "string \<Rightarrow> bool" where
  "rooted path \<longleftrightarrow> path \<noteq> [] \<and> hd path = CHR ''/''"

definition filepath_Clean :: "string \<Rightarrow> string" where
  "filepath_Clean path =
     (let es = path_elems (rooted path) path in
      if rooted path then CHR ''/'' # join_with ''/'' es
      else if es = [] then ''.'' else join_with ''/'' es)"

definition filepath_Join :: "string \<Rightarrow> string \<Rightarrow> string" where
  "filepath_Join a b =
     (if a = [] \<and> b = [] then []
      else if a = [] then filepath_Clean b
      else if b = [] then filepath_Clean a
      else filepath_Clean (a @ ''/'' @ b))"

datatype node = Dir | File string

type_synonym FS = "(string list, node) gomap"

definition resolve :: "string \<Rightarrow> string list" where
  "resolve path = path_elems True path"

record Failures =
  stat_fails :: "string \<Rightarrow> FS \<Rightarrow> error option"
  read_fails :: "string \<Rightarrow> FS \<Rightarrow> error option"
  create_fails :: "string \<Rightarrow> FS \<Rightarrow> error option"
  write_fails :: "string \<Rightarrow> FS \<Rightarrow> (error \<times> nat) option"
  mkdir_fails :: "string \<Rightarrow> FS \<Rightarrow> error option"
  readdir_fails :: "string \<Rightarrow> FS \<Rightarrow> error option"
  remove_fails :: "string \<Rightarrow> FS \<Rightarrow> error option"

definition no_failures :: Failures where
  "no_failures = \<lparr>stat_fails = \<lambda>_ _. None, read_fails = \<lambda>_ _. None, create_fails = \<lambda>_ _. None,
     write_fails = \<lambda>_ _. None, mkdir_fails = \<lambda>_ _. None, readdir_fails = \<lambda>_ _. None,
     remove_fails = \<lambda>_ _. None\<rparr>"

definition os_Stat :: "Failures \<Rightarrow> string \<Rightarrow> FS \<Rightarrow> stat_result" where
  "os_Stat fl path fs =
     (case stat_fails fl path fs of
        Some e \<Rightarrow> StatError e
      | None \<Rightarrow> if map_of fs (resolve path) = None then StatNotExist else StatOk)"

definition os_ReadFile :: "Failures \<Rightarrow> string \<Rightarrow> FS \<Rightarrow> error + string" where
  "os_ReadFile fl path fs =
     (case read_fails fl path fs of
        Some e \<Rightarrow> Inl e
      | None \<Rightarrow>
          (case map_of fs (resolve path) of
             Some (File s) \<Rightarrow> Inr s
           | Some Dir \<Rightarrow> Inl (External ''is a directory'')
           | None \<Rightarrow> Inl (External ''no such file or directory'')))"

text \<open>The directory a path is in exists; the root always does.\<close>

definition parent_exists :: "string list \<Rightarrow> FS \<Rightarrow> bool" where
  "parent_exists p fs \<longleftrightarrow> p \<noteq> [] \<and> (butlast p = [] \<or> map_of fs (butlast p) = Some Dir)"

text \<open>\<open>os.Create\<close> truncates an existing file.\<close>

definition os_Create :: "Failures \<Rightarrow> string \<Rightarrow> FS \<Rightarrow> error option \<times> FS" where
  "os_Create fl path fs =
     (case create_fails fl path fs of
        Some e \<Rightarrow> (Some e, fs)
      | None \<Rightarrow>
          if map_of fs (resolve path) = Some Dir then (Some (External ''is a directory''), fs)
          else if \<not> parent_exists (resolve path) fs then (Some (External ''no such file or directory''), fs)
          else (None, AList.update (resolve path) (File []) fs))"

definition file_Write :: "Failures \<Rightarrow> string \<Rightarrow> string \<Rightarrow> FS \<Rightarrow> error option \<times> FS" where
  "file_Write fl path data fs =
     (case write_fails fl path fs of
        Some (e, n) \<Rightarrow> (Some e, AList.update (resolve path) (File (take n data)) fs)
      | None \<Rightarrow> (None, AList.update (resolve path) (File data) fs))"

definition os_Mkdir :: "Failures \<Rightarrow> string \<Rightarrow> FS \<Rightarrow> error option \<times> FS" where
  "os_Mkdir fl path fs =
     (case mkdir_fails fl path fs of
        Some e \<Rightarrow> (Some e, fs)
      | None \<Rightarrow>
          if map_of fs (resolve path) \<noteq> None then (Some (External ''file exists''), fs)
          else if \<not> parent_exists (resolve path) fs then (Some (External ''no such file or directory''), fs)
          else (None, AList.update (resolve path) Dir fs))"

text \<open>The names of the entries directly below a directory.\<close>

definition os_ReadDir :: "Failures \<Rightarrow> string \<Rightarrow> FS \<Rightarrow> error + string list" where
  "os_ReadDir fl path fs =
     (case readdir_fails fl path fs of
        Some e \<Rightarrow> Inl e
      | None \<Rightarrow>
          if resolve path \<noteq> [] \<and> map_of fs (resolve path) \<noteq> Some Dir
          then Inl (External ''no such directory'')
          else Inr (map (\<lambda>(p, _). last p) (filter (\<lambda>(p, _). p \<noteq> [] \<and> butlast p = resolve path) fs)))"

text \<open>Removes everything at and below a path; removing nothing is no error.\<close>

definition below :: "string list \<Rightarrow> string list \<Rightarrow> bool" where
  "below p q \<longleftrightarrow> take (length p) q = p"

definition os_RemoveAll :: "Failures \<Rightarrow> string \<Rightarrow> FS \<Rightarrow> error option \<times> FS" where
  "os_RemoveAll fl path fs =
     (case remove_fails fl path fs of
        Some e \<Rightarrow> (Some e, fs)
      | None \<Rightarrow> (None, filter (\<lambda>(q, _). \<not> below (resolve path) q) fs))"

section \<open>Rendering and writing\<close>

definition render_objects :: "Objects \<Rightarrow> string" where
  "render_objects objects =
     (case obj_QDisc objects of
        None \<Rightarrow> ''qdisc: <nil>'' @ [CHR 0x0A]
      | Some q \<Rightarrow> ''qdisc: '' @ join_with '' '' (QDisc_GenCmdLineArgs q) @ [CHR 0x0A]) @
     ''filters:'' @ [CHR 0x0A] @
     concat (map (\<lambda>f. join_with '' '' (FlowerFilter_GenCmdLineArgs f) @ [CHR 0x0A]) (obj_Filters objects))"

definition FileWriter_Actuate :: "Failures \<Rightarrow> string \<Rightarrow> Objects \<Rightarrow> FS \<Rightarrow> error option \<times> FS" where
  "FileWriter_Actuate fl path objects fs =
     (case PathExists (os_Stat fl path fs) of
        Inl e \<Rightarrow> (Some (Wrap (''failed to determine if path exist: '' @ path) e), fs)
      | Inr exist \<Rightarrow>
          let currentBuf = (if exist then (case os_ReadFile fl path fs of Inl _ \<Rightarrow> [] | Inr d \<Rightarrow> d) else []);
              newBuf = render_objects objects
          in if currentBuf = newBuf then (None, fs)
             else (case os_Create fl path fs of
                     (Some e, fs1) \<Rightarrow> (Some e, fs1)
                   | (None, fs1) \<Rightarrow> file_Write fl path newBuf fs1))"

section \<open>What the file holds\<close>

lemma render_objects_nonempty: "render_objects objects \<noteq> []"
  by (simp add: render_objects_def split: option.split)

lemma writer_other:
  assumes "FileWriter_Actuate fl path objects fs = (r, fs')" and "p \<noteq> resolve path"
  shows "map_of fs' p = map_of fs p"
  using assms
  by (auto simp: FileWriter_Actuate_def os_Create_def file_Write_def Let_def update_conv'
      split: sum.splits option.splits prod.splits if_splits)

lemma writer_success:
  assumes "FileWriter_Actuate fl path objects fs = (None, fs')"
  shows "map_of fs' (resolve path) = Some (File (render_objects objects))"
proof (cases "fs' = fs \<and> (\<exists>d. os_ReadFile fl path fs = Inr d \<and> d = render_objects objects)")
  case True
  then show ?thesis
    by (auto simp: os_ReadFile_def split: option.splits node.splits)
next
  case False
  then show ?thesis
    using assms render_objects_nonempty [of objects]
    by (auto simp: FileWriter_Actuate_def file_Write_def Let_def update_conv' PathExists_def
        split: sum.splits option.splits prod.splits if_splits stat_result.splits)
qed

text \<open>
  C37. Writing the rules of an interface: when it succeeds the file holds the rendering of the
  objects (one line for the qdisc, one per filter), whether or not it existed before, and a
  second call with the same objects writes nothing. Whether it succeeds or not, no other path
  is touched.
\<close>

theorem file_writer_saves:
  assumes "FileWriter_Actuate fl path objects fs = (r, fs')"
  shows "(\<forall>p. p \<noteq> resolve path \<longrightarrow> map_of fs' p = map_of fs p) \<and>
    (r = None \<longrightarrow> map_of fs' (resolve path) = Some (File (render_objects objects)) \<and>
      (stat_fails fl path fs' = None \<and> read_fails fl path fs' = None \<longrightarrow>
        FileWriter_Actuate fl path objects fs' = (None, fs')))"
proof -
  have "FileWriter_Actuate fl path objects fs' = (None, fs')"
    if "map_of fs' (resolve path) = Some (File (render_objects objects))"
      and "stat_fails fl path fs' = None" and "read_fails fl path fs' = None"
    using that by (simp add: FileWriter_Actuate_def os_Stat_def os_ReadFile_def PathExists_def)
  then show ?thesis using assms writer_other writer_success by blast
qed

definition ex_rules_fs :: FS where
  "ex_rules_fs = [([''r''], Dir), ([''r'', ''x.rules''], File ''old'')]"

definition ex_empty_objects :: Objects where
  "ex_empty_objects = \<lparr>obj_QDisc = Some (QDisc_Build NewIngressQDiscBuilder), obj_Filters = genDefaultFilters\<rparr>"

theorem file_writer_saves_witness:
  "map_of (snd (FileWriter_Actuate no_failures ''/r/x.rules'' ex_empty_objects ex_rules_fs)) [''r'', ''x.rules''] =
     Some (File (render_objects ex_empty_objects))"
proof -
  have run: "FileWriter_Actuate no_failures ''/r/x.rules'' ex_empty_objects ex_rules_fs =
      (None, snd (FileWriter_Actuate no_failures ''/r/x.rules'' ex_empty_objects ex_rules_fs))"
  proof -
    have "fst (FileWriter_Actuate no_failures ''/r/x.rules'' ex_empty_objects ex_rules_fs) = None"
      by code_simp
    then show ?thesis by (metis prod.collapse)
  qed
  have "resolve ''/r/x.rules'' = [''r'', ''x.rules'']" by code_simp
  with file_writer_saves [OF run] show ?thesis by simp
qed

end
