(* ===== verification/Server_Sync.thy ===== *)
theory Server_Sync
  imports Server_State Tc_Netlink Tc_Cmdline Tc_File_Writer
begin

text \<open>
  The synchronisation of \<open>pkg/server/server.go\<close>: from the maps to the devices and, when a path
  is configured, to the rule files. The world is the devices (any type) and the file system.
  The providers of \<open>pkg/net\<close> (sriovnet, netlink) and the program runner are fields of the
  environment, and so is the actuator factory that \<open>Options\<close> may carry. Informer events may arrive while a synchronisation runs; \<open>arrive\<close> gives the
  server as it is when the loop reaches a pod.
\<close>

section \<open>The environment\<close>

text \<open>What the server uses of a \<open>tc.Actuator\<close>: its method \<open>Actuate\<close>.\<close>

type_synonym 'd Actuator = "Objects \<Rightarrow> 'd \<Rightarrow> error option \<times> 'd"

record 'd World =
  wd_dev :: 'd
  wd_fs :: FS

record ('sel, 'ls, 'd) Env =
  env_selectors :: "('sel, 'ls) Selectors"
  env_options :: Options
  env_Hostname :: string
  env_failures :: Failures
  GetVfIndexByPciAddress :: "string \<Rightarrow> 'd \<Rightarrow> error + int"
  GetUplinkRepresentor :: "string \<Rightarrow> 'd \<Rightarrow> error + string"
  GetVfRepresentor :: "string \<Rightarrow> int \<Rightarrow> 'd \<Rightarrow> error + string"
  LinkByName :: "string \<Rightarrow> 'd \<Rightarrow> error + Link"
  env_netlink :: "'d NetlinkProvider"
  env_exec :: "'d Executor"
  opt_createActuatorForRep :: "(string \<Rightarrow> 'd \<Rightarrow> error + 'd Actuator) option"

section \<open>One interface\<close>

definition getRepresentor :: "('sel, 'ls, 'd) Env \<Rightarrow> string \<Rightarrow> 'd \<Rightarrow> error + string" where
  "getRepresentor env pciAddr d =
     (case GetVfIndexByPciAddress env pciAddr d of
        Inl e \<Rightarrow> Inl (Wrap (''failed to get VF index for PCI address '' @ pciAddr) e)
      | Inr vfIdx \<Rightarrow>
          (case GetUplinkRepresentor env pciAddr d of
             Inl e \<Rightarrow> Inl (Wrap (''failed to get uplink for PCI address '' @ pciAddr) e)
           | Inr uplink \<Rightarrow>
               (case GetVfRepresentor env uplink vfIdx d of
                  Inl e \<Rightarrow> Inl (Wrap (''failed to get VF representor for uplink: '' @ uplink) e)
                | Inr vfRep \<Rightarrow> Inr vfRep)))"

definition createActuatorForRep :: "('sel, 'ls, 'd) Env \<Rightarrow> string \<Rightarrow> 'd \<Rightarrow> error + 'd Actuator" where
  "createActuatorForRep env rep d =
     (if opt_tcDriver (env_options env) = ''netlink''
      then (case LinkByName env rep d of
              Inl e \<Rightarrow> Inl (Wrap (''failed to get link from rep: '' @ rep) e)
            | Inr lnk \<Rightarrow> Inr (Actuate (NewTcNetlinkImpl lnk (env_netlink env))))
      else if opt_tcDriver (env_options env) = ''cmdline''
      then Inr (Actuate (NewTcCmdLineImpl rep (env_exec env)))
      else Inl (Errorf ''unknown TC driver:'' [opt_tcDriver (env_options env)]))"

text \<open>The field \<open>createActuatorFromRepFn\<close> as \<open>NewServer\<close> fills it: the option, or else the builtin.\<close>

definition createActuatorFromRepFn :: "('sel, 'ls, 'd) Env \<Rightarrow> string \<Rightarrow> 'd \<Rightarrow> error + 'd Actuator" where
  "createActuatorFromRepFn env =
     (case opt_createActuatorForRep env of None \<Rightarrow> createActuatorForRep env | Some f \<Rightarrow> f)"

definition savePodInterfaceRules ::
  "('sel, 'ls, 'd) Env \<Rightarrow> PodInfo \<Rightarrow> PolicyRuleSet \<Rightarrow> Objects \<Rightarrow> string \<Rightarrow> FS \<Rightarrow> error option \<times> FS" where
  "savePodInterfaceRules env pInfo ruleSet tcObj rep fs =
     (if opt_podRulesPath (env_options env) = [] then (None, fs)
      else
        let podRulesPath = filepath_Join (opt_podRulesPath (env_options env)) (pi_UID pInfo)
        in case (if os_Stat (env_failures env) podRulesPath fs = StatNotExist
                 then os_Mkdir (env_failures env) podRulesPath fs else (None, fs)) of
             (Some e, fs1) \<Rightarrow> (Some e, fs1)
           | (None, fs1) \<Rightarrow>
               let networkNameNoSep = replace_all CHR ''/'' ''-'' (ri_Network (rs_IfcInfo ruleSet));
                   fullPath = podRulesPath @ ''/'' @ networkNameNoSep @ ''-'' @ rep @ ''.rules''
               in FileWriter_Actuate (env_failures env) fullPath tcObj fs1)"

text \<open>The body of the loop over the rule sets (lines 544 to 584): every failure skips the rest.\<close>

definition sync_rule_set ::
  "('sel, 'ls, 'd) Env \<Rightarrow> PodInfo \<Rightarrow> PolicyRuleSet \<Rightarrow> 'd World \<Rightarrow> 'd World" where
  "sync_rule_set env podInfo ruleSet w =
     (case getRepresentor env (ri_DeviceID (rs_IfcInfo ruleSet)) (wd_dev w) of
        Inl _ \<Rightarrow> w
      | Inr rep \<Rightarrow>
          (case GenerateFromPolicyRuleSet ruleSet of
             Inl _ \<Rightarrow> w
           | Inr tcObjs \<Rightarrow>
               (case createActuatorFromRepFn env rep (wd_dev w) of
                  Inl _ \<Rightarrow> w
                | Inr actuator \<Rightarrow>
                    (case actuator tcObjs (wd_dev w) of
                       (Some _, d) \<Rightarrow> w\<lparr>wd_dev := d\<rparr>
                     | (None, d) \<Rightarrow>
                         w\<lparr>wd_dev := d,
                           wd_fs := snd (savePodInterfaceRules env podInfo ruleSet tcObjs rep (wd_fs w))\<rparr>))))"

section \<open>All pods\<close>

text \<open>
  The body of the loop over the pods (lines 512 to 585); the second component collects the
  identifiers of the pods whose rules were rendered.
\<close>

definition sync_pod ::
  "('sel, 'ls, 'd) Env \<Rightarrow> (PodInfo \<Rightarrow> 'sel Server \<Rightarrow> 'sel Server) \<Rightarrow> PodInfo \<Rightarrow>
    'sel Server \<times> string list \<times> 'd World \<Rightarrow> 'sel Server \<times> string list \<times> 'd World" where
  "sync_pod env arrive p st =
     (case st of (s, podsWithRules, w) \<Rightarrow>
        if \<not> CheckNodeNameIdentical (env_Hostname env) (pi_NodeName p) then (s, podsWithRules, w)
        else
          let s2 = update_pods (arrive p s)
          in case GetPodInfo (sv_podMap s2) (pi_Namespace p) (pi_Name p) of
               Inl _ \<Rightarrow> (s2, podsWithRules, w)
             | Inr podInfo \<Rightarrow>
                 if length (elems (pi_Interfaces podInfo)) = 0 then (s2, podsWithRules, w)
                 else (case RenderEgress (env_selectors env) podInfo (sv_policyMap s2) (sv_podMap s2)
                             (sv_namespaceMap s2) of
                         (_, Some _) \<Rightarrow> (s2, podsWithRules, w)
                       | (rules, None) \<Rightarrow>
                           (s2, podsWithRules @ [pi_UID p], fold (sync_rule_set env podInfo) rules w)))"

definition deleteStalePodInterfaceRules :: "('sel, 'ls, 'd) Env \<Rightarrow> string list \<Rightarrow> FS \<Rightarrow> FS" where
  "deleteStalePodInterfaceRules env podsWithRules fs =
     (if opt_podRulesPath (env_options env) = [] then fs
      else case os_ReadDir (env_failures env) (opt_podRulesPath (env_options env)) fs of
        Inl _ \<Rightarrow> fs
      | Inr entries \<Rightarrow>
          fold (\<lambda>entry fs.
            if entry \<notin> set podsWithRules
            then snd (os_RemoveAll (env_failures env)
                   (filepath_Join (opt_podRulesPath (env_options env)) entry) fs)
            else fs) entries fs)"

definition syncMultiPolicy ::
  "('sel, 'ls, 'd) Env \<Rightarrow> (PodInfo \<Rightarrow> 'sel Server \<Rightarrow> 'sel Server) \<Rightarrow> 'sel Server \<Rightarrow> 'd World \<Rightarrow>
    'sel Server \<times> 'd World" where
  "syncMultiPolicy env arrive s w =
     (let s1 = update_maps s;
          (s2, podsWithRules, w1) = fold (sync_pod env arrive) (PodMap_List (sv_podMap s1)) (s1, [], w)
      in (s2, w1\<lparr>wd_fs := deleteStalePodInterfaceRules env podsWithRules (wd_fs w1)\<rparr>))"

section \<open>Paths\<close>

definition plain :: "string \<Rightarrow> bool" where
  "plain n \<longleftrightarrow> n \<noteq> [] \<and> n \<noteq> ''.'' \<and> n \<noteq> ''..'' \<and> CHR ''/'' \<notin> set n"

lemma split_on_append: "split_on c (s @ c # t) = split_on c s @ split_on c t"
  by (induction s) (auto split: list.splits)

lemma split_join_plain:
  "es \<noteq> [] \<Longrightarrow> \<forall>e\<in>set es. c \<notin> set e \<Longrightarrow> split_on c (join_with [c] es) = es"
  by (induction "[c]" es rule: join_with.induct) (auto simp: split_on_no_sep split_on_append_sep)

lemma clean_step_plain: "plain n \<Longrightarrow> clean_step r n st = st @ [n]"
  by (simp add: clean_step_def plain_def)

lemma clean_fold_plain: "\<forall>e\<in>set es. plain e \<Longrightarrow> fold (clean_step r) es st = st @ es"
  by (induction es arbitrary: st) (auto simp: clean_step_plain)

lemma clean_step_keeps_plain:
  "\<forall>x\<in>set st. plain x \<Longrightarrow> CHR ''/'' \<notin> set e \<Longrightarrow> \<forall>x\<in>set (clean_step True e st). plain x"
  by (auto simp: clean_step_def plain_def dest: in_set_butlastD)

lemma path_elems_plain: "\<forall>e\<in>set (path_elems True p). plain e"
proof -
  have run: "\<forall>e\<in>set (fold (clean_step True) es st). plain e"
    if "\<forall>e\<in>set st. plain e" and "\<forall>e\<in>set es. CHR ''/'' \<notin> set e" for es st
    using that
  proof (induction es arbitrary: st)
    case Nil
    then show ?case by simp
  next
    case (Cons e es)
    have "\<forall>x\<in>set (clean_step True e st). plain x"
      by (rule clean_step_keeps_plain) (use Cons.prems in simp_all)
    then show ?case using Cons.IH Cons.prems(2) by simp
  qed
  show ?thesis
    unfolding path_elems_def by (rule run) (use split_on_pieces in auto)
qed

lemma resolve_slash: "\<forall>e\<in>set es. plain e \<Longrightarrow> resolve (CHR ''/'' # join_with ''/'' es) = es"
proof -
  assume p: "\<forall>e\<in>set es. plain e"
  then have "\<forall>e\<in>set es. CHR ''/'' \<notin> set e" by (auto simp: plain_def)
  then have "es = [] \<or> split_on CHR ''/'' (join_with ''/'' es) = es" using split_join_plain by blast
  then show ?thesis using clean_fold_plain [OF p, of True "[]"]
    by (auto simp: resolve_def path_elems_def clean_step_def)
qed

lemma resolve_join:
  assumes "rooted a" and "plain b"
  shows "resolve (filepath_Join a b) = resolve a @ [b]"
proof -
  have "path_elems True (a @ ''/'' @ b) = resolve a @ [b]"
    using assms(2)
    by (simp add: resolve_def path_elems_def split_on_append split_on_no_sep plain_def clean_step_def)
  moreover have "filepath_Join a b = CHR ''/'' # join_with ''/'' (path_elems True (a @ ''/'' @ b))"
    using assms by (auto simp: filepath_Join_def filepath_Clean_def rooted_def plain_def Let_def)
  ultimately show ?thesis
    using resolve_slash path_elems_plain by metis
qed

section \<open>Stale rule files\<close>

lemma map_of_RemoveAll:
  "map_of (snd (os_RemoveAll fl path fs)) q =
     (if remove_fails fl path fs = None \<and> below (resolve path) q then None else map_of fs q)"
proof -
  have "map_of (filter (\<lambda>(q, _). \<not> below p q) fs) q = (if below p q then None else map_of fs q)" for p
    by (induction fs) auto
  then show ?thesis by (simp add: os_RemoveAll_def split: option.split)
qed

lemma ReadDir_names:
  assumes "os_ReadDir fl path fs = Inr ns"
  shows "n \<in> set ns \<longleftrightarrow> map_of fs (resolve path @ [n]) \<noteq> None"
proof -
  have "n \<in> set ns \<longleftrightarrow> (\<exists>p v. (p, v) \<in> set fs \<and> p \<noteq> [] \<and> butlast p = resolve path \<and> last p = n)"
    using assms by (fastforce simp: os_ReadDir_def split: option.splits if_splits)
  also have "\<dots> \<longleftrightarrow> (\<exists>v. (resolve path @ [n], v) \<in> set fs)"
    by (metis append_butlast_last_id butlast_snoc last_snoc snoc_eq_iff_butlast)
  finally show ?thesis by (force simp: map_of_eq_None_iff)
qed

text \<open>Removing a list of entries below one directory, each attempt on its own.\<close>

definition remove_stale :: "Failures \<Rightarrow> (string \<Rightarrow> string) \<Rightarrow> (string \<Rightarrow> bool) \<Rightarrow> string list \<Rightarrow> FS \<Rightarrow> FS" where
  "remove_stale fl path_of stale ns fs =
     fold (\<lambda>n fs. if stale n then snd (os_RemoveAll fl (path_of n) fs) else fs) ns fs"

definition remove_one :: "Failures \<Rightarrow> (string \<Rightarrow> string) \<Rightarrow> (string \<Rightarrow> bool) \<Rightarrow> string \<Rightarrow> FS \<Rightarrow> FS" where
  "remove_one fl path_of stale n fs = (if stale n then snd (os_RemoveAll fl (path_of n) fs) else fs)"

lemma remove_stale_simps [simp]:
  "remove_stale fl path_of stale [] fs = fs"
  "remove_stale fl path_of stale (n # ns) fs = remove_stale fl path_of stale ns (remove_one fl path_of stale n fs)"
  by (simp_all add: remove_stale_def remove_one_def)

lemma map_of_remove_one:
  "resolve (path_of n) = P @ [n] \<Longrightarrow> map_of (remove_one fl path_of stale n fs) q =
     (if stale n \<and> remove_fails fl (path_of n) fs = None \<and> below (P @ [n]) q then None else map_of fs q)"
  by (simp add: remove_one_def map_of_RemoveAll)

lemma remove_stale_sub: "map_of fs q = None \<Longrightarrow> map_of (remove_stale fl path_of stale ns fs) q = None"
proof (induction ns arbitrary: fs)
  case (Cons n ns)
  have "map_of (remove_one fl path_of stale n fs) q = None"
    using Cons.prems by (simp add: remove_one_def map_of_RemoveAll)
  with Cons.IH show ?case by simp
qed simp

lemma remove_stale_keeps:
  "\<forall>n\<in>set ns. resolve (path_of n) = P @ [n] \<Longrightarrow> \<forall>n\<in>set ns. stale n \<longrightarrow> \<not> below (P @ [n]) q \<Longrightarrow>
    map_of (remove_stale fl path_of stale ns fs) q = map_of fs q"
proof (induction ns arbitrary: fs)
  case (Cons n ns)
  then have "map_of (remove_one fl path_of stale n fs) q = map_of fs q"
    using map_of_remove_one [of path_of n P fl stale fs q] by auto
  with Cons show ?case by simp
qed simp

lemma remove_stale_removes:
  assumes "\<forall>path fs. remove_fails fl path fs = None"
  shows "\<forall>n\<in>set ns. resolve (path_of n) = P @ [n] \<Longrightarrow> n \<in> set ns \<Longrightarrow> stale n \<Longrightarrow> below (P @ [n]) q \<Longrightarrow>
    map_of (remove_stale fl path_of stale ns fs) q = None"
proof (induction ns arbitrary: fs)
  case (Cons x ns)
  show ?case
  proof (cases "x = n")
    case True
    then have "map_of (remove_one fl path_of stale x fs) q = None"
      using Cons.prems assms map_of_remove_one [of path_of x P fl stale fs q] by simp
    then show ?thesis by (simp add: remove_stale_sub)
  next
    case False
    then show ?thesis using Cons by simp
  qed
qed simp

lemma stale_run:
  assumes "opt_podRulesPath (env_options env) \<noteq> []"
    and "os_ReadDir (env_failures env) (opt_podRulesPath (env_options env)) fs = Inr ns"
  shows "deleteStalePodInterfaceRules env pods fs =
    remove_stale (env_failures env) (filepath_Join (opt_podRulesPath (env_options env)))
      (\<lambda>n. n \<notin> set pods) ns fs"
  using assms by (simp add: deleteStalePodInterfaceRules_def remove_stale_def)

text \<open>
  C34. The clean-up of rule files under an absolute path: an entry of the directory whose name is
  not the identifier of a pod with rules goes away with everything below it, nothing else is
  touched, and calls that fail only leave stale files behind.
\<close>

theorem stale_rules_deleted:
  assumes "rooted (opt_podRulesPath (env_options env))"
    and "\<forall>(p, _)\<in>set fs. (\<forall>e\<in>set p. plain e) \<and> (butlast p = [] \<or> map_of fs (butlast p) = Some Dir)"
    and "P = resolve (opt_podRulesPath (env_options env))"
    and "fs' = deleteStalePodInterfaceRules env pods fs"
  shows "(\<forall>q. \<not> (\<exists>n. n \<notin> set pods \<and> map_of fs (P @ [n]) \<noteq> None \<and> below (P @ [n]) q) \<longrightarrow>
      map_of fs' q = map_of fs q) \<and>
    ((\<forall>path fs. remove_fails (env_failures env) path fs = None \<and> readdir_fails (env_failures env) path fs = None) \<longrightarrow>
      (\<forall>q n. n \<notin> set pods \<and> map_of fs (P @ [n]) \<noteq> None \<and> below (P @ [n]) q \<longrightarrow> map_of fs' q = None))"
proof (cases "os_ReadDir (env_failures env) (opt_podRulesPath (env_options env)) fs")
  case (Inl e)
  have "map_of fs (P @ [n]) = None" if "P \<noteq> []" "map_of fs P \<noteq> Some Dir" for n
  proof (rule ccontr)
    assume "map_of fs (P @ [n]) \<noteq> None"
    then obtain v where "(P @ [n], v) \<in> set fs" using map_of_SomeD by fastforce
    then have "butlast (P @ [n]) = [] \<or> map_of fs (butlast (P @ [n])) = Some Dir" using assms(2) by blast
    then show False using that by simp
  qed
  then have "readdir_fails (env_failures env) (opt_podRulesPath (env_options env)) fs \<noteq> None \<or>
      (\<forall>n. map_of fs (P @ [n]) = None)"
    using Inl by (auto simp: os_ReadDir_def assms(3) split: option.splits if_splits)
  moreover have "fs' = fs" using Inl by (simp add: assms(4) deleteStalePodInterfaceRules_def)
  ultimately show ?thesis by auto
next
  case (Inr ns)
  have path: "opt_podRulesPath (env_options env) \<noteq> []" using assms(1) by (simp add: rooted_def)
  note names = ReadDir_names [OF Inr, folded assms(3)]
  have "plain n" if listed: "n \<in> set ns" for n
  proof -
    obtain v where "map_of fs (P @ [n]) = Some v" using listed names [of n] by auto
    then have "(P @ [n], v) \<in> set fs" by (rule map_of_SomeD)
    with assms(2) have "\<forall>e\<in>set (P @ [n]). plain e" by blast
    then show ?thesis by simp
  qed
  then have res: "\<forall>n\<in>set ns. resolve (filepath_Join (opt_podRulesPath (env_options env)) n) = P @ [n]"
    using resolve_join [OF assms(1)] by (simp add: assms(3))
  show ?thesis
    unfolding assms(4) stale_run [OF path Inr]
  proof (intro conjI impI allI; (elim conjE)?)
    fix q
    assume "\<not> (\<exists>n. n \<notin> set pods \<and> map_of fs (P @ [n]) \<noteq> None \<and> below (P @ [n]) q)"
    then have "\<forall>n\<in>set ns. n \<notin> set pods \<longrightarrow> \<not> below (P @ [n]) q"
      using iffD1 [OF names] by blast
    then show "map_of (remove_stale (env_failures env) (filepath_Join (opt_podRulesPath (env_options env)))
        (\<lambda>n. n \<notin> set pods) ns fs) q = map_of fs q"
      by (rule remove_stale_keeps [OF res])
  next
    fix q n
    assume "\<forall>path fs. remove_fails (env_failures env) path fs = None \<and> readdir_fails (env_failures env) path fs = None"
      and "n \<notin> set pods" and n: "map_of fs (P @ [n]) \<noteq> None" and "below (P @ [n]) q"
    then show "map_of (remove_stale (env_failures env) (filepath_Join (opt_podRulesPath (env_options env)))
        (\<lambda>n. n \<notin> set pods) ns fs) q = None"
      using remove_stale_removes [OF _ res, where n = n] names [of n] by simp
  qed
qed

text \<open>
  Without a pod of this node nothing reaches a device, whatever the policies say: no filter
  is added or removed anywhere and no event that arrives meanwhile is lost.
\<close>

theorem other_nodes_untouched:
  assumes "\<forall>p\<in>set (PodMap_List (sv_podMap (update_maps s))).
      \<not> CheckNodeNameIdentical (env_Hostname env) (pi_NodeName p)"
  shows "wd_dev (snd (syncMultiPolicy env arrive s w)) = wd_dev w \<and>
    fst (syncMultiPolicy env arrive s w) = update_maps s"
proof -
  have "\<forall>p\<in>set ps. \<not> CheckNodeNameIdentical (env_Hostname env) (pi_NodeName p) \<Longrightarrow>
      fold (sync_pod env arrive) ps st = st" for ps st
    by (induction ps arbitrary: st) (auto simp: sync_pod_def split: prod.splits)
  from this [OF assms] show ?thesis by (simp add: syncMultiPolicy_def Let_def)
qed

section \<open>Examples\<close>

text \<open>A host without netlink and \<open>tc\<close>, and an actuator for tests that keeps its filters in the world.\<close>

definition ex_refuse :: "'a \<Rightarrow> 'w \<Rightarrow> error option \<times> 'w" where
  "ex_refuse _ w = (Some (External ''not available''), w)"

definition ex_no_list :: "'a \<Rightarrow> 'w \<Rightarrow> (error + 'b) \<times> 'w" where
  "ex_no_list _ w = (Inl (External ''not available''), w)"

definition ex_no_netlink :: "'w NetlinkProvider" where
  "ex_no_netlink =
     \<lparr>nl_QdiscAdd = ex_refuse, nl_QdiscDel = ex_refuse, nl_QdiscList = ex_no_list, nl_FilterAdd = ex_refuse,
      nl_FilterDel = ex_refuse, nl_FilterList = (\<lambda>_. ex_no_list), nl_ChainAdd = (\<lambda>_. ex_refuse),
      nl_ChainDel = (\<lambda>_. ex_refuse), nl_ChainList = (\<lambda>_. ex_no_list)\<rparr>"

definition ex_no_tc :: "'w Executor" where
  "ex_no_tc = \<lparr>Cmd_Run = (\<lambda>_. ex_refuse), Cmd_Output = (\<lambda>_. ex_no_list)\<rparr>"

definition ex_env :: "string \<Rightarrow> ((string \<times> string) list, labels, FlowerFilter list) Env" where
  "ex_env path =
     \<lparr>env_selectors = \<lparr>LabelSelectorAsMap = \<lambda>_. Inr None, LabelSelectorSize = length, AsSelector = \<lambda>m. m,
        Matches = \<lambda>_ _. True, Empty = \<lambda>_. True\<rparr>,
      env_options = default_options\<lparr>opt_podRulesPath := path\<rparr>, env_Hostname = ''node1'',
      env_failures = no_failures, GetVfIndexByPciAddress = \<lambda>_ _. Inr 3,
      GetUplinkRepresentor = \<lambda>_ _. Inr ''p0'', GetVfRepresentor = \<lambda>_ _ _. Inr ''eth3'',
      LinkByName = \<lambda>_ _. Inl (External ''no link''), env_netlink = ex_no_netlink, env_exec = ex_no_tc,
      opt_createActuatorForRep = Some (\<lambda>_ _. Inr (Actuate ex_tc))\<rparr>"

definition ex_stale_fs :: FS where
  "ex_stale_fs = [([''r''], Dir), ([''r'', ''u1''], Dir), ([''r'', ''u2''], Dir),
     ([''r'', ''u2'', ''net-eth3.rules''], File ''old'')]"

theorem stale_rules_deleted_witness:
  "map_of (deleteStalePodInterfaceRules (ex_env ''/r'') [''u1''] ex_stale_fs) [''r'', ''u2'', ''net-eth3.rules''] = None \<and>
   map_of (deleteStalePodInterfaceRules (ex_env ''/r'') [''u1''] ex_stale_fs) [''r'', ''u1''] = Some Dir"
proof -
  let ?env = "ex_env ''/r''"
  have path: "opt_podRulesPath (env_options ?env) = ''/r''"
    and fl: "env_failures ?env = no_failures" by (simp_all add: ex_env_def)
  have r: "resolve ''/r'' = [''r'']" by code_simp
  have root: "rooted (opt_podRulesPath (env_options ?env))" by (simp add: path rooted_def)
  have names: "\<forall>(p, _)\<in>set ex_stale_fs. (\<forall>e\<in>set p. plain e) \<and>
      (butlast p = [] \<or> map_of ex_stale_fs (butlast p) = Some Dir)"
    by (simp add: ex_stale_fs_def plain_def)
  note law = stale_rules_deleted [OF root names refl refl, of "[''u1'']", unfolded path r fl]
  have "map_of ex_stale_fs [''r'', ''u2''] \<noteq> None" by (simp add: ex_stale_fs_def)
  then have "map_of (deleteStalePodInterfaceRules ?env [''u1''] ex_stale_fs) [''r'', ''u2'', ''net-eth3.rules''] = None"
    using law by (auto simp: no_failures_def below_def)
  moreover have "\<not> below ([''r''] @ [n]) [''r'', ''u1'']" if "n \<noteq> ''u1''" for n
    using that by (simp add: below_def)
  then have "map_of (deleteStalePodInterfaceRules ?env [''u1''] ex_stale_fs) [''r'', ''u1''] =
      map_of ex_stale_fs [''r'', ''u1'']"
    using law [THEN conjunct1, THEN spec [of _ "[''r'', ''u1'']"]] by auto
  ultimately show ?thesis by (simp add: ex_stale_fs_def)
qed

theorem other_nodes_untouched_witness:
  "wd_dev (snd (syncMultiPolicy (ex_env [])
     (\<lambda>_ s. s) (NewServer\<lparr>sv_podMap := [(NamespacedName ''blue'' ''p1'', (static_info ex_ann ex_pod)\<lparr>pi_NodeName := ''node2''\<rparr>)]\<rparr>)
     \<lparr>wd_dev = [ex_stale], wd_fs = []\<rparr>)) = [ex_stale]"
proof -
  let ?s = "NewServer\<lparr>sv_podMap := [(NamespacedName ''blue'' ''p1'', (static_info ex_ann ex_pod)\<lparr>pi_NodeName := ''node2''\<rparr>)]\<rparr>
    :: (string \<times> string) list Server"
  have "\<forall>p\<in>set (PodMap_List (sv_podMap (update_maps ?s))).
      \<not> CheckNodeNameIdentical (env_Hostname (ex_env [])) (pi_NodeName p)"
    by (simp add: update_maps_fields NewServer_def NewPodChangeTracker_def tracker_apply_def PodMap_List_def
        CheckNodeNameIdentical_def ex_env_def)
  from other_nodes_untouched [OF this] show ?thesis by simp
qed

end
