(* ===== verification/Net_Text.thy ===== *)
theory Net_Text
  imports Net_Utils
begin

text \<open>
  Addresses as text. What \<open>IP.String\<close> and \<open>IPNet.String\<close> print is read back by \<open>ParseIP\<close> and
  \<open>ParseCIDR\<close>: the round trips behind the destination networks that the command line driver
  writes as an argument and finds again in the output of \<open>tc\<close>.
\<close>

section \<open>Numbers at the start of a string\<close>

lemma digits_value_snoc [simp]: "d < 36 \<Longrightarrow> digits_value b (s @ [digit_char d]) = digits_value b s * b + d"
  by (simp add: digits_value_def)

lemma digits_value_show:
  assumes "2 \<le> b" and "b \<le> 36"
  shows "digits_value b (show_base b n) = n"
  using assms
proof (induction b n rule: show_base.induct)
  case (1 b n)
  show ?case
  proof (cases "n < b")
    case True
    then have "n < 36" using 1 by simp
    then show ?thesis using True digits_value_snoc [of n b "[]"] by (simp add: show_base.simps [of b n] digits_value_def)
  next
    case False
    have "n mod b < b" using "1.prems" by simp
    then have "n mod b < 36" using "1.prems"(2) by (rule less_le_trans)
    then show ?thesis using False 1 by (simp add: show_base.simps [of b n])
  qed
qed

text \<open>A number other than 0 is printed without leading zeros.\<close>

lemma show_base_hd: "2 \<le> b \<Longrightarrow> b \<le> 36 \<Longrightarrow> 0 < n \<Longrightarrow> hd (show_base b n) \<noteq> CHR ''0''"
proof (induction b n rule: show_base.induct)
  case (1 b n)
  show ?case
  proof (cases "n < b")
    case True
    then have "digit_val (digit_char n) = Some n" using 1 by simp
    then have "digit_char n \<noteq> CHR ''0''" using "1.prems" by (auto simp: digit_val_def)
    then show ?thesis using True by (simp add: show_base.simps [of b n])
  next
    case False
    then have "0 < n div b" using "1.prems" by (simp add: div_greater_zero_iff)
    then have "hd (show_base b (n div b)) \<noteq> CHR ''0''" using 1 False by simp
    then show ?thesis using False "1.prems" by (subst show_base.simps) simp
  qed
qed

lemma dec_digit_char: "d < 10 \<Longrightarrow> is_dec_digit (digit_char d)"
  by (simp add: is_dec_digit_def of_char_digit_char)

lemma hex_digit_char: "d < 16 \<Longrightarrow> is_hex_digit (digit_char d)"
  by (simp add: is_hex_digit_def is_dec_digit_def of_char_digit_char)

definition stops :: "(char \<Rightarrow> bool) \<Rightarrow> string \<Rightarrow> bool" where
  "stops is_digit s \<longleftrightarrow> s = [] \<or> \<not> is_digit (hd s)"

lemma takeWhile_stops: "list_all P s \<Longrightarrow> stops P t \<Longrightarrow> takeWhile P (s @ t) = s"
  by (cases t) (auto simp: stops_def list_all_iff takeWhile_append2)

lemma all_dec: "list_all is_dec_digit (FormatUint n)"
  using show_base_chars [of 10] dec_digit_char by (auto simp: FormatUint_def list_all_iff)

lemma all_hex: "list_all is_hex_digit (hex n)"
  using show_base_chars [of 16] hex_digit_char by (auto simp: hex_def list_all_iff)

lemma dtoi_show:
  assumes "n < 16777215" and "stops is_dec_digit t"
  shows "dtoi (FormatUint n @ t) = Some (n, length (FormatUint n))"
  using assms takeWhile_stops [OF all_dec assms(2)] digits_value_show [of 10 n]
  by (simp add: dtoi_def leading_number_def FormatUint_def)

lemma xtoi_show:
  assumes "n < 16777215" and "stops is_hex_digit t"
  shows "xtoi (hex n @ t) = Some (n, length (hex n))"
  using assms takeWhile_stops [OF all_hex assms(2)] digits_value_show [of 16 n]
  by (simp add: xtoi_def leading_number_def hex_def)

section \<open>IPv4\<close>

definition dots :: "u8 list \<Rightarrow> string" where
  "dots bs = concat (map (\<lambda>b. CHR ''.'' # FormatUint (unat b)) bs)"

lemma dotted_Cons: "dotted (b # bs) = FormatUint (unat b) @ dots bs"
proof (induction bs arbitrary: b)
  case Nil
  then show ?case by (simp add: dotted_def dots_def)
next
  case (Cons c bs)
  then show ?case by (simp add: dotted_def dots_def)
qed

lemma stops_dots: "stops is_dec_digit (dots bs @ t)" if "stops is_dec_digit t"
  using that by (cases bs) (simp_all add: dots_def stops_def is_dec_digit_def digit_val_def)

lemma leading_zero: "1 < length (FormatUint n) \<Longrightarrow> hd (FormatUint n @ t) \<noteq> CHR ''0''"
  using show_base_hd [of 10 n] by (cases "n = 0") (simp_all add: FormatUint_def show_base.simps [of 10 0] hd_append)

lemma field_step:
  fixes b :: u8
  assumes "stops is_dec_digit t"
  shows "v4_fields (Suc k) True (FormatUint (unat b) @ t) = map_option ((#) b) (v4_fields k False t)"
    and "v4_fields (Suc k) False (CHR ''.'' # FormatUint (unat b) @ t) = map_option ((#) b) (v4_fields k False t)"
proof -
  have b: "unat b < 256" using unsigned_less [of b] by simp
  then have "dtoi (FormatUint (unat b) @ t) = Some (unat b, length (FormatUint (unat b)))"
    using assms by (simp add: dtoi_show)
  moreover have "FormatUint (unat b) \<noteq> []" by (simp add: FormatUint_def)
  ultimately show "v4_fields (Suc k) True (FormatUint (unat b) @ t) = map_option ((#) b) (v4_fields k False t)"
    and "v4_fields (Suc k) False (CHR ''.'' # FormatUint (unat b) @ t) = map_option ((#) b) (v4_fields k False t)"
    using b leading_zero [of "unat b" t] by (auto simp: Let_def)
qed

lemma fields_dots: "v4_fields (length bs) False (dots bs) = Some bs"
proof (induction bs)
  case Nil
  then show ?case by (simp add: dots_def)
next
  case (Cons b bs)
  have "dots (b # bs) = CHR ''.'' # FormatUint (unat b) @ dots bs" by (simp add: dots_def)
  moreover have "stops is_dec_digit (dots bs)" using stops_dots [of "[]"] by (simp add: stops_def)
  ultimately show ?case using Cons field_step(2) by simp
qed

lemma parseIPv4_dotted:
  assumes "length bs = 4"
  shows "parseIPv4 (dotted bs) = Some bs"
proof -
  obtain b cs where bs: "bs = b # cs" "length cs = 3" using assms by (cases bs) auto
  have "stops is_dec_digit (dots cs)" using stops_dots [of "[]"] by (simp add: stops_def)
  then show ?thesis
    using field_step(1) [of "dots cs" 3 b] fields_dots [of cs] bs by (simp add: parseIPv4_def dotted_Cons eval_nat_numeral)
qed

text \<open>The text of an IPv4 address holds no colon and no slash.\<close>

lemma dotted_chars:
  assumes "(of_char c :: nat) < 48 \<or> 57 < (of_char c :: nat) \<and> (of_char c :: nat) < 97" and "c \<noteq> CHR ''.''"
  shows "c \<notin> set (dotted bs)"
proof (cases bs)
  case Nil
  then show ?thesis by (simp add: dotted_def)
next
  case (Cons b cs)
  have "c \<notin> set (FormatUint n)" for n
    using show_base_no_low [of 10 c n] assms(1) by (simp add: FormatUint_def)
  then show ?thesis using assms(2) by (simp add: Cons dotted_Cons dots_def)
qed

lemma ParseIP_dotted:
  assumes "length bs = 4"
  shows "ParseIP (dotted bs) = IPv4 bs"
proof -
  have found: "CHR '':'' \<notin> set t \<Longrightarrow> CHR ''.'' \<in> set t \<Longrightarrow> parseIPv4 s = Some bs \<Longrightarrow> ParseIP_at s t = IPv4 bs" for s t
    by (induction t) auto
  obtain b c cs where "bs = b # c # cs" using assms by (cases bs; cases "tl bs") auto
  then have "CHR ''.'' \<in> set (dotted bs)" by (simp add: dotted_Cons dots_def)
  moreover have "CHR '':'' \<notin> set (dotted bs)" by (rule dotted_chars) simp_all
  ultimately show ?thesis using found parseIPv4_dotted [OF assms] by (simp add: ParseIP_def)
qed

lemma takeWhile_slash: "c \<notin> set s \<Longrightarrow> takeWhile (\<lambda>x. x \<noteq> c) (s @ c # t) = s \<and> dropWhile (\<lambda>x. x \<noteq> c) (s @ c # t) = c # t"
  by (induction s) auto

lemma ParseCIDR_dotted:
  assumes "length bs = 4" and "k \<le> 32"
  shows "ParseCIDR (dotted bs @ ''/'' @ FormatUint k) =
    Inr \<lparr>net_IP = IP_Mask (IPv4 bs) (CIDRMask k 32), net_Mask = CIDRMask k 32\<rparr>"
proof -
  have "CHR ''/'' \<notin> set (dotted bs)" by (rule dotted_chars) simp_all
  note parts = takeWhile_slash [OF this, of "FormatUint k"]
  have "dtoi (FormatUint k) = Some (k, length (FormatUint k))"
    using assms(2) dtoi_show [of k "[]"] by (simp add: stops_def)
  then show ?thesis
    using assms by (simp add: ParseCIDR_def parts parseIPv4_dotted Let_def)
qed

section \<open>IPv6\<close>

definition group_bytes :: "nat list \<Rightarrow> u8 list" where
  "group_bytes ws = concat (map (\<lambda>w. [of_nat (w div 256), of_nat (w mod 256)]) ws)"

lemma group_bytes_simps [simp]:
  "group_bytes [] = []"
  "group_bytes (w # ws) = of_nat (w div 256) # of_nat (w mod 256) # group_bytes ws"
  "group_bytes (vs @ ws) = group_bytes vs @ group_bytes ws"
  by (simp_all add: group_bytes_def)

lemma length_group_bytes [simp]: "length (group_bytes ws) = 2 * length ws"
  by (induction ws) simp_all

lemma bytes_of_words: "even (length ip) \<Longrightarrow> group_bytes (words16 ip) = ip"
proof (induction ip rule: words16.induct)
  case (1 a b rest)
  have "unat b < 256" using unsigned_less [of b] by simp
  then show ?case using 1 by simp
qed simp_all

lemma words16_bounded: "w \<in> set (words16 ip) \<Longrightarrow> w < 65536"
proof (induction ip rule: words16.induct)
  case (1 a b rest)
  have "unat a < 256" "unat b < 256" using unsigned_less [of a] unsigned_less [of b] by simp_all
  then have "unat a * 256 + unat b < 65536" by simp
  then show ?case using 1 by auto
qed simp_all

lemma length_words16: "length (words16 ip) = length ip div 2"
  by (induction ip rule: words16.induct) simp_all

text \<open>Groups after the first one, each behind a colon.\<close>

definition colons :: "nat list \<Rightarrow> string" where
  "colons ws = concat (map (\<lambda>w. CHR '':'' # hex w) ws)"

lemma colon_groups_Cons: "colon_groups (w # ws) = hex w @ colons ws"
proof (induction ws arbitrary: w)
  case Nil
  then show ?case by (simp add: colon_groups_def colons_def)
next
  case (Cons v ws)
  then show ?case by (simp add: colon_groups_def colons_def)
qed

lemma hex_nonempty [simp]: "hex n \<noteq> []"
  by (simp add: hex_def)

lemma hex_no_low:
  "(of_char c :: nat) < 48 \<or> 57 < (of_char c :: nat) \<and> (of_char c :: nat) < 97 \<Longrightarrow> c \<notin> set (hex n)"
  by (simp add: hex_def show_base_no_low)

lemma hd_hex: "hd (hex n) \<noteq> CHR '':''"
proof -
  have "CHR '':'' \<notin> set (hex n)" by (rule hex_no_low) simp
  then show ?thesis using hd_in_set [OF hex_nonempty, of n] by metis
qed

text \<open>
  One group, when what follows is the end, a colon and another group, or an ellipsis.
\<close>

lemma group_step:
  assumes "w < 65536"
  shows "v6_groups (Suc k) acc e (hex w) = Some (acc @ group_bytes [w], e, [])"
    and "v6_groups (Suc k) acc e (hex w @ CHR '':'' # hex v @ t) =
      v6_groups k (acc @ group_bytes [w]) e (hex v @ t)"
    and "v6_groups (Suc k) acc None (hex w @ ''::'') =
      Some (acc @ group_bytes [w], Some (length acc + 2), [])"
    and "v6_groups (Suc k) acc None (hex w @ CHR '':'' # CHR '':'' # hex v @ t) =
      v6_groups k (acc @ group_bytes [w]) (Some (length acc + 2)) (hex v @ t)"
proof -
  have colon: "stops is_hex_digit (CHR '':'' # t)" for t
    by (simp add: stops_def is_hex_digit_def digit_val_def)
  have x: "xtoi (hex w @ CHR '':'' # t) = Some (w, length (hex w))" for t
    using assms by (intro xtoi_show colon) simp
  have fin: "xtoi (hex w) = Some (w, length (hex w))"
    using assms xtoi_show [of w "[]"] by (simp add: stops_def)
  have w: "\<not> 65535 < w" using assms by simp
  have v: "hd (hex v @ t) \<noteq> CHR '':''" using hd_hex [of v] by simp
  show "v6_groups (Suc k) acc e (hex w) = Some (acc @ group_bytes [w], e, [])"
    by (simp add: fin w Let_def)
  show "v6_groups (Suc k) acc e (hex w @ CHR '':'' # hex v @ t) =
      v6_groups k (acc @ group_bytes [w]) e (hex v @ t)"
    using v by (simp add: x w Let_def nth_append)
  show "v6_groups (Suc k) acc None (hex w @ ''::'') =
      Some (acc @ group_bytes [w], Some (length acc + 2), [])"
    by (simp add: x w Let_def nth_append)
  show "v6_groups (Suc k) acc None (hex w @ CHR '':'' # CHR '':'' # hex v @ t) =
      v6_groups k (acc @ group_bytes [w]) (Some (length acc + 2)) (hex v @ t)"
    by (simp add: x w Let_def nth_append)
qed

text \<open>All groups up to the end of the string, and all up to an ellipsis.\<close>

lemma groups_to_end:
  "ws \<noteq> [] \<Longrightarrow> \<forall>w\<in>set ws. w < 65536 \<Longrightarrow> length ws \<le> k \<Longrightarrow>
    v6_groups k acc e (colon_groups ws) = Some (acc @ group_bytes ws, e, [])"
proof (induction ws arbitrary: k acc)
  case (Cons w ws)
  obtain k' where k: "k = Suc k'" using Cons.prems(3) by (cases k) auto
  show ?case
  proof (cases ws)
    case Nil
    then show ?thesis using Cons.prems group_step(1) [of w k' acc e] by (simp add: k colon_groups_def)
  next
    case (Cons v vs)
    then have "colon_groups (w # ws) = hex w @ CHR '':'' # hex v @ colons vs"
      and "colon_groups ws = hex v @ colons vs"
      by (simp_all only: colon_groups_Cons) (simp add: colons_def)
    then show ?thesis
      using Cons Cons.prems Cons.IH [of k' "acc @ group_bytes [w]"] group_step(2) [of w k' acc e v "colons vs"]
      by (simp add: k)
  qed
qed simp

lemma groups_to_ellipsis:
  "ws \<noteq> [] \<Longrightarrow> \<forall>w\<in>set (ws @ vs). w < 65536 \<Longrightarrow> length ws + length vs \<le> k \<Longrightarrow>
    v6_groups k acc None (colon_groups ws @ ''::'' @ colon_groups vs) =
    Some (acc @ group_bytes (ws @ vs), Some (length acc + 2 * length ws), [])"
proof (induction ws arbitrary: k acc)
  case (Cons w ws)
  obtain k' where k: "k = Suc k'" using Cons.prems(3) by (cases k) auto
  show ?case
  proof (cases ws)
    case Nil
    show ?thesis
    proof (cases vs)
      case Nil
      with \<open>ws = []\<close> show ?thesis using Cons.prems group_step(3) [of w k' acc] by (simp add: k colon_groups_def)
    next
      case (Cons v us)
      then have vs: "colon_groups vs = hex v @ colons us" by (simp add: colon_groups_Cons)
      have "v6_groups k' (acc @ group_bytes [w]) (Some (length acc + 2)) (colon_groups vs) =
          Some ((acc @ group_bytes [w]) @ group_bytes vs, Some (length acc + 2), [])"
        using Cons Cons.prems k by (intro groups_to_end) auto
      then show ?thesis
        using \<open>ws = []\<close> Cons.prems group_step(4) [of w k' acc v "colons us"] by (simp add: k colon_groups_def [of "[w]"] vs)
    qed
  next
    case (Cons v us)
    then have "colon_groups (w # ws) = hex w @ CHR '':'' # hex v @ colons us"
      and "colon_groups ws = hex v @ colons us"
      by (simp_all only: colon_groups_Cons) (simp add: colons_def)
    then show ?thesis
      using Cons Cons.prems Cons.IH [of k' "acc @ group_bytes [w]"]
        group_step(2) [of w k' acc None v "colons us @ ''::'' @ colon_groups vs"]
      by (simp add: k)
  qed
qed simp

text \<open>The longest run of zero groups lies inside the groups and consists of zeros.\<close>

lemma zero_run_replicate: "take (zero_run ws) ws = replicate (zero_run ws) 0 \<and> zero_run ws \<le> length ws"
  by (induction ws rule: zero_run.induct) auto

definition zeros_at :: "nat list \<Rightarrow> nat \<times> nat \<Rightarrow> bool" where
  "zeros_at ws r \<longleftrightarrow> fst r + snd r \<le> length ws \<and> take (snd r) (drop (fst r) ws) = replicate (snd r) 0"

lemma longest_zeros_ok:
  "zeros_at (us @ ws) best \<Longrightarrow> zeros_at (us @ ws) (longest_zeros (length us) ws best)"
proof (induction ws arbitrary: us best)
  case Nil
  then show ?case by simp
next
  case (Cons w ws)
  have "zeros_at (us @ w # ws) (length us, zero_run (w # ws))"
    using zero_run_replicate [of "w # ws"] by (simp add: zeros_at_def)
  then show ?case
    using Cons.IH [of "us @ [w]"] Cons.prems by simp
qed

lemma split_at_zeros:
  assumes "zeros_at ws (i, n)"
  shows "ws = take i ws @ replicate n 0 @ drop (i + n) ws"
  using assms append_take_drop_id [of i ws] append_take_drop_id [of n "drop i ws"]
  by (simp add: zeros_at_def add.commute)

lemma group_bytes_zeros: "group_bytes (replicate n 0) = replicate (2 * n) 0"
  by (induction n) simp_all

lemma no_ellipsis_start: "ws \<noteq> [] \<Longrightarrow> take 2 (colon_groups ws @ t) \<noteq> ''::''"
proof -
  assume "ws \<noteq> []"
  then obtain w vs where "ws = w # vs" by (cases ws) auto
  moreover obtain c s where "hex w = c # s" using hex_nonempty [of w] by (cases "hex w") auto
  ultimately show ?thesis using hd_hex [of w] by (simp add: colon_groups_Cons numeral_2_eq_2)
qed

lemma parseIPv6_groups:
  assumes "length ws = 8" and "\<forall>w\<in>set ws. w < 65536"
  shows "parseIPv6 (IPv6_String ws) = Some (group_bytes ws)"
proof -
  obtain i n where r: "longest_zeros 0 ws (0, 0) = (i, n)" by fastforce
  have "zeros_at ws (i, n)" using longest_zeros_ok [of "[]" ws "(0, 0)"] r by (simp add: zeros_at_def)
  then have fits: "i + n \<le> 8" and ws: "ws = take i ws @ replicate n 0 @ drop (i + n) ws"
    using assms(1) split_at_zeros by (auto simp: zeros_at_def)
  have small: "\<forall>w\<in>set (take i ws @ drop (i + n) ws). w < 65536"
    using assms(2) by (auto dest: in_set_takeD in_set_dropD)
  show ?thesis
  proof (cases "n \<le> 1")
    case True
    have full: "ws \<noteq> []" using assms(1) by auto
    then have "v6_groups 8 [] None (colon_groups ws) = Some ([] @ group_bytes ws, None, [])"
      by (rule groups_to_end) (use assms in simp_all)
    then show ?thesis
      using True assms(1) no_ellipsis_start [OF full, of "[]"]
      by (simp add: IPv6_String_def r parseIPv6_def v6_expand_def)
  next
    case False
    then have printed: "IPv6_String ws = colon_groups (take i ws) @ ''::'' @ colon_groups (drop (i + n) ws)"
      by (simp add: IPv6_String_def r)
    have bytes: "group_bytes ws = group_bytes (take i ws) @ replicate (2 * n) 0 @ group_bytes (drop (i + n) ws)"
      using arg_cong [OF ws, of group_bytes] by (simp add: group_bytes_zeros)
    show ?thesis
    proof (cases i)
      case 0
      show ?thesis
      proof (cases "drop n ws = []")
        case True
        then have "n = 8" using fits 0 assms(1) by simp
        then show ?thesis using True 0 printed bytes assms(1) by (simp add: parseIPv6_def colon_groups_def)
      next
        case rest: False
        have "v6_groups 8 [] (Some 0) (colon_groups (drop n ws)) = Some ([] @ group_bytes (drop n ws), Some 0, [])"
          by (rule groups_to_end) (use rest small 0 assms(1) in auto)
        moreover have "colon_groups (drop n ws) \<noteq> []"
          using rest by (cases "drop n ws") (simp_all add: colon_groups_Cons)
        moreover have "16 - 2 * (8 - n) = 2 * n" "colon_groups [] = []"
          using fits 0 by (auto simp: colon_groups_def)
        ultimately show ?thesis
          using 0 printed bytes assms(1) False by (simp add: parseIPv6_def v6_expand_def)
      qed
    next
      case (Suc j)
      then have start: "take i ws \<noteq> []" using assms(1) by auto
      have "v6_groups 8 [] None (IPv6_String ws) =
          Some ([] @ group_bytes (take i ws @ drop (i + n) ws), Some (length ([] :: u8 list) + 2 * length (take i ws)), [])"
        unfolding printed by (rule groups_to_ellipsis [OF start small]) (use assms(1) False fits in simp)
      moreover have "v6_expand (Some (group_bytes (take i ws @ drop (i + n) ws), Some (2 * i), [])) =
          Some (group_bytes (take i ws) @ replicate (2 * n) 0 @ group_bytes (drop (i + n) ws))"
        using assms(1) False fits by (simp add: v6_expand_def) presburger
      moreover have "take 2 (IPv6_String ws) \<noteq> ''::''"
        unfolding printed by (rule no_ellipsis_start [OF start])
      ultimately show ?thesis using assms(1) fits by (simp add: parseIPv6_def bytes)
    qed
  qed
qed

lemma parseIPv6_text:
  assumes "length ip = 16"
  shows "parseIPv6 (IPv6_String (words16 ip)) = Some ip"
  using parseIPv6_groups [of "words16 ip"] assms words16_bounded
  by (simp add: length_words16 bytes_of_words)

section \<open>Whole addresses and networks\<close>

lemma IPv6_String_chars:
  assumes "(of_char c :: nat) < 48 \<or> 57 < (of_char c :: nat) \<and> (of_char c :: nat) < 97" and "c \<noteq> CHR '':''"
  shows "c \<notin> set (IPv6_String ws)"
proof -
  have "c \<notin> set (colon_groups vs)" for vs
  proof (cases vs)
    case Nil
    then show ?thesis by (simp add: colon_groups_def)
  next
    case (Cons w us)
    have "c \<notin> set (hex w)" for w using assms(1) by (rule hex_no_low)
    then show ?thesis using assms(2) by (simp add: Cons colon_groups_Cons colons_def)
  qed
  then show ?thesis using assms(2) by (auto simp: IPv6_String_def split: prod.split)
qed

lemma IPv6_String_colon:
  assumes "length ws = 8"
  shows "CHR '':'' \<in> set (IPv6_String ws)"
proof -
  obtain v w vs where "ws = v # w # vs" using assms by (cases ws; cases "tl ws") auto
  then have "CHR '':'' \<in> set (colon_groups ws)" by (simp add: colon_groups_Cons colons_def)
  then show ?thesis by (cases "longest_zeros 0 ws (0, 0)") (simp add: IPv6_String_def)
qed

lemma parseIPv4_dot: "parseIPv4 s = Some bs \<Longrightarrow> CHR ''.'' \<in> set s"
proof -
  have dot: "v4_fields (Suc k) False t = Some cs \<Longrightarrow> CHR ''.'' \<in> set t" for k t cs
    by (cases t) (auto split: if_splits)
  have first: "v4_fields (Suc k) True t = Some cs \<Longrightarrow> \<exists>c ds. v4_fields k False (drop c t) = Some ds" for k t cs
    by (fastforce simp: Let_def split: if_splits option.splits)
  assume "parseIPv4 s = Some bs"
  moreover have "4 = Suc 3" by simp
  ultimately have "v4_fields (Suc 3) True s = Some bs" by (simp only: parseIPv4_def)
  then obtain c cs where "v4_fields 3 False (drop c s) = Some cs" using first by blast
  moreover have "3 = Suc 2" by simp
  ultimately have "CHR ''.'' \<in> set (drop c s)" using dot [of 2] by metis
  then show ?thesis by (rule in_set_dropD)
qed

text \<open>Text that is read as an IPv6 address.\<close>

definition v6_text :: "string \<Rightarrow> IP \<Rightarrow> bool" where
  "v6_text s ip \<longleftrightarrow> parseIPv6 s = Some ip \<and> CHR '':'' \<in> set s \<and> CHR ''.'' \<notin> set s \<and> CHR ''/'' \<notin> set s"

lemma v6_text_String:
  assumes "length ip = 16"
  shows "v6_text (IPv6_String (words16 ip)) ip"
proof -
  have "CHR ''.'' \<notin> set (IPv6_String (words16 ip))" "CHR ''/'' \<notin> set (IPv6_String (words16 ip))"
    by (intro IPv6_String_chars; simp)+
  then show ?thesis
    using assms IPv6_String_colon [of "words16 ip"] by (simp add: v6_text_def parseIPv6_text length_words16)
qed

lemma ParseIP_v6:
  assumes "v6_text s ip"
  shows "ParseIP s = ip"
proof -
  have "CHR ''.'' \<notin> set t \<Longrightarrow> CHR '':'' \<in> set t \<Longrightarrow> ParseIP_at s t = ip" for t
    using assms by (induction t) (auto simp: v6_text_def)
  then show ?thesis using assms by (simp add: v6_text_def ParseIP_def)
qed

lemma ParseCIDR_v6:
  assumes "v6_text s ip" and "k \<le> 128"
  shows "ParseCIDR (s @ ''/'' @ FormatUint k) = Inr \<lparr>net_IP = IP_Mask ip (CIDRMask k 128), net_Mask = CIDRMask k 128\<rparr>"
proof -
  have "parseIPv4 s = None" using assms(1) parseIPv4_dot [of s] by (cases "parseIPv4 s") (auto simp: v6_text_def)
  moreover have "dtoi (FormatUint k) = Some (k, length (FormatUint k))"
    using assms(2) dtoi_show [of k "[]"] by (simp add: stops_def)
  moreover have "CHR ''/'' \<notin> set s" using assms(1) by (simp add: v6_text_def)
  ultimately show ?thesis
    using assms takeWhile_slash [of "CHR ''/''" s "FormatUint k"]
    by (simp add: ParseCIDR_def v6_text_def Let_def)
qed

text \<open>
  A network in the form \<open>ParseCIDR\<close> leaves it in: an IPv4 address (in either form) with a 4 byte
  mask, or another 16 byte address with a 16 byte mask; the mask is a prefix, and the address has
  no bit outside it.
\<close>

definition text_net :: "IPNet \<Rightarrow> bool" where
  "text_net n \<longleftrightarrow>
     (case To4 (net_IP n) of
        Some p \<Rightarrow> (\<exists>k\<in>{..32}. net_Mask n = CIDRMask k 32) \<and> map2 (AND) p (net_Mask n) = p
      | None \<Rightarrow> length (net_IP n) = 16 \<and> (\<exists>k\<in>{..128}. net_Mask n = CIDRMask k 128) \<and>
          map2 (AND) (net_IP n) (net_Mask n) = net_IP n)"

end
