(* ===== verification/Policy_Spec.thy ===== *)
theory Policy_Spec
  imports Namespace_Controller Policy_Controller Pod_Controller Packet_Verdict Net_Text
begin

text \<open>
  What multi-network policies mean for the egress traffic of a pod interface, written from the
  documentation of the API, the descriptions in \<open>deploy/crds/multi-net-crd.yaml\<close>, and not from the
  renderer: which policies isolate an interface, and which packets they allow. Nothing here is
  code of the program; it is the specification the rendered rules and the installed filters are
  compared with. \<open>supported\<close> says for which policies the program implements it, and \<open>excepted\<close>
  names the packets for which it is stricter.
\<close>

section \<open>Policies\<close>

text \<open>
  What the API leaves to others: the labels a selector selects (\<open>standard label selector
  semantics\<close>), and whether a packet goes to the port of its destination pod with some name.
\<close>

record 'sel Meaning =
  selects :: "'sel \<Rightarrow> labels \<Rightarrow> bool"
  to_named_port :: "string \<Rightarrow> Packet \<Rightarrow> bool"

text \<open>
  \<open>policyTypes\<close>: when it is not specified, policies that contain an egress section are assumed to
  affect egress; an empty egress section counts as none.
\<close>

definition affects_egress :: "'sel Policy \<Rightarrow> bool" where
  "affects_egress p \<longleftrightarrow>
     ''Egress'' \<in> set (pol_PolicyTypes p) \<or> pol_PolicyTypes p = [] \<and> pol_Egress p \<noteq> []"

text \<open>
  A policy is about a pod interface when it is in the pod's namespace, its \<open>podSelector\<close> selects
  the pod, and it is for the network of the interface.
\<close>

definition about_interface :: "'sel Meaning \<Rightarrow> PodInfo \<Rightarrow> InterfaceInfo \<Rightarrow> 'sel PolicyInfo \<Rightarrow> bool" where
  "about_interface crd target ifc p \<longleftrightarrow>
     pol_Namespace (pli_Policy p) = pi_Namespace target \<and>
     selects crd (pol_PodSelector (pli_Policy p)) (pi_Labels target) \<and>
     if_NetattachName ifc \<in> set (pli_PolicyNetworks p)"

definition isolating :: "'sel Meaning \<Rightarrow> PodInfo \<Rightarrow> InterfaceInfo \<Rightarrow> 'sel PolicyInfo list \<Rightarrow> 'sel PolicyInfo list" where
  "isolating crd target ifc ps =
     filter (\<lambda>p. about_interface crd target ifc p \<and> affects_egress (pli_Policy p)) ps"

section \<open>Destinations\<close>

text \<open>A packet to an address, in either form of an IPv4 address, and to a network.\<close>

definition to_address :: "IP \<Rightarrow> Packet \<Rightarrow> bool" where
  "to_address ip pk \<longleftrightarrow>
     (case To4 ip of
        Some p \<Rightarrow> pk_EthType pk = ''ip'' \<and> pk_DstIP pk = p
      | None \<Rightarrow> pk_EthType pk = ''ipv6'' \<and> pk_DstIP pk = ip)"

definition to_cidr :: "Packet \<Rightarrow> string \<Rightarrow> bool" where
  "to_cidr pk s \<longleftrightarrow>
     (case ParseCIDR s of
        Inl _ \<Rightarrow> False
      | Inr n \<Rightarrow> pk_EthType pk = (if To4 (net_IP n) = None then ''ipv6'' else ''ip'') \<and>
          net_contains n (pk_DstIP pk))"

text \<open>
  Pods are selected by their labels in the namespaces selected by theirs, without a namespace
  selector in the policy's own namespace.
\<close>

definition namespace_labels :: "NamespaceMap \<Rightarrow> string \<Rightarrow> labels" where
  "namespace_labels nss ns = (case map_of nss ns of None \<Rightarrow> None | Some nsi \<Rightarrow> nsi_Labels nsi)"

definition pod_meant :: "'sel Meaning \<Rightarrow> string \<Rightarrow> NamespaceMap \<Rightarrow> 'sel PolicyPeer \<Rightarrow> PodInfo \<Rightarrow> bool" where
  "pod_meant crd own nss peer pod \<longleftrightarrow>
     (case peer_PodSelector peer of None \<Rightarrow> True | Some s \<Rightarrow> selects crd s (pi_Labels pod)) \<and>
     (case peer_NamespaceSelector peer of
        None \<Rightarrow> pi_Namespace pod = own
      | Some s \<Rightarrow> selects crd s (namespace_labels nss (pi_Namespace pod)))"

text \<open>The addresses a pod has on a network.\<close>

definition pod_addresses :: "string \<Rightarrow> PodInfo \<Rightarrow> IP list" where
  "pod_addresses net pod =
     filter (\<lambda>ip. ip \<noteq> []) (concat (map (\<lambda>ifc.
       if if_NetattachName ifc = net then map ParseIP (elems (if_IPs ifc)) else []) (elems (pi_Interfaces pod))))"

definition meant_addresses ::
  "'sel Meaning \<Rightarrow> string \<Rightarrow> string \<Rightarrow> PodMap \<Rightarrow> NamespaceMap \<Rightarrow> 'sel PolicyPeer \<Rightarrow> IP list" where
  "meant_addresses crd own net pods nss peer =
     concat (map (pod_addresses net) (filter (pod_meant crd own nss peer) (map snd pods)))"

text \<open>
  A peer is a block of addresses without its own exceptions, or the pods its selectors select.
  When a block is given, the selectors must not be.
\<close>

definition has_selector :: "'sel PolicyPeer \<Rightarrow> bool" where
  "has_selector peer \<longleftrightarrow> peer_PodSelector peer \<noteq> None \<or> peer_NamespaceSelector peer \<noteq> None"

definition to_peer ::
  "'sel Meaning \<Rightarrow> string \<Rightarrow> string \<Rightarrow> PodMap \<Rightarrow> NamespaceMap \<Rightarrow> Packet \<Rightarrow> 'sel PolicyPeer \<Rightarrow> bool" where
  "to_peer crd own net pods nss pk peer \<longleftrightarrow>
     (case peer_IPBlock peer of
        Some b \<Rightarrow> to_cidr pk (blk_CIDR b) \<and> \<not> list_ex (to_cidr pk) (blk_Except b)
      | None \<Rightarrow> has_selector peer \<and>
          list_ex (\<lambda>ip. to_address ip pk) (meant_addresses crd own net pods nss peer))"

section \<open>Ports\<close>

text \<open>The protocol defaults to TCP; a port that is not given matches all ports of the protocol.\<close>

definition protocol_name :: "string option \<Rightarrow> string" where
  "protocol_name proto =
     (case proto of None \<Rightarrow> ''tcp'' | Some p \<Rightarrow>
        if p = ''TCP'' then ''tcp'' else if p = ''UDP'' then ''udp'' else if p = ''SCTP'' then ''sctp'' else [])"

definition to_port :: "'sel Meaning \<Rightarrow> Packet \<Rightarrow> PolicyPort \<Rightarrow> bool" where
  "to_port crd pk p \<longleftrightarrow>
     pk_IPProto pk = protocol_name (mp_Protocol p) \<and>
     (case mp_Port p of
        None \<Rightarrow> True
      | Some (FromInt n) \<Rightarrow> uint (pk_DstPort pk) = n
      | Some (FromString name) \<Rightarrow> to_named_port crd name pk)"

definition to_ports :: "'sel Meaning \<Rightarrow> Packet \<Rightarrow> PolicyPort list \<Rightarrow> bool" where
  "to_ports crd pk ports \<longleftrightarrow> ports = [] \<or> list_ex (to_port crd pk) ports"

section \<open>What policies allow\<close>

text \<open>
  The traffic must match both the ports and the destinations of a rule; no list, or an empty one,
  matches everything. Traffic is allowed if it matches at least one egress rule of the policies
  that select the pod.
\<close>

definition rule_means ::
  "'sel Meaning \<Rightarrow> string \<Rightarrow> string \<Rightarrow> PodMap \<Rightarrow> NamespaceMap \<Rightarrow> Packet \<Rightarrow> 'sel EgressRule \<Rightarrow> bool" where
  "rule_means crd own net pods nss pk r \<longleftrightarrow>
     to_ports crd pk (eg_Ports r) \<and> (eg_To r = [] \<or> list_ex (to_peer crd own net pods nss pk) (eg_To r))"

definition policies_allow ::
  "'sel Meaning \<Rightarrow> string \<Rightarrow> PodMap \<Rightarrow> NamespaceMap \<Rightarrow> 'sel PolicyInfo list \<Rightarrow> Packet \<Rightarrow> bool" where
  "policies_allow crd net pods nss ps pk \<longleftrightarrow>
     list_ex (\<lambda>p. list_ex (rule_means crd (pol_Namespace (pli_Policy p)) net pods nss pk)
       (pol_Egress (pli_Policy p))) ps"

text \<open>The verdict on a packet of an interface that some policy isolates; policies are about IP traffic.\<close>

definition crd_verdict ::
  "'sel Meaning \<Rightarrow> string \<Rightarrow> PodMap \<Rightarrow> NamespaceMap \<Rightarrow> 'sel PolicyInfo list \<Rightarrow> Packet \<Rightarrow> verdict" where
  "crd_verdict crd net pods nss ps pk =
     (if pk_EthType pk \<notin> {''ip'', ''ipv6''} then Unmatched
      else if policies_allow crd net pods nss ps pk then Decided ''pass'' else Decided ''drop'')"

section \<open>Where the program is stricter\<close>

text \<open>
  A packet in an exception of some block of the policies, on a port of the rule of that block.
  The API lets another block, peer, rule or policy allow it; the program drops it.
\<close>

definition block_excepts :: "Packet \<Rightarrow> IPBlock \<Rightarrow> bool" where
  "block_excepts pk b \<longleftrightarrow> \<not> isl (ParseCIDR (blk_CIDR b)) \<and> list_ex (to_cidr pk) (blk_Except b)"

definition excepted :: "'sel Meaning \<Rightarrow> 'sel PolicyInfo list \<Rightarrow> Packet \<Rightarrow> bool" where
  "excepted crd ps pk \<longleftrightarrow>
     list_ex (\<lambda>p. list_ex (\<lambda>r. to_ports crd pk (eg_Ports r) \<and>
       list_ex (\<lambda>peer. case peer_IPBlock peer of None \<Rightarrow> False | Some b \<Rightarrow> block_excepts pk b) (eg_To r))
       (pol_Egress (pli_Policy p))) ps"

text \<open>
  A verdict enforces the policies when it is the one of the API for every packet but the excepted
  ones, which are dropped. In particular it lets nothing pass that the API does not allow.
\<close>

definition enforces ::
  "'sel Meaning \<Rightarrow> string \<Rightarrow> PodMap \<Rightarrow> NamespaceMap \<Rightarrow> 'sel PolicyInfo list \<Rightarrow> (Packet \<Rightarrow> verdict) \<Rightarrow> bool" where
  "enforces crd net pods nss ps v \<longleftrightarrow>
     (\<forall>pk. (v pk = Decided ''pass'' \<longrightarrow> crd_verdict crd net pods nss ps pk = Decided ''pass'') \<and>
        v pk = (if excepted crd ps pk \<and> pk_EthType pk \<in> {''ip'', ''ipv6''} then Decided ''drop''
                else crd_verdict crd net pods nss ps pk))"

section \<open>Which policies the program implements\<close>

text \<open>Ports given as a number, of TCP or UDP.\<close>

definition usable_port :: "PolicyPort \<Rightarrow> bool" where
  "usable_port p \<longleftrightarrow>
     (case mp_Port p of Some (FromInt n) \<Rightarrow> 0 \<le> n \<and> n < 65536 | _ \<Rightarrow> False) \<and>
     mp_Protocol p \<in> {None, Some ''TCP'', Some ''UDP''}"

text \<open>Selectors that are pairs of labels, as \<open>LabelSelectorAsMap\<close> accepts them.\<close>

definition convertible :: "('sel, 'ls) Selectors \<Rightarrow> 'sel option \<Rightarrow> bool" where
  "convertible api s \<longleftrightarrow> \<not> isl (LabelSelectorAsMap api s)"

text \<open>
  Selectors convert and, in a rule with ports, select a pod with an address on the network.
\<close>

definition supported_peer ::
  "('sel, 'ls) Selectors \<Rightarrow> 'sel Meaning \<Rightarrow> string \<Rightarrow> string \<Rightarrow> PodMap \<Rightarrow> NamespaceMap \<Rightarrow> PolicyPort list \<Rightarrow>
    'sel PolicyPeer \<Rightarrow> bool" where
  "supported_peer api crd own net pods nss ports peer \<longleftrightarrow>
     peer_IPBlock peer = None \<and> has_selector peer \<longrightarrow>
       convertible api (peer_PodSelector peer) \<and> convertible api (peer_NamespaceSelector peer) \<and>
       (ports \<noteq> [] \<longrightarrow> meant_addresses crd own net pods nss peer \<noteq> [])"

definition supported ::
  "('sel, 'ls) Selectors \<Rightarrow> 'sel Meaning \<Rightarrow> PodInfo \<Rightarrow> InterfaceInfo \<Rightarrow> PodMap \<Rightarrow> NamespaceMap \<Rightarrow> 'sel PolicyInfo \<Rightarrow> bool" where
  "supported api crd target ifc pods nss p \<longleftrightarrow>
     convertible api (Some (pol_PodSelector (pli_Policy p))) \<and>
     (about_interface crd target ifc p \<longrightarrow>
        affects_egress (pli_Policy p) \<and>
        list_all (\<lambda>r. list_all usable_port (eg_Ports r) \<and>
          list_all (supported_peer api crd (pol_Namespace (pli_Policy p)) (if_NetattachName ifc) pods nss (eg_Ports r)) (eg_To r))
          (pol_Egress (pli_Policy p)))"

end
