(* ===== verification/Policy_Meaning.thy ===== *)
theory Policy_Meaning
  imports Policy_Renderer Policy_Spec
begin

text \<open>
  The rendered rules against the meaning of the policies in \<open>Policy_Spec\<close>. First what the rules
  say in terms of the networks and ports the renderer reads from a policy (\<open>rendered_reading\<close>, a
  notion of the proofs only), then that for supported policies this is what the API says, up to
  the excepted packets. The last theorems are about input that is not supported: a rule opens
  more than its policy allows, or a policy for ingress stops the egress traffic.
\<close>

section \<open>Label selectors\<close>

text \<open>
  Documented behaviour of apimachinery: the nil selector converts to no requirement, so does a
  selector of size 0, a converted selector matches the labels that have all its pairs, and it is
  empty when it has none.
\<close>

definition selectors_contract :: "('sel, 'ls) Selectors \<Rightarrow> bool" where
  "selectors_contract api \<longleftrightarrow>
     (\<exists>m. LabelSelectorAsMap api None = Inr m \<and> label_map m = Map.empty) \<and>
     (\<forall>s. LabelSelectorSize api s = 0 \<longrightarrow>
        (\<exists>m. LabelSelectorAsMap api (Some s) = Inr m \<and> label_map m = Map.empty)) \<and>
     (\<forall>m l. Matches api (AsSelector api m) l \<longleftrightarrow> label_map m \<subseteq>\<^sub>m label_map l) \<and>
     (\<forall>m. Empty api (AsSelector api m) \<longleftrightarrow> label_map m = Map.empty)"

lemma contract_selector:
  assumes "selectors_contract api"
  shows "Matches api (AsSelector api m) l \<longleftrightarrow> label_map m \<subseteq>\<^sub>m label_map l"
    and "Empty api (AsSelector api m) \<longleftrightarrow> label_map m = Map.empty"
  using assms unfolding selectors_contract_def by blast+

lemma contract_nil:
  assumes "selectors_contract api"
  obtains m where "LabelSelectorAsMap api None = Inr m" and "label_map m = Map.empty"
  using assms unfolding selectors_contract_def by blast

lemma contract_size:
  assumes "selectors_contract api" and "LabelSelectorSize api s = 0"
  obtains m where "LabelSelectorAsMap api (Some s) = Inr m" and "label_map m = Map.empty"
  using assms unfolding selectors_contract_def by blast

definition sel_matches :: "('sel, 'ls) Selectors \<Rightarrow> 'sel \<Rightarrow> labels \<Rightarrow> bool" where
  "sel_matches api s l \<longleftrightarrow>
     (case LabelSelectorAsMap api (Some s) of Inl _ \<Rightarrow> False | Inr m \<Rightarrow> label_map m \<subseteq>\<^sub>m label_map l)"

lemma policy_applies_iff:
  assumes "selectors_contract api"
  shows "PolicyAppliesForPod api info policy = Inr True \<longleftrightarrow>
    pol_Namespace policy = pi_Namespace info \<and> sel_matches api (pol_PodSelector policy) (pi_Labels info)"
proof (cases "LabelSelectorSize api (pol_PodSelector policy) = 0")
  case True
  then obtain m where "LabelSelectorAsMap api (Some (pol_PodSelector policy)) = Inr m" "label_map m = Map.empty"
    by (rule contract_size [OF assms])
  with True show ?thesis by (simp add: PolicyAppliesForPod_def sel_matches_def)
next
  case False
  then show ?thesis
    by (auto simp: PolicyAppliesForPod_def sel_matches_def contract_selector [OF assms] Let_def
        split: sum.splits)
qed

text \<open>
  A policy applies to a pod exactly when it is in the pod's namespace and every pair its
  selector requires is among the pod's labels. An error is reported only for a policy of the
  same namespace whose selector cannot be converted.
\<close>

theorem policy_applies_for_pod:
  assumes "selectors_contract api"
  shows "(PolicyAppliesForPod api info policy = Inr True \<longleftrightarrow>
      pol_Namespace policy = pi_Namespace info \<and> sel_matches api (pol_PodSelector policy) (pi_Labels info)) \<and>
    ((\<exists>e. PolicyAppliesForPod api info policy = Inl e) \<longleftrightarrow>
      pol_Namespace policy = pi_Namespace info \<and> LabelSelectorSize api (pol_PodSelector policy) \<noteq> 0 \<and>
      (\<exists>e. LabelSelectorAsMap api (Some (pol_PodSelector policy)) = Inl e))"
  using policy_applies_iff [OF assms]
  by (auto simp: PolicyAppliesForPod_def Let_def split: sum.splits if_splits)

section \<open>Peers\<close>

definition namespace_selected ::
  "('sel, 'ls) Selectors \<Rightarrow> 'sel PolicyPeer \<Rightarrow> string \<Rightarrow> NamespaceMap \<Rightarrow> string \<Rightarrow> bool" where
  "namespace_selected api peer policyNamespace nss ns \<longleftrightarrow>
     (case peer_NamespaceSelector peer of
        None \<Rightarrow> ns = policyNamespace
      | Some s \<Rightarrow>
          (case LabelSelectorAsMap api (Some s) of
             Inl _ \<Rightarrow> False
           | Inr m \<Rightarrow> label_map m = Map.empty \<or>
               (\<exists>nsi. map_of nss ns = Some nsi \<and> label_map m \<subseteq>\<^sub>m label_map (nsi_Labels nsi))))"

definition pod_selected ::
  "('sel, 'ls) Selectors \<Rightarrow> 'sel PolicyPeer \<Rightarrow> string \<Rightarrow> NamespaceMap \<Rightarrow> PodInfo \<Rightarrow> bool" where
  "pod_selected api peer policyNamespace nss pod \<longleftrightarrow>
     (case peer_PodSelector peer of None \<Rightarrow> True | Some s \<Rightarrow> sel_matches api s (pi_Labels pod)) \<and>
     namespace_selected api peer policyNamespace nss (pi_Namespace pod)"

text \<open>The addresses of a pod on a network, as host networks.\<close>

definition pod_nets :: "string \<Rightarrow> PodInfo \<Rightarrow> IPNet set" where
  "pod_nets networkName pod =
     {host_net ip | ip ifc. ifc \<in> set (elems (pi_Interfaces pod)) \<and> if_NetattachName ifc = networkName \<and>
        ip \<in> set (IPsFromStrings (elems (if_IPs ifc))) \<and> ip \<noteq> []}"

text \<open>The networks a peer names.\<close>

definition peer_nets ::
  "('sel, 'ls) Selectors \<Rightarrow> string \<Rightarrow> string \<Rightarrow> PodMap \<Rightarrow> NamespaceMap \<Rightarrow> 'sel PolicyPeer \<Rightarrow> IPNet set" where
  "peer_nets api policyNamespace networkName pods nss peer =
     (case peer_IPBlock peer of
        Some b \<Rightarrow> {n. ParseCIDR (blk_CIDR b) = Inr n}
      | None \<Rightarrow>
          if peer_PodSelector peer = None \<and> peer_NamespaceSelector peer = None then {}
          else \<Union> (pod_nets networkName `
            {pod \<in> set (PodMap_List pods). pod_selected api peer policyNamespace nss pod}))"

text \<open>The exceptions of a peer, when its CIDR is readable.\<close>

definition peer_excepts :: "'sel PolicyPeer \<Rightarrow> IPNet set" where
  "peer_excepts peer =
     (case peer_IPBlock peer of
        None \<Rightarrow> {}
      | Some b \<Rightarrow>
          if \<exists>n. ParseCIDR (blk_CIDR b) = Inr n
          then {m. \<exists>c\<in>set (blk_Except b). ParseCIDR c = Inr m} else {})"

definition in_nets :: "IPNet set \<Rightarrow> Packet \<Rightarrow> bool" where
  "in_nets ns pk \<longleftrightarrow> (\<exists>n\<in>ns. net_applies n pk)"

text \<open>A port of the API on a packet; its protocol is TCP unless it says UDP.\<close>

definition policy_port_applies :: "PolicyPort \<Rightarrow> Packet \<Rightarrow> bool" where
  "policy_port_applies p pk \<longleftrightarrow>
     (\<exists>n. ParseUint (IntOrString_String (mp_Port p)) 0 16 = Inr n \<and> pk_DstPort pk = of_nat n) \<and>
     (mp_Protocol p \<in> {None, Some ''TCP''} \<and> pk_IPProto pk = FlowerIPProtoTCP \<or>
      mp_Protocol p = Some ''UDP'' \<and> pk_IPProto pk = FlowerIPProtoUDP)"

definition ports_allow :: "PolicyPort list \<Rightarrow> Packet \<Rightarrow> bool" where
  "ports_allow ports pk \<longleftrightarrow> ports = [] \<or> (\<exists>p\<in>set ports. policy_port_applies p pk)"

section \<open>Policies\<close>

definition rule_allows ::
  "('sel, 'ls) Selectors \<Rightarrow> 'sel PolicyInfo \<Rightarrow> string \<Rightarrow> PodMap \<Rightarrow> NamespaceMap \<Rightarrow> Packet \<Rightarrow> 'sel EgressRule \<Rightarrow> bool" where
  "rule_allows api policy net pods nss pk r \<longleftrightarrow>
     ports_allow (eg_Ports r) pk \<and>
     (eg_To r = [] \<or>
      (\<exists>peer\<in>set (eg_To r). in_nets (peer_nets api (PolicyInfo_Namespace policy) net pods nss peer) pk))"

definition rule_excepts :: "Packet \<Rightarrow> 'sel EgressRule \<Rightarrow> bool" where
  "rule_excepts pk r \<longleftrightarrow>
     ports_allow (eg_Ports r) pk \<and> (\<exists>peer\<in>set (eg_To r). in_nets (peer_excepts peer) pk)"

text \<open>
  What the rules of a list of policies decide on an IP packet: the exceptions drop, then any rule
  allows, and what no rule allows is dropped.
\<close>

definition rendered_reading ::
  "('sel, 'ls) Selectors \<Rightarrow> string \<Rightarrow> PodMap \<Rightarrow> NamespaceMap \<Rightarrow> 'sel PolicyInfo list \<Rightarrow> Packet \<Rightarrow> verdict" where
  "rendered_reading api net pods nss policies pk =
     (if \<not> is_ip_packet pk then Unmatched
      else if \<exists>p\<in>set policies. \<exists>r\<in>set (pol_Egress (pli_Policy p)). rule_excepts pk r
      then Decided ActionGenericDrop
      else if \<exists>p\<in>set policies. \<exists>r\<in>set (pol_Egress (pli_Policy p)). rule_allows api p net pods nss pk r
      then Decided ActionGenericPass
      else Decided ActionGenericDrop)"

text \<open>
  The shapes of input for which the rendered rules mean what the policies mean: a rule with ports
  has a usable one, and a peer with selectors in a rule with ports selects some address.
\<close>

definition well_shaped ::
  "('sel, 'ls) Selectors \<Rightarrow> string \<Rightarrow> PodMap \<Rightarrow> NamespaceMap \<Rightarrow> 'sel PolicyInfo \<Rightarrow> bool" where
  "well_shaped api net pods nss p \<longleftrightarrow>
     (\<forall>r\<in>set (pol_Egress (pli_Policy p)).
        (eg_Ports r \<noteq> [] \<longrightarrow> getPorts (eg_Ports r) \<noteq> [] \<and>
          (\<forall>peer\<in>set (eg_To r). peer_IPBlock peer = None \<and>
             (peer_PodSelector peer \<noteq> None \<or> peer_NamespaceSelector peer \<noteq> None) \<longrightarrow>
             peer_nets api (PolicyInfo_Namespace p) net pods nss peer \<noteq> {})))"

section \<open>Rendered rules on packets\<close>

lemma some_rule_simps [simp]:
  "\<not> some_rule act [] pk"
  "some_rule act (r # rs) pk \<longleftrightarrow> (rule_Action r = act \<and> rule_applies r pk) \<or> some_rule act rs pk"
  "some_rule act (rs @ rs') pk \<longleftrightarrow> some_rule act rs pk \<or> some_rule act rs' pk"
  by (auto simp: some_rule_def)

lemma some_rule_concat [simp]:
  "some_rule act (concat (map f xs)) pk \<longleftrightarrow> (\<exists>x\<in>set xs. some_rule act (f x) pk)"
  by (induction xs) auto

definition ports_match :: "Port list \<Rightarrow> Packet \<Rightarrow> bool" where
  "ports_match ports pk \<longleftrightarrow> ports = [] \<or> list_ex (\<lambda>p. port_applies p pk) ports"

lemma rule_applies_iff:
  "rule_applies \<lparr>rule_IPCidrs = ns, rule_Ports = ports, rule_Action = a\<rparr> pk \<longleftrightarrow>
     is_ip_packet pk \<and> (ns = [] \<or> in_nets (set ns) pk) \<and> ports_match ports pk"
  by (auto simp: rule_applies_def in_nets_def ports_match_def list_ex_iff)

lemma getPorts_applies:
  "list_ex (\<lambda>p. port_applies p pk) (getPorts ports) \<longleftrightarrow> (\<exists>p\<in>set ports. policy_port_applies p pk)"
proof -
  have one: "list_ex (\<lambda>p. port_applies p pk) (getPorts [p]) \<longleftrightarrow> policy_port_applies p pk" for p
    by (auto simp: getPorts_def port_applies_def policy_port_applies_def PortProtocolToFlowerIPProto_def
        go_consts Let_def split: sum.splits option.splits)
  have "getPorts ports = concat (map (\<lambda>p. getPorts [p]) ports)"
    by (simp add: getPorts_def)
  then have "list_ex (\<lambda>p. port_applies p pk) (getPorts ports) \<longleftrightarrow>
      (\<exists>p\<in>set ports. list_ex (\<lambda>p. port_applies p pk) (getPorts [p]))"
    by (auto simp: list_ex_iff)
  then show ?thesis by (simp add: one)
qed

lemma ports_match_getPorts:
  assumes "ports \<noteq> [] \<longrightarrow> getPorts ports \<noteq> []"
  shows "ports_match (getPorts ports) pk \<longleftrightarrow> ports_allow ports pk"
  using assms by (auto simp: ports_match_def ports_allow_def getPorts_applies) (simp_all add: getPorts_def)

lemma selected_pods:
  assumes "selectors_contract api" and "peer_PodSelector peer \<noteq> None \<or> peer_NamespaceSelector peer \<noteq> None"
  shows "(case matching_pods api (peer_PodSelector peer) pods of
            Inl _ \<Rightarrow> {}
          | Inr ps \<Rightarrow> (case matching_pods_and_ns api (peer_NamespaceSelector peer) ns nss ps of
              Inl _ \<Rightarrow> {} | Inr qs \<Rightarrow> set qs)) =
    {pod \<in> set (PodMap_List pods). pod_selected api peer ns nss pod}"
proof -
  note selector = contract_selector [OF assms(1)]
  obtain m0 where m0: "LabelSelectorAsMap api None = Inr m0" "label_map m0 = Map.empty"
    by (rule contract_nil [OF assms(1)])
  have pods: "(case matching_pods api (peer_PodSelector peer) pods of Inl _ \<Rightarrow> {} | Inr ps \<Rightarrow> set ps) =
      {pod \<in> set (PodMap_List pods).
        case peer_PodSelector peer of None \<Rightarrow> True | Some s \<Rightarrow> sel_matches api s (pi_Labels pod)}"
    using m0
    by (cases "peer_PodSelector peer")
      (auto simp: matching_pods_def sel_matches_def selector Let_def split: sum.splits)
  have "(case matching_pods_and_ns api (peer_NamespaceSelector peer) ns nss ps of Inl _ \<Rightarrow> {} | Inr qs \<Rightarrow> set qs) =
      {pod \<in> set ps. namespace_selected api peer ns nss (pi_Namespace pod)}" for ps
    by (cases "peer_NamespaceSelector peer")
      (auto simp: matching_pods_and_ns_def namespace_selected_def GetNamespaceInfo_def selector Let_def
        split: option.splits sum.splits)
  with pods show ?thesis
    by (auto simp: pod_selected_def split: sum.splits)
qed

lemma set_pod_cidrs: "set (pod_cidrs net ps) = \<Union> (pod_nets net ` set ps)"
  by (auto simp: pod_cidrs_def interface_cidrs_def pod_nets_def split: if_splits)

text \<open>The rule of a peer with selectors.\<close>

lemma selector_rules:
  assumes "selectors_contract api" and "peer_IPBlock peer = None"
    and "peer_PodSelector peer \<noteq> None \<or> peer_NamespaceSelector peer \<noteq> None"
  shows "\<exists>ns. set ns = peer_nets api (PolicyInfo_Namespace p) net pods nss peer \<and>
    (renderRulesWithSelectors api (peer_PodSelector peer) (peer_NamespaceSelector peer) ports pods nss net
       (PolicyInfo_Namespace p) =
       (if ns \<noteq> [] \<or> ports \<noteq> []
        then [\<lparr>rule_IPCidrs = ns, rule_Ports = ports, rule_Action = PolicyActionPass\<rparr>] else []) \<or>
     ns = [] \<and> renderRulesWithSelectors api (peer_PodSelector peer) (peer_NamespaceSelector peer) ports pods
       nss net (PolicyInfo_Namespace p) = [])"
proof -
  note sel = selected_pods [OF assms(1,3), where pods = pods and ns = "PolicyInfo_Namespace p" and nss = nss]
  let ?sel = "case matching_pods api (peer_PodSelector peer) pods of
      Inl _ \<Rightarrow> {}
    | Inr ps \<Rightarrow> (case matching_pods_and_ns api (peer_NamespaceSelector peer) (PolicyInfo_Namespace p) nss ps of
        Inl _ \<Rightarrow> {} | Inr qs \<Rightarrow> set qs)"
  have some: "\<not> (peer_PodSelector peer = None \<and> peer_NamespaceSelector peer = None)"
    using assms(3) by (simp add: de_Morgan_conj)
  have nets: "peer_nets api (PolicyInfo_Namespace p) net pods nss peer = \<Union> (pod_nets net ` ?sel)"
    unfolding sel using assms(2) some by (simp only: peer_nets_def if_False option.case)
  show ?thesis
  proof (cases "matching_pods api (peer_PodSelector peer) pods")
    case (Inl e)
    then show ?thesis using nets
      by (intro exI [of _ "[]"]) (simp add: renderRulesWithSelectors_def)
  next
    case (Inr ps)
    note first = this
    show ?thesis
    proof (cases "matching_pods_and_ns api (peer_NamespaceSelector peer) (PolicyInfo_Namespace p) nss ps")
      case (Inl e)
      then show ?thesis using first nets
        by (intro exI [of _ "[]"]) (simp add: renderRulesWithSelectors_def)
    next
      case (Inr qs)
      then have "set (pod_cidrs net qs) = peer_nets api (PolicyInfo_Namespace p) net pods nss peer"
        using first nets by (simp add: set_pod_cidrs)
      then show ?thesis using first Inr some
        by (intro exI [of _ "pod_cidrs net qs"]) (auto simp: renderRulesWithSelectors_def Let_def)
    qed
  qed
qed

lemma peer_pass:
  assumes "selectors_contract api"
    and "peer_IPBlock peer = None \<and> (peer_PodSelector peer \<noteq> None \<or> peer_NamespaceSelector peer \<noteq> None) \<and>
      ports \<noteq> [] \<longrightarrow> peer_nets api (PolicyInfo_Namespace p) net pods nss peer \<noteq> {}"
  shows "some_rule PolicyActionPass (peer_rules api p net pods nss ports peer) pk \<longleftrightarrow>
    is_ip_packet pk \<and> ports_match ports pk \<and>
    in_nets (peer_nets api (PolicyInfo_Namespace p) net pods nss peer) pk"
proof (cases "peer_IPBlock peer")
  case (Some b)
  then show ?thesis
    by (auto simp: peer_rules_def renderRulesWithIPBlock_def peer_nets_def rule_applies_iff in_nets_def
        Let_def split: sum.splits)
next
  case None
  show ?thesis
  proof (cases "peer_PodSelector peer = None \<and> peer_NamespaceSelector peer = None")
    case True
    with None show ?thesis by (auto simp: peer_rules_def peer_nets_def in_nets_def)
  next
    case False
    then have some: "peer_PodSelector peer \<noteq> None \<or> peer_NamespaceSelector peer \<noteq> None"
      by (simp add: de_Morgan_conj)
    let ?rules = "peer_rules api p net pods nss ports peer"
    obtain ns where ns: "set ns = peer_nets api (PolicyInfo_Namespace p) net pods nss peer"
      and "?rules = (if ns \<noteq> [] \<or> ports \<noteq> []
           then [\<lparr>rule_IPCidrs = ns, rule_Ports = ports, rule_Action = PolicyActionPass\<rparr>] else []) \<or>
        ns = [] \<and> ?rules = []"
      using selector_rules [OF assms(1) None some, of p net pods nss ports] None False
      by (auto simp: peer_rules_def)
    then consider
        "ns \<noteq> []" "?rules = [\<lparr>rule_IPCidrs = ns, rule_Ports = ports, rule_Action = PolicyActionPass\<rparr>]"
      | "ns = []" "?rules = []" | "ns = []" "ports \<noteq> []"
      by (metis (full_types))
    then show ?thesis
    proof cases
      case 1
      then show ?thesis using ns by (auto simp: rule_applies_iff)
    next
      case 2
      then show ?thesis using ns by (auto simp: in_nets_def)
    next
      case 3
      then show ?thesis using ns assms(2) None some by auto
    qed
  qed
qed

lemma peer_drop:
  assumes "selectors_contract api"
  shows "some_rule PolicyActionDrop (peer_rules api p net pods nss ports peer) pk \<longleftrightarrow>
    is_ip_packet pk \<and> ports_match ports pk \<and> in_nets (peer_excepts peer) pk"
proof (cases "peer_IPBlock peer")
  case (Some b)
  let ?ex = "concat (map (\<lambda>c. case ParseCIDR c of Inl _ \<Rightarrow> [] | Inr n \<Rightarrow> [n]) (blk_Except b))"
  have ex: "set ?ex = {m. \<exists>c\<in>set (blk_Except b). ParseCIDR c = Inr m}"
  proof -
    have "set (case ParseCIDR c of Inl _ \<Rightarrow> [] | Inr n \<Rightarrow> [n]) = {m. ParseCIDR c = Inr m}" for c
      by (cases "ParseCIDR c") auto
    then show ?thesis by auto
  qed
  show ?thesis
  proof (cases "ParseCIDR (blk_CIDR b)")
    case (Inl e)
    with Some show ?thesis
      by (simp add: peer_rules_def renderRulesWithIPBlock_def peer_excepts_def in_nets_def)
  next
    case (Inr n)
    have "?ex = [] \<longleftrightarrow> set ?ex = {}" by (simp only: set_empty)
    with Some Inr ex show ?thesis
      by (auto simp: peer_rules_def renderRulesWithIPBlock_def peer_excepts_def rule_applies_iff
          Let_def in_nets_def simp del: concat_eq_Nil_conv)
  qed
next
  case None
  then show ?thesis
    by (auto simp: peer_rules_def renderRulesWithSelectors_def peer_excepts_def in_nets_def Let_def
        split: sum.splits)
qed

section \<open>The rendered rules mean the policies\<close>

lemma egress_pass:
  assumes "selectors_contract api" and "well_shaped api net pods nss p" and "r \<in> set (pol_Egress (pli_Policy p))"
    and "is_ip_packet pk"
  shows "some_rule PolicyActionPass (egress_rules api p net pods nss r) pk \<longleftrightarrow>
    rule_allows api p net pods nss pk r"
proof -
  let ?ports = "getPorts (eg_Ports r)"
  have usable: "eg_Ports r \<noteq> [] \<longrightarrow> ?ports \<noteq> []"
    and selects: "\<And>peer. peer \<in> set (eg_To r) \<Longrightarrow> peer_IPBlock peer = None \<and>
        (peer_PodSelector peer \<noteq> None \<or> peer_NamespaceSelector peer \<noteq> None) \<and> ?ports \<noteq> [] \<longrightarrow>
        peer_nets api (PolicyInfo_Namespace p) net pods nss peer \<noteq> {}"
  proof -
    have "eg_Ports r = [] \<Longrightarrow> ?ports = []" by (simp add: getPorts_def)
    then show "eg_Ports r \<noteq> [] \<longrightarrow> ?ports \<noteq> []"
      and "\<And>peer. peer \<in> set (eg_To r) \<Longrightarrow> peer_IPBlock peer = None \<and>
        (peer_PodSelector peer \<noteq> None \<or> peer_NamespaceSelector peer \<noteq> None) \<and> ?ports \<noteq> [] \<longrightarrow>
        peer_nets api (PolicyInfo_Namespace p) net pods nss peer \<noteq> {}"
      using assms(2,3) unfolding well_shaped_def by blast+
  qed
  have "some_rule PolicyActionPass (concat (map (peer_rules api p net pods nss ?ports) (eg_To r))) pk \<longleftrightarrow>
      ports_allow (eg_Ports r) pk \<and>
      (\<exists>peer\<in>set (eg_To r). in_nets (peer_nets api (PolicyInfo_Namespace p) net pods nss peer) pk)"
    using peer_pass [OF assms(1) selects] assms(4) by (auto simp: ports_match_getPorts [OF usable])
  then show ?thesis
    using assms(4)
    by (auto simp: egress_rules_def rule_allows_def Let_def rule_applies_iff ports_match_getPorts [OF usable])
qed

lemma egress_drop:
  assumes "selectors_contract api" and "well_shaped api net pods nss p" and "r \<in> set (pol_Egress (pli_Policy p))"
    and "is_ip_packet pk"
  shows "some_rule PolicyActionDrop (egress_rules api p net pods nss r) pk \<longleftrightarrow> rule_excepts pk r"
proof -
  have usable: "eg_Ports r \<noteq> [] \<longrightarrow> getPorts (eg_Ports r) \<noteq> []"
    using assms(2,3) by (simp add: well_shaped_def)
  show ?thesis
    using assms(4)
    by (auto simp: egress_rules_def rule_excepts_def Let_def peer_drop [OF assms(1)]
        ports_match_getPorts [OF usable])
qed

lemma rendered_verdict:
  assumes "selectors_contract api" and "\<forall>p\<in>set ps. well_shaped api (if_NetattachName ifc) pods nss p"
  shows "policy_verdict (concat (map (policy_rules api pods nss ifc) ps)) pk =
    rendered_reading api (if_NetattachName ifc) pods nss ps pk"
proof (cases "is_ip_packet pk")
  case True
  have "some_rule PolicyActionPass (concat (map (policy_rules api pods nss ifc) ps)) pk \<longleftrightarrow>
      (\<exists>p\<in>set ps. \<exists>r\<in>set (pol_Egress (pli_Policy p)). rule_allows api p (if_NetattachName ifc) pods nss pk r)"
    using egress_pass [OF assms(1) _ _ True] assms(2) by (auto simp: policy_rules_def)
  moreover have "some_rule PolicyActionDrop (concat (map (policy_rules api pods nss ifc) ps)) pk \<longleftrightarrow>
      (\<exists>p\<in>set ps. \<exists>r\<in>set (pol_Egress (pli_Policy p)). rule_excepts pk r)"
    using egress_drop [OF assms(1) _ _ True] assms(2) by (auto simp: policy_rules_def)
  ultimately show ?thesis by (simp add: policy_verdict_def rendered_reading_def)
next
  case False
  then show ?thesis by (simp add: policy_verdict_def rendered_reading_def)
qed

section \<open>The renderer's reading and the meaning of the policies\<close>

text \<open>
  The selector library converts a selector to the labels it requires, if it can; what the
  selector selects is then what those labels are part of.
\<close>

definition selectors_mean :: "('sel, 'ls) Selectors \<Rightarrow> 'sel Meaning \<Rightarrow> bool" where
  "selectors_mean api crd \<longleftrightarrow> selectors_contract api \<and>
     (\<forall>s m l. LabelSelectorAsMap api (Some s) = Inr m \<longrightarrow>
        (selects crd s l \<longleftrightarrow> label_map m \<subseteq>\<^sub>m label_map l))"

lemma mean_contract: "selectors_mean api crd \<Longrightarrow> selectors_contract api"
  by (simp add: selectors_mean_def)

lemma converted:
  assumes "selectors_mean api crd" and "convertible api (Some s)"
  obtains m where "LabelSelectorAsMap api (Some s) = Inr m"
    and "\<And>l. selects crd s l \<longleftrightarrow> label_map m \<subseteq>\<^sub>m label_map l"
proof -
  obtain m where m: "LabelSelectorAsMap api (Some s) = Inr m"
    using assms(2) by (cases "LabelSelectorAsMap api (Some s)") (simp_all add: convertible_def)
  then show thesis using assms(1) unfolding selectors_mean_def by (intro that [OF m]) blast
qed

lemma sel_matches_means:
  "selectors_mean api crd \<Longrightarrow> convertible api (Some s) \<Longrightarrow> sel_matches api s l \<longleftrightarrow> selects crd s l"
  by (erule (1) converted) (simp add: sel_matches_def)

lemma enforced_iff:
  assumes "selectors_mean api crd" and "convertible api (Some (pol_PodSelector (pli_Policy p)))"
  shows "enforced api target ifc p \<longleftrightarrow> about_interface crd target ifc p"
  using policy_applies_iff [OF mean_contract [OF assms(1)]] sel_matches_means [OF assms]
  by (auto simp: enforced_def about_interface_def AppliesForNetwork_def list_ex_iff)

lemma supported_enforced:
  assumes "selectors_mean api crd" and "\<forall>p\<in>set ps. supported api crd target ifc pods nss p"
  shows "filter (enforced api target ifc) ps = isolating crd target ifc ps"
proof -
  have "enforced api target ifc p \<longleftrightarrow> about_interface crd target ifc p \<and> affects_egress (pli_Policy p)"
    if "p \<in> set ps" for p
  proof -
    have p: "supported api crd target ifc pods nss p" using assms(2) that by blast
    then have "convertible api (Some (pol_PodSelector (pli_Policy p)))"
      and "about_interface crd target ifc p \<longrightarrow> affects_egress (pli_Policy p)"
      by (simp_all add: supported_def)
    with enforced_iff [OF assms(1)] show ?thesis by blast
  qed
  then show ?thesis unfolding isolating_def by (intro filter_cong [OF refl])
qed

text \<open>Destinations.\<close>

lemma to_address_iff:
  assumes "length ip = 16"
  shows "net_applies (host_net ip) pk \<longleftrightarrow> to_address ip pk"
proof (cases "To4 ip")
  case None
  have "net_contains (host_net ip) (pk_DstIP pk) \<longleftrightarrow> pk_DstIP pk = ip"
    using None assms mask_full [of ip] mask_full [of "pk_DstIP pk"]
    by (auto simp: net_contains_def host_net_def IsIPv4_def networkNumberAndMask_def CIDRMask_def)
  then show ?thesis
    using None by (auto simp: net_applies_def to_address_def host_net_def proto_of_IP_def IsIPv4_def
        ProtoToFlowerVlanEthType_def go_consts)
next
  case (Some p)
  have "net_contains (host_net ip) (pk_DstIP pk) \<longleftrightarrow> pk_DstIP pk = p"
    using Some length_To4 [OF Some] mask_full [of p] mask_full [of "pk_DstIP pk"]
    by (auto simp: net_contains_def host_net_def IsIPv4_def networkNumberAndMask_def CIDRMask_def)
  then show ?thesis
    using Some by (auto simp: net_applies_def to_address_def host_net_def proto_of_IP_def IsIPv4_def
        ProtoToFlowerVlanEthType_def go_consts)
qed

lemma to_cidr_iff: "to_cidr pk s \<longleftrightarrow> (\<exists>n. ParseCIDR s = Inr n \<and> net_applies n pk)"
  by (auto simp: to_cidr_def net_applies_def proto_of_IP_def IsIPv4_def ProtoToFlowerVlanEthType_def go_consts
      split: sum.splits)

lemma pod_nets_addresses: "pod_nets net pod = host_net ` set (pod_addresses net pod)"
  by (auto simp: pod_nets_def pod_addresses_def IPsFromStrings_def image_iff split: if_splits)

lemma pod_addresses_length: "ip \<in> set (pod_addresses net pod) \<Longrightarrow> length ip = 16"
  using ParseIP_length by (auto simp: pod_addresses_def split: if_splits)

lemma pod_meant_iff:
  assumes "selectors_mean api crd" and "convertible api (peer_PodSelector peer)"
    and "convertible api (peer_NamespaceSelector peer)"
  shows "pod_selected api peer own nss pod \<longleftrightarrow> pod_meant crd own nss peer pod"
proof -
  have "namespace_selected api peer own nss ns \<longleftrightarrow>
      (case peer_NamespaceSelector peer of None \<Rightarrow> ns = own | Some s \<Rightarrow> selects crd s (namespace_labels nss ns))" for ns
  proof (cases "peer_NamespaceSelector peer")
    case (Some s)
    then obtain m where "LabelSelectorAsMap api (Some s) = Inr m"
        "\<And>l. selects crd s l \<longleftrightarrow> label_map m \<subseteq>\<^sub>m label_map l"
      using converted [OF assms(1)] assms(3) by metis
    moreover have "m \<subseteq>\<^sub>m Map.empty \<longleftrightarrow> m = Map.empty" for m :: "string \<rightharpoonup> string"
      using map_le_antisym map_le_empty by blast
    moreover have "label_map None = Map.empty" by (simp add: label_map_def)
    ultimately show ?thesis
      using Some by (auto simp: namespace_selected_def namespace_labels_def split: option.splits)
  qed (simp add: namespace_selected_def)
  then show ?thesis
    using sel_matches_means [OF assms(1)] assms(2)
    by (auto simp: pod_selected_def pod_meant_def split: option.splits)
qed

lemma peer_nets_meant:
  assumes "selectors_mean api crd" and "convertible api (peer_PodSelector peer)"
    and "convertible api (peer_NamespaceSelector peer)" and "peer_IPBlock peer = None" and "has_selector peer"
  shows "peer_nets api own net pods nss peer = host_net ` set (meant_addresses crd own net pods nss peer)"
proof -
  have "peer_nets api own net pods nss peer =
      \<Union> (pod_nets net ` {pod \<in> set (PodMap_List pods). pod_selected api peer own nss pod})"
    using assms(4,5) by (auto simp: peer_nets_def has_selector_def)
  then show ?thesis
    unfolding pod_meant_iff [OF assms(1-3)] pod_nets_addresses
    by (simp add: meant_addresses_def PodMap_List_def image_UN)
qed

lemma meant_addresses_length: "ip \<in> set (meant_addresses crd own net pods nss peer) \<Longrightarrow> length ip = 16"
  using pod_addresses_length by (auto simp: meant_addresses_def)

text \<open>Ports.\<close>

lemma parse_digits_plain:
  "CHR ''_'' \<notin> set s \<Longrightarrow> parse_digits b0 b m a s = parse_digits False b m a s"
  by (induction s arbitrary: a) (auto split: option.splits)

lemma ParseUint_Itoa:
  assumes "0 \<le> n" and "n < 2 ^ k"
  shows "ParseUint (Itoa n) 0 k = Inr (nat n)"
proof (cases "n = 0")
  case True
  have "Itoa 0 = ''0''" by code_simp
  with True show ?thesis by (simp add: ParseUint_def base_prefix_def)
next
  case False
  let ?s = "show_base 10 (nat n)"
  have "hd ?s \<noteq> CHR ''0''" using False assms(1) by (intro show_base_hd) simp_all
  then have prefix: "base_prefix ?s = (10, ?s)"
    using show_base_nonempty [of 10 "nat n"] by (auto simp: base_prefix_def split: list.splits)
  have "nat n < 2 ^ k" using assms by (simp add: nat_less_iff)
  then have "nat n \<le> 2 ^ k - 1" by linarith
  then have "parse_digits True 10 (2 ^ k - 1) 0 ?s = Inr (nat n)"
    using parse_show_base [of 10 "nat n" "2 ^ k - 1"] show_base_no_low [of 10 "CHR ''_''" "nat n"]
      parse_digits_plain [of ?s True] by simp
  moreover have "CHR ''_'' \<notin> set ?s" by (rule show_base_no_low) simp_all
  ultimately show ?thesis
    using assms(1) by (simp add: Itoa_def FormatUint_def ParseUint_def prefix)
qed

lemma to_port_iff:
  assumes "usable_port p"
  shows "policy_port_applies p pk \<longleftrightarrow> to_port crd pk p" and "getPorts [p] \<noteq> []"
proof -
  obtain n where n: "mp_Port p = Some (FromInt n)" "0 \<le> n" "n < 65536"
    using assms by (auto simp: usable_port_def split: option.splits IntOrString.splits)
  then have read: "ParseUint (IntOrString_String (mp_Port p)) 0 16 = Inr (nat n)"
    using ParseUint_Itoa [of n 16] by (simp add: IntOrString_String_def)
  have "(w :: u16) = of_nat (nat n) \<longleftrightarrow> uint w = n" for w
    using n(2,3) by (auto simp: word_eq_iff_unsigned [where ?'a = int] uint_word_of_int unsigned_of_int take_bit_int_eq_self_iff)
  then show "policy_port_applies p pk \<longleftrightarrow> to_port crd pk p"
    using assms n(1) read by (auto simp: policy_port_applies_def to_port_def protocol_name_def usable_port_def go_consts)
  show "getPorts [p] \<noteq> []"
    using assms read by (auto simp: getPorts_def usable_port_def Let_def)
qed

lemma getPorts_some: "p \<in> set ports \<Longrightarrow> getPorts [p] \<noteq> [] \<Longrightarrow> getPorts ports \<noteq> []"
  by (auto simp: getPorts_def)

lemma ports_iff:
  assumes "list_all usable_port ports"
  shows "ports_allow ports pk \<longleftrightarrow> to_ports crd pk ports" and "ports \<noteq> [] \<Longrightarrow> getPorts ports \<noteq> []"
proof -
  show "ports_allow ports pk \<longleftrightarrow> to_ports crd pk ports"
    using assms to_port_iff(1) unfolding ports_allow_def to_ports_def list_all_iff list_ex_iff by blast
  assume "ports \<noteq> []"
  then obtain p where "p \<in> set ports" by fastforce
  then show "getPorts ports \<noteq> []"
    using getPorts_some to_port_iff(2) assms unfolding list_all_iff by blast
qed

text \<open>Peers and rules.\<close>

lemma excepts_iff:
  "in_nets (peer_excepts peer) pk \<longleftrightarrow>
     (case peer_IPBlock peer of None \<Rightarrow> False | Some b \<Rightarrow> block_excepts pk b)"
  by (auto simp: in_nets_def peer_excepts_def block_excepts_def list_ex_iff to_cidr_iff isl_def
      split: option.splits) (metis sum.exhaust_sel sum.disc)+

lemma to_peer_iff:
  assumes "selectors_mean api crd" and "supported_peer api crd own net pods nss ports peer"
  shows "to_peer crd own net pods nss pk peer \<longleftrightarrow>
    in_nets (peer_nets api own net pods nss peer) pk \<and> \<not> in_nets (peer_excepts peer) pk"
proof (cases "peer_IPBlock peer")
  case (Some b)
  have "in_nets (peer_nets api own net pods nss peer) pk \<longleftrightarrow> to_cidr pk (blk_CIDR b)"
    using Some by (auto simp: in_nets_def peer_nets_def to_cidr_iff)
  moreover have "to_cidr pk (blk_CIDR b) \<Longrightarrow> \<not> isl (ParseCIDR (blk_CIDR b))"
    by (auto simp: to_cidr_iff)
  ultimately show ?thesis
    using Some by (auto simp: to_peer_def excepts_iff block_excepts_def)
next
  case None
  show ?thesis
  proof (cases "has_selector peer")
    case True
    then have conv: "convertible api (peer_PodSelector peer)" "convertible api (peer_NamespaceSelector peer)"
      using assms(2) None by (simp_all add: supported_peer_def)
    have "net_applies (host_net ip) pk \<longleftrightarrow> to_address ip pk"
      if "ip \<in> set (meant_addresses crd own net pods nss peer)" for ip
      by (rule to_address_iff [OF meant_addresses_length [OF that]])
    then show ?thesis
      using None True
      by (auto simp: to_peer_def in_nets_def peer_nets_meant [OF assms(1) conv None True] peer_excepts_def list_ex_iff)
  next
    case False
    then show ?thesis using None by (auto simp: to_peer_def in_nets_def peer_nets_def has_selector_def)
  qed
qed

definition supported_rule ::
  "('sel, 'ls) Selectors \<Rightarrow> 'sel Meaning \<Rightarrow> string \<Rightarrow> string \<Rightarrow> PodMap \<Rightarrow> NamespaceMap \<Rightarrow> 'sel EgressRule \<Rightarrow> bool" where
  "supported_rule api crd own net pods nss r \<longleftrightarrow>
     list_all usable_port (eg_Ports r) \<and> list_all (supported_peer api crd own net pods nss (eg_Ports r)) (eg_To r)"

lemma rule_iff:
  assumes "selectors_mean api crd" and "supported_rule api crd (PolicyInfo_Namespace p) net pods nss r"
  shows "rule_means crd (PolicyInfo_Namespace p) net pods nss pk r \<Longrightarrow> rule_allows api p net pods nss pk r"
    and "rule_allows api p net pods nss pk r \<Longrightarrow> \<not> rule_excepts pk r \<Longrightarrow>
      rule_means crd (PolicyInfo_Namespace p) net pods nss pk r"
    and "rule_excepts pk r \<longleftrightarrow> to_ports crd pk (eg_Ports r) \<and>
      list_ex (\<lambda>peer. case peer_IPBlock peer of None \<Rightarrow> False | Some b \<Rightarrow> block_excepts pk b) (eg_To r)"
proof -
  have ports: "ports_allow (eg_Ports r) pk \<longleftrightarrow> to_ports crd pk (eg_Ports r)"
    by (rule ports_iff(1)) (use assms(2) in \<open>simp add: supported_rule_def\<close>)
  have peer: "to_peer crd (PolicyInfo_Namespace p) net pods nss pk peer \<longleftrightarrow>
      in_nets (peer_nets api (PolicyInfo_Namespace p) net pods nss peer) pk \<and> \<not> in_nets (peer_excepts peer) pk"
    if "peer \<in> set (eg_To r)" for peer
    by (rule to_peer_iff [OF assms(1), where ports = "eg_Ports r"])
      (use assms(2) that in \<open>simp add: supported_rule_def list_all_iff\<close>)
  show "rule_means crd (PolicyInfo_Namespace p) net pods nss pk r \<Longrightarrow> rule_allows api p net pods nss pk r"
    and "rule_allows api p net pods nss pk r \<Longrightarrow> \<not> rule_excepts pk r \<Longrightarrow>
      rule_means crd (PolicyInfo_Namespace p) net pods nss pk r"
    using peer by (auto simp: rule_means_def rule_allows_def rule_excepts_def ports list_ex_iff)
  show "rule_excepts pk r \<longleftrightarrow> to_ports crd pk (eg_Ports r) \<and>
      list_ex (\<lambda>peer. case peer_IPBlock peer of None \<Rightarrow> False | Some b \<Rightarrow> block_excepts pk b) (eg_To r)"
    by (simp add: rule_excepts_def ports excepts_iff list_ex_iff)
qed

lemma supported_rules:
  assumes "supported api crd target ifc pods nss p" and "about_interface crd target ifc p"
    and "r \<in> set (pol_Egress (pli_Policy p))"
  shows "supported_rule api crd (PolicyInfo_Namespace p) (if_NetattachName ifc) pods nss r"
  using assms by (simp add: supported_def supported_rule_def PolicyInfo_Namespace_def list_all_iff)

lemma supported_shaped:
  assumes "selectors_mean api crd" and "supported api crd target ifc pods nss p" and "about_interface crd target ifc p"
  shows "well_shaped api (if_NetattachName ifc) pods nss p"
  unfolding well_shaped_def
proof (intro ballI impI conjI)
  fix r
  assume r: "r \<in> set (pol_Egress (pli_Policy p))" and some: "eg_Ports r \<noteq> []"
  note rule = supported_rules [OF assms(2,3) r]
  show "getPorts (eg_Ports r) \<noteq> []" using ports_iff(2) rule some by (simp add: supported_rule_def)
  fix peer
  assume "peer \<in> set (eg_To r)"
    and sel: "peer_IPBlock peer = None \<and> (peer_PodSelector peer \<noteq> None \<or> peer_NamespaceSelector peer \<noteq> None)"
  then have "supported_peer api crd (PolicyInfo_Namespace p) (if_NetattachName ifc) pods nss (eg_Ports r) peer"
    using rule by (simp add: supported_rule_def list_all_iff)
  with sel some have peer: "convertible api (peer_PodSelector peer)" "convertible api (peer_NamespaceSelector peer)"
      "meant_addresses crd (PolicyInfo_Namespace p) (if_NetattachName ifc) pods nss peer \<noteq> []"
    and has: "has_selector peer"
    unfolding supported_peer_def has_selector_def by blast+
  show "peer_nets api (PolicyInfo_Namespace p) (if_NetattachName ifc) pods nss peer \<noteq> {}"
    using peer_nets_meant [OF assms(1) peer(1,2) conjunct1 [OF sel] has] peer(3) by simp
qed

text \<open>The verdict of the rules of supported policies about an interface enforces them.\<close>

lemma rendered_enforces:
  assumes "selectors_mean api crd"
    and "\<And>p. p \<in> set ps \<Longrightarrow> supported api crd target ifc pods nss p \<and> about_interface crd target ifc p"
  shows "enforces crd (if_NetattachName ifc) pods nss ps
    (policy_verdict (concat (map (policy_rules api pods nss ifc) ps)))"
proof -
  let ?net = "if_NetattachName ifc"
  have rule: "supported_rule api crd (PolicyInfo_Namespace p) ?net pods nss r"
    if "p \<in> set ps" "r \<in> set (pol_Egress (pli_Policy p))" for p r
    using supported_rules assms(2) that by blast
  have excepted: "excepted crd ps pk \<longleftrightarrow> (\<exists>p\<in>set ps. \<exists>r\<in>set (pol_Egress (pli_Policy p)). rule_excepts pk r)" for pk
    unfolding excepted_def list_ex_iff using rule_iff(3) [OF assms(1) rule] by (simp add: list_ex_iff)
  have allowed: "policies_allow crd ?net pods nss ps pk \<Longrightarrow>
      \<exists>p\<in>set ps. \<exists>r\<in>set (pol_Egress (pli_Policy p)). rule_allows api p ?net pods nss pk r" for pk
    unfolding policies_allow_def list_ex_iff
    using rule_iff(1) [OF assms(1) rule] by (metis PolicyInfo_Namespace_def)
  have allows: "\<exists>p\<in>set ps. \<exists>r\<in>set (pol_Egress (pli_Policy p)). rule_allows api p ?net pods nss pk r \<Longrightarrow>
      \<not> excepted crd ps pk \<Longrightarrow> policies_allow crd ?net pods nss ps pk" for pk
    unfolding policies_allow_def list_ex_iff excepted
    using rule_iff(2) [OF assms(1) rule] by (metis PolicyInfo_Namespace_def)
  have "\<forall>p\<in>set ps. well_shaped api ?net pods nss p" using supported_shaped [OF assms(1)] assms(2) by blast
  from rendered_verdict [OF mean_contract [OF assms(1)] this]
  have "policy_verdict (concat (map (policy_rules api pods nss ifc) ps)) pk =
      (if pk_EthType pk \<notin> {''ip'', ''ipv6''} then Unmatched
       else if excepted crd ps pk then Decided ''drop''
       else if policies_allow crd ?net pods nss ps pk then Decided ''pass'' else Decided ''drop'')" for pk
    using allowed [of pk] allows [of pk]
    by (auto simp: rendered_reading_def is_ip_packet_def excepted go_consts)
  then show ?thesis by (auto simp: enforces_def crd_verdict_def)
qed


section \<open>Input that is not supported\<close>

text \<open>
  C38. A peer with selectors that convert and choose no address of the network, in a rule with a
  usable port, opens that port to every destination: the rendered rule has ports and no
  addresses, which the generator reads as all addresses. The API says that the peer allows nothing.
\<close>

theorem empty_selection_opens_port:
  assumes "selectors_mean api crd" and "peer_IPBlock peer = None" and "has_selector peer"
    and "convertible api (peer_PodSelector peer)" and "convertible api (peer_NamespaceSelector peer)"
    and "meant_addresses crd (PolicyInfo_Namespace p) net pods nss peer = []"
    and "is_ip_packet pk" and "port \<in> set (getPorts ports)" and "port_applies port pk"
  shows "some_rule PolicyActionPass (peer_rules api p net pods nss (getPorts ports) peer) pk \<and>
    \<not> to_peer crd (PolicyInfo_Namespace p) net pods nss pk peer"
proof -
  obtain m where m: "LabelSelectorAsMap api (peer_PodSelector peer) = Inr m"
    using assms(4) by (cases "LabelSelectorAsMap api (peer_PodSelector peer)") (simp_all add: convertible_def)
  obtain m' where m': "LabelSelectorAsMap api (peer_NamespaceSelector peer) = Inr m'"
    using assms(5) by (cases "LabelSelectorAsMap api (peer_NamespaceSelector peer)") (simp_all add: convertible_def)
  obtain qs where qs: "matching_pods api (peer_PodSelector peer) pods = Inr qs"
    using m by (simp add: matching_pods_def Let_def)
  obtain rs where rs: "matching_pods_and_ns api (peer_NamespaceSelector peer) (PolicyInfo_Namespace p) nss qs = Inr rs"
    using m' by (cases "peer_NamespaceSelector peer") (simp_all add: matching_pods_and_ns_def Let_def)
  have some: "peer_PodSelector peer \<noteq> None \<or> peer_NamespaceSelector peer \<noteq> None"
    using assms(3) by (simp add: has_selector_def)
  have "peer_nets api (PolicyInfo_Namespace p) net pods nss peer = {}"
    using peer_nets_meant [OF assms(1,4,5,2,3)] assms(6) by simp
  then have "\<Union> (pod_nets net ` set rs) = {}"
    using selected_pods [OF mean_contract [OF assms(1)] some, where pods = pods and ns = "PolicyInfo_Namespace p" and nss = nss] assms(2) some qs rs
    by (auto simp: peer_nets_def split: if_splits)
  then have "pod_cidrs net rs = []" using set_pod_cidrs [of net rs] by (metis set_empty)
  moreover have "getPorts ports \<noteq> []" using assms(8) by auto
  ultimately have "peer_rules api p net pods nss (getPorts ports) peer =
      [\<lparr>rule_IPCidrs = [], rule_Ports = getPorts ports, rule_Action = PolicyActionPass\<rparr>]"
    using assms(2) some qs rs by (auto simp: peer_rules_def renderRulesWithSelectors_def Let_def)
  then show ?thesis
    using assms(2,6-9) by (auto simp: rule_applies_def list_ex_iff to_peer_def)
qed

text \<open>
  A rule whose ports are all unusable (an unsupported protocol such as SCTP, a named port or
  a number out of range) is rendered without ports, that is for all ports: with no peers it lets
  every IP packet pass, and with an IP block every packet to that block.
\<close>

theorem unusable_ports_open_all:
  assumes "eg_Ports r \<noteq> []"
    and "\<forall>p\<in>set (eg_Ports r). mp_Protocol p \<notin> {None, Some ''TCP'', Some ''UDP''} \<or>
      (\<exists>e. ParseUint (IntOrString_String (mp_Port p)) 0 16 = Inl e)"
    and "is_ip_packet pk"
    and "eg_To r = [] \<or> (\<exists>peer\<in>set (eg_To r). \<exists>b n. peer_IPBlock peer = Some b \<and>
      ParseCIDR (blk_CIDR b) = Inr n \<and> net_applies n pk)"
  shows "some_rule PolicyActionPass (egress_rules api p net pods nss r) pk \<and> \<not> ports_allow (eg_Ports r) pk"
proof -
  have none: "getPorts (eg_Ports r) = []"
    using assms(2) by (auto simp: getPorts_def split: sum.splits option.splits)
  have "some_rule PolicyActionPass (egress_rules api p net pods nss r) pk"
  proof (cases "eg_To r = []")
    case True
    with assms(3) show ?thesis
      by (simp add: egress_rules_def none rule_applies_iff ports_match_def)
  next
    case False
    then obtain peer b n where peer: "peer \<in> set (eg_To r)" "peer_IPBlock peer = Some b"
        "ParseCIDR (blk_CIDR b) = Inr n" "net_applies n pk"
      using assms(4) by blast
    then have "some_rule PolicyActionPass (peer_rules api p net pods nss [] peer) pk"
      using assms(3)
      by (auto simp: peer_rules_def renderRulesWithIPBlock_def rule_applies_iff ports_match_def in_nets_def
          Let_def)
    with False peer(1) show ?thesis by (auto simp: egress_rules_def none Let_def)
  qed
  moreover have "\<not> ports_allow (eg_Ports r) pk"
    using assms(1) getPorts_applies [of pk "eg_Ports r"] none by (simp add: ports_allow_def)
  ultimately show ?thesis by blast
qed

text \<open>A policy that is for ingress only and has no egress rule stops all IP traffic out of its pods.\<close>

lemma ingress_policy_drops:
  assumes "\<not> affects_egress (pli_Policy p)" and "pol_Egress (pli_Policy p) = []" and "is_ip_packet pk"
  shows "policy_verdict (policy_rules api pods nss ifc p) pk = Decided ActionGenericDrop \<and>
    isolating crd target ifc [p] = []"
  using assms by (simp add: policy_rules_def policy_verdict_def isolating_def)

section \<open>Examples\<close>

text \<open>A selector library over selectors that are lists of required pairs.\<close>

definition ex_api :: "((string \<times> string) list, labels) Selectors" where
  "ex_api =
     \<lparr>LabelSelectorAsMap = (\<lambda>s. Inr (map_option Mapping.of_alist s)), LabelSelectorSize = length,
      AsSelector = (\<lambda>m. m),
      Matches = (\<lambda>m l. case m of None \<Rightarrow> True
        | Some q \<Rightarrow> \<forall>k\<in>Mapping.keys q. label_map l k = Mapping.lookup q k),
      Empty = (\<lambda>m. case m of None \<Rightarrow> True | Some q \<Rightarrow> Mapping.is_empty q)\<rparr>"

lemma ex_api_contract: "selectors_contract ex_api"
proof -
  have "Mapping.is_empty q \<longleftrightarrow> Mapping.lookup q = Map.empty" for q :: "(string, string) mapping"
    by (simp add: Mapping.is_empty_def keys_dom_lookup)
  moreover have "(\<forall>k\<in>Mapping.keys q. label_map l k = Mapping.lookup q k) \<longleftrightarrow> Mapping.lookup q \<subseteq>\<^sub>m label_map l"
    for q :: "(string, string) mapping" and l
    unfolding keys_dom_lookup map_le_def by metis
  moreover have "Mapping.lookup (Mapping.of_alist []) = (Map.empty :: string \<rightharpoonup> string)"
    by (transfer, simp)
  ultimately show ?thesis
    by (auto simp: selectors_contract_def ex_api_def label_map_def split: option.splits)
qed

text \<open>The meaning of these selectors; there are no named ports.\<close>

definition ex_meaning :: "(string \<times> string) list Meaning" where
  "ex_meaning = \<lparr>selects = \<lambda>s l. list_all (\<lambda>(k, _). label_map l k = map_of s k) s, to_named_port = \<lambda>_ _. False\<rparr>"

lemma ex_api_means: "selectors_mean ex_api ex_meaning"
proof -
  have "(\<forall>x\<in>set s. case x of (k, _) \<Rightarrow> label_map l k = map_of s k) \<longleftrightarrow> map_of s \<subseteq>\<^sub>m label_map l" for s l
    by (force simp: map_le_def dom_map_of_conv_image_fst)
  moreover have "label_map (Some (Mapping.of_alist s)) = map_of s" for s
    by (simp add: label_map_def) (transfer, simp)
  ultimately show ?thesis
    using ex_api_contract by (simp add: selectors_mean_def ex_meaning_def ex_api_def list_all_iff)
qed

definition ex_target :: PodInfo where
  "ex_target = \<lparr>pi_UID = ''u1'', pi_Name = ''p1'', pi_Labels = Some (Mapping.update ''app'' ''db'' Mapping.empty),
     pi_Namespace = ''blue'', pi_NetworkStatus = None, pi_NodeName = ''node1'',
     pi_Interfaces = Some [ex_ifc_info]\<rparr>"

definition ex_block :: IPBlock where
  "ex_block = \<lparr>blk_CIDR = ''10.0.0.0/24'', blk_Except = [''10.0.0.128/25'']\<rparr>"

definition ex_block_peer :: "(string \<times> string) list PolicyPeer" where
  "ex_block_peer = \<lparr>peer_PodSelector = None, peer_NamespaceSelector = None, peer_IPBlock = Some ex_block\<rparr>"

definition ex_db_peer :: "(string \<times> string) list PolicyPeer" where
  "ex_db_peer = \<lparr>peer_PodSelector = Some [(''app'', ''none'')], peer_NamespaceSelector = None, peer_IPBlock = None\<rparr>"

definition ex_policy_port :: "string option \<Rightarrow> PolicyPort" where
  "ex_policy_port proto = \<lparr>mp_Protocol = proto, mp_Port = Some (FromInt 80)\<rparr>"

definition ex_egress :: "string option \<Rightarrow> (string \<times> string) list PolicyPeer list \<Rightarrow> (string \<times> string) list EgressRule" where
  "ex_egress proto peers = \<lparr>eg_Ports = [ex_policy_port proto], eg_To = peers\<rparr>"

definition ex_egress_policy :: "(string \<times> string) list PolicyInfo" where
  "ex_egress_policy = newPolicyInfo
     \<lparr>pol_Namespace = ''blue'', pol_Name = ''p'',
      pol_Annotations = Some (Mapping.update PolicyNetworkAnnotation ''net1'' Mapping.empty),
      pol_PolicyTypes = [''Egress''], pol_PodSelector = [(''app'', ''db'')],
      pol_Egress = [ex_egress None [ex_block_peer]], pol_Other = 0\<rparr>"

definition ex_tcp_packet :: "u8 \<Rightarrow> Packet" where
  "ex_tcp_packet h = \<lparr>pk_Tagged = False, pk_EthType = FlowerVlanEthTypeIPv4, pk_DstIP = [10, 0, 0, h],
     pk_IPProto = FlowerIPProtoTCP, pk_DstPort = 80\<rparr>"

lemma ex_policy_enforced: "enforced ex_api ex_target ex_ifc_info ex_egress_policy"
  unfolding enforced_def by code_simp

lemma ex_supported: "supported ex_api ex_meaning target ifc pods nss ex_egress_policy"
  by (simp add: supported_def convertible_def ex_api_def affects_egress_def ex_egress_policy_def newPolicyInfo_def
      ex_egress_def ex_policy_port_def usable_port_def supported_peer_def ex_block_peer_def)

lemma ex_about: "about_interface ex_meaning ex_target ex_ifc_info ex_egress_policy"
  unfolding about_interface_def by code_simp

lemma ex_isolating: "isolating ex_meaning ex_target ex_ifc_info [ex_egress_policy] = [ex_egress_policy]"
  using ex_about ex_supported [of ex_target ex_ifc_info "[]" "[]"] by (simp add: isolating_def supported_def)

text \<open>One packet to the block and one to its exception.\<close>

lemma ex_crd_verdict:
  "crd_verdict ex_meaning net pods nss [ex_egress_policy] (ex_tcp_packet 7) = Decided ActionGenericPass"
  "crd_verdict ex_meaning net pods nss [ex_egress_policy] (ex_tcp_packet 200) = Decided ActionGenericDrop"
  "excepted ex_meaning [ex_egress_policy] (ex_tcp_packet 7) = False"
proof -
  have to: "to_cidr (ex_tcp_packet 7) ''10.0.0.0/24''" "\<not> to_cidr (ex_tcp_packet 7) ''10.0.0.128/25''"
    "to_cidr (ex_tcp_packet 200) ''10.0.0.128/25''" by code_simp+
  have eth: "pk_EthType (ex_tcp_packet h) = ''ip''" for h by (simp add: ex_tcp_packet_def go_consts)
  show "crd_verdict ex_meaning net pods nss [ex_egress_policy] (ex_tcp_packet 7) = Decided ActionGenericPass"
    "crd_verdict ex_meaning net pods nss [ex_egress_policy] (ex_tcp_packet 200) = Decided ActionGenericDrop"
    "excepted ex_meaning [ex_egress_policy] (ex_tcp_packet 7) = False"
    using to eth
    by (simp_all add: crd_verdict_def policies_allow_def rule_means_def to_peer_def excepted_def block_excepts_def
        ex_egress_policy_def newPolicyInfo_def ex_egress_def ex_block_peer_def ex_block_def to_ports_def to_port_def
        ex_policy_port_def protocol_name_def ex_tcp_packet_def go_consts)
qed

lemma ex_rules_verdict:
  "policy_verdict (policy_rules ex_api [] [] ex_ifc_info ex_egress_policy) (ex_tcp_packet 7) =
     Decided ActionGenericPass"
  by code_simp

theorem policy_applies_for_pod_witness:
  "PolicyAppliesForPod ex_api ex_target (pli_Policy ex_egress_policy) = Inr True \<longleftrightarrow>
     pol_Namespace (pli_Policy ex_egress_policy) = pi_Namespace ex_target \<and>
     sel_matches ex_api (pol_PodSelector (pli_Policy ex_egress_policy)) (pi_Labels ex_target)"
  using policy_applies_for_pod [OF ex_api_contract] by blast

theorem render_egress_per_interface_witness:
  "set (fst (RenderEgress ex_api ex_target [(NamespacedName ''blue'' ''p'', ex_egress_policy)] [] [])) =
     {rule_set_for ex_api ex_target [ex_egress_policy] [] [] ex_ifc_info}"
proof -
  have "distinct (map ifc_uid (elems (pi_Interfaces ex_target)))"
    by (simp add: ex_target_def)
  from render_egress_per_interface [OF this prod.collapse [symmetric],
      of ex_api "[(NamespacedName ''blue'' ''p'', ex_egress_policy)]" "[]" "[]"]
  show ?thesis by (simp add: ex_target_def)
qed


theorem empty_selection_opens_port_witness:
  "some_rule PolicyActionPass (peer_rules ex_api ex_egress_policy ''blue/net1'' [] []
     (getPorts [ex_policy_port None]) ex_db_peer) (ex_tcp_packet 9) \<and>
   \<not> to_peer ex_meaning (PolicyInfo_Namespace ex_egress_policy) ''blue/net1'' [] [] (ex_tcp_packet 9) ex_db_peer"
proof (rule empty_selection_opens_port [OF ex_api_means])
  show "convertible ex_api (peer_PodSelector ex_db_peer)" "convertible ex_api (peer_NamespaceSelector ex_db_peer)"
    by (simp_all add: ex_api_def convertible_def)
  show "meant_addresses ex_meaning (PolicyInfo_Namespace ex_egress_policy) ''blue/net1'' [] [] ex_db_peer = []"
    by (simp add: meant_addresses_def)
  show "is_ip_packet (ex_tcp_packet 9)" by code_simp
  show "\<lparr>port_Protocol = ProtocolTCP, port_Number = 80\<rparr> \<in> set (getPorts [ex_policy_port None])" by code_simp
  show "port_applies \<lparr>port_Protocol = ProtocolTCP, port_Number = 80\<rparr> (ex_tcp_packet 9)" by code_simp
qed (simp_all add: ex_db_peer_def has_selector_def)

theorem unusable_ports_open_all_witness:
  "some_rule PolicyActionPass (egress_rules ex_api ex_egress_policy ''blue/net1'' [] []
     (ex_egress (Some ''SCTP'') [])) (ex_tcp_packet 9) \<and>
   \<not> ports_allow (eg_Ports (ex_egress (Some ''SCTP'') [])) (ex_tcp_packet 9)"
proof (rule unusable_ports_open_all)
  show "is_ip_packet (ex_tcp_packet 9)" by code_simp
qed (simp_all add: ex_egress_def ex_policy_port_def)

end
