(* ===== verification/Netlink_Contract.thy ===== *)
theory Netlink_Contract
  imports Tc_Netlink
begin

text \<open>
  The netlink driver under the actuator. The contract of the netlink library, as its
  documentation and the kernel's describe it, and the proof that the driver built on it keeps the
  contract of the interface \<open>TC\<close> that the properties of \<open>Actuate\<close> assume, for all filters the
  structures can express, which the generated ones are.
\<close>

section \<open>The contract of the library\<close>

definition eth_protocols :: "u16 set" where
  "eth_protocols = {ETH_P_IP, ETH_P_IPV6, ETH_P_8021Q, ETH_P_ALL}"

definition nl_id :: "NlFlower \<Rightarrow> u32 \<times> u32 \<times> u16 \<times> u16" where
  "nl_id x = (fl_Handle x, case fl_Chain x of None \<Rightarrow> 0 | Some c \<Rightarrow> c, fl_Priority x, fl_Protocol x)"

definition on_link :: "Link \<Rightarrow> NlFlower \<Rightarrow> bool" where
  "on_link lnk k \<longleftrightarrow> fl_LinkIndex k = link_Index lnk \<and> fl_Parent k = HANDLE_INGRESS"

definition addable :: "NlFlower \<Rightarrow> bool" where
  "addable k \<longleftrightarrow> fl_Handle k = 0 \<and> fl_Priority k \<noteq> 0 \<and> fl_Protocol k \<in> eth_protocols"

lemma eth_roundtrip: "p \<in> eth_protocols \<Longrightarrow> filterProtoToUnixProto (unixProtoToFilterProto p) = p"
  by (auto simp: eth_protocols_def unixProtoToFilterProto_def filterProtoToUnixProto_def)

lemma attrs_id:
  assumes "fl_Chain x \<noteq> None" "fl_Chain y \<noteq> None" "fl_Protocol x \<in> eth_protocols" "fl_Protocol y \<in> eth_protocols"
  shows "ff_Attrs (nlFlowerFilterToFlowerFilter x) = ff_Attrs (nlFlowerFilterToFlowerFilter y) \<longleftrightarrow> nl_id x = nl_id y"
proof -
  have "unixProtoToFilterProto (fl_Protocol x) = unixProtoToFilterProto (fl_Protocol y) \<longleftrightarrow> fl_Protocol x = fl_Protocol y"
    using eth_roundtrip assms(3,4) by metis
  moreover obtain c d where "fl_Chain x = Some c" "fl_Chain y = Some d" using assms(1,2) by blast
  ultimately show ?thesis by (auto simp: read_back nl_id_def)
qed

text \<open>The structure the driver sends to delete a listed filter names that filter.\<close>

lemma sent_to_delete:
  assumes "fl_Protocol y \<in> eth_protocols"
  shows "nl_id (flowerFilterToNlFlowerFilter
      \<lparr>ff_Attrs = ff_Attrs (nlFlowerFilterToFlowerFilter y), ff_Flower = None, ff_Actions = []\<rparr> parent idx) = nl_id y"
    and "fl_Handle (flowerFilterToNlFlowerFilter
      \<lparr>ff_Attrs = ff_Attrs (nlFlowerFilterToFlowerFilter y), ff_Flower = None, ff_Actions = []\<rparr> parent idx) = fl_Handle y"
  using eth_roundtrip [OF assms]
  by (simp_all add: flowerFilterToNlFlowerFilter_def Let_def read_back nl_id_def u32ValFromPtr_def u16ValFromPtr_def)

lemma sent_on_link: "on_link lnk (flowerFilterToNlFlowerFilter f HANDLE_INGRESS (link_Index lnk))"
  by (simp add: on_link_def flowerFilterToNlFlowerFilter_def Let_def split: option.split)

lemma sent_addable:
  assumes "nl_expressible f"
  shows "addable (flowerFilterToNlFlowerFilter f parent idx)"
proof -
  obtain s p where "ff_Flower f = Some s" and "fa_Priority (ff_Attrs f) = Some p" "p \<noteq> 0"
    and "fa_Handle (ff_Attrs f) = None"
    using assms by (auto simp: nl_expressible_def)
  moreover have "filterProtoToUnixProto (fa_Protocol (ff_Attrs f)) \<in> eth_protocols"
    using assms unfolding nl_expressible_def by (auto simp: eth_protocols_def filterProtoToUnixProto_def)
  ultimately show ?thesis
    by (simp add: addable_def flowerFilterToNlFlowerFilter_def Let_def u32ValFromPtr_def u16ValFromPtr_def
        split: option.split)
qed

section \<open>The driver keeps the contract of the interface\<close>

text \<open>
  \<open>K w\<close> are the flower filters on the ingress qdisc of the link. The kernel gives every filter a
  handle and reports its chain; the protocols are those the program installs. Listing reports
  them all; deleting by handle removes the filter with that identity; adding without a handle
  and with a priority installs the filter under an identity not in use; the chains of all filters
  are listed, and deleting a chain removes its filters. A call that fails changes nothing.
\<close>

locale nl_contract =
  fixes nl :: "'w NetlinkProvider" and lnk :: Link and K :: "'w \<Rightarrow> NlFlower set"
  assumes listed: "x \<in> K w \<Longrightarrow> fl_Handle x \<noteq> 0 \<and> fl_Chain x \<noteq> None \<and> fl_Protocol x \<in> eth_protocols"
    and lib_qdisc_list: "nl_QdiscList nl lnk w = (l, w') \<Longrightarrow> K w' = K w"
    and lib_qdisc_add: "nl_QdiscAdd nl d w = (r, w') \<Longrightarrow> K w' = K w"
    and lib_list: "nl_FilterList nl lnk HANDLE_INGRESS w = (fs, w') \<Longrightarrow>
      K w' = K w \<and> (\<forall>xs. fs = Inr xs \<longrightarrow> {x. IsFlower x \<in> set xs} = K w)"
    and lib_del: "nl_FilterDel nl k w = (r, w') \<Longrightarrow> on_link lnk k \<Longrightarrow> fl_Handle k \<noteq> 0 \<Longrightarrow>
      K w' = (if r = None then {x \<in> K w. nl_id x \<noteq> nl_id k} else K w)"
    and lib_add: "nl_FilterAdd nl k w = (r, w') \<Longrightarrow> on_link lnk k \<Longrightarrow> addable k \<Longrightarrow>
      (if r = None then \<exists>x. nl_same x k \<and> nl_id x \<notin> nl_id ` K w \<and> K w' = insert x (K w) else K w' = K w)"
    and lib_chain_list: "nl_ChainList nl lnk HANDLE_INGRESS w = (cs, w') \<Longrightarrow>
      K w' = K w \<and> (\<forall>xs. cs = Inr xs \<longrightarrow> fl_Chain ` K w \<subseteq> Some ` nc_Chain ` set xs)"
    and lib_chain_del: "nl_ChainDel nl lnk \<lparr>nc_Parent = HANDLE_INGRESS, nc_Chain = n\<rparr> w = (r, w') \<Longrightarrow>
      K w' = (if r = None then {x \<in> K w. fl_Chain x \<noteq> Some n} else K w)"

begin

lemma driver_del:
  assumes "Nl_FilterDel lnk nl q a w = (r, w')"
    and "listable (\<lambda>w. nlFlowerFilterToFlowerFilter ` K w) a"
  shows "nlFlowerFilterToFlowerFilter ` K w' =
    (if r = None then {f \<in> nlFlowerFilterToFlowerFilter ` K w. ff_Attrs f \<noteq> a}
     else nlFlowerFilterToFlowerFilter ` K w)"
proof (cases "qd_Type q = QDiscIngressType")
  case True
  obtain v y where y: "y \<in> K v" and a: "a = ff_Attrs (nlFlowerFilterToFlowerFilter y)"
    using assms(2) by (auto simp: listable_def)
  let ?k = "flowerFilterToNlFlowerFilter \<lparr>ff_Attrs = a, ff_Flower = None, ff_Actions = []\<rparr> HANDLE_INGRESS (link_Index lnk)"
  note ly = listed [OF y]
  have kind: "fa_Kind a = FilterKindFlower" by (simp add: a read_back)
  have k: "nl_id ?k = nl_id y" "fl_Handle ?k \<noteq> 0" using sent_to_delete ly by (simp_all add: a)
  have "nl_FilterDel nl ?k w = (r, w')" using assms(1) True kind by (simp add: Nl_FilterDel_def)
  note del = lib_del [OF this sent_on_link k(2)]
  have "ff_Attrs (nlFlowerFilterToFlowerFilter x) = a \<longleftrightarrow> nl_id x = nl_id ?k" if "x \<in> K w" for x
    using attrs_id [of x y] listed [OF that] ly unfolding k(1) unfolding a by simp
  then show ?thesis unfolding del by auto
next
  case False
  then show ?thesis using assms(1) by (simp add: Nl_FilterDel_def split: if_splits) auto
qed

lemma driver_add:
  assumes "Nl_FilterAdd lnk nl q f w = (r, w')" and "nl_expressible f"
  shows "if r = None
    then \<exists>g. norm_filter g = norm_filter f \<and> ff_Attrs g \<notin> ff_Attrs ` nlFlowerFilterToFlowerFilter ` K w \<and>
      nlFlowerFilterToFlowerFilter ` K w' = insert g (nlFlowerFilterToFlowerFilter ` K w)
    else nlFlowerFilterToFlowerFilter ` K w' = nlFlowerFilterToFlowerFilter ` K w"
proof (cases "qd_Type q = QDiscIngressType")
  case True
  let ?k = "flowerFilterToNlFlowerFilter f HANDLE_INGRESS (link_Index lnk)"
  have "fa_Kind (ff_Attrs f) = FilterKindFlower" using assms(2) by (simp add: nl_expressible_def)
  then have "nl_FilterAdd nl ?k w = (r, w')" using assms(1) True by (simp add: Nl_FilterAdd_def)
  note add = lib_add [OF this sent_on_link sent_addable [OF assms(2)]]
  show ?thesis
  proof (cases r)
    case None
    then obtain x where x: "nl_same x ?k" "nl_id x \<notin> nl_id ` K w" "K w' = insert x (K w)"
      using add by auto
    have "x \<in> K w'" using x(3) by simp
    then have "ff_Attrs (nlFlowerFilterToFlowerFilter x) \<notin> ff_Attrs ` nlFlowerFilterToFlowerFilter ` K w"
      using x(2) attrs_id [of x] listed by (fastforce simp: image_iff)
    moreover have "norm_filter (nlFlowerFilterToFlowerFilter x) = norm_filter f"
      using nl_same_norm [OF x(1)] roundtrip [OF assms(2)] by simp
    ultimately show ?thesis using None x(3) by auto
  next
    case (Some e)
    with add show ?thesis by simp
  qed
next
  case False
  then show ?thesis using assms(1,2) by (auto simp: Nl_FilterAdd_def nl_expressible_def)
qed

lemma driver_list:
  assumes "Nl_FilterList lnk nl q w = (r, w')"
  shows "K w' = K w \<and> (\<forall>fs. r = Inr fs \<longrightarrow> set fs = nlFlowerFilterToFlowerFilter ` K w)"
proof (cases "qd_Type q = QDiscIngressType")
  case True
  obtain l v where l: "nl_FilterList nl lnk HANDLE_INGRESS w = (l, v)" by fastforce
  have flowers: "set (concat (map (\<lambda>nlFilter. if NlFilter_Type nlFilter \<noteq> ''flower'' then []
      else case nlFilter of OtherFilter _ \<Rightarrow> [] | IsFlower x \<Rightarrow> [nlFlowerFilterToFlowerFilter x]) fs)) =
    nlFlowerFilterToFlowerFilter ` {x. IsFlower x \<in> set fs}" for fs
    by (induction fs) (auto simp: NlFilter_Type_def split: NlFilter.splits)
  show ?thesis
    using assms(1) True l lib_list [OF l] flowers by (cases l) (auto simp: Nl_FilterList_def)
next
  case False
  then show ?thesis using assms(1) by (auto simp: Nl_FilterList_def)
qed

text \<open>The chain of a filter that is read back.\<close>

lemma chain_no_read: "fl_Chain x = Some c \<Longrightarrow> chain_no (nlFlowerFilterToFlowerFilter x) = c"
  by (simp add: chain_no_def read_back)

lemma driver_chain_list:
  assumes "Nl_ChainList lnk nl q w = (cs, w')"
  shows "K w' = K w \<and> (\<forall>xs. cs = Inr xs \<longrightarrow> (\<forall>c\<in>set xs. ch_Chain c \<noteq> None) \<and>
    Some ` chain_no ` nlFlowerFilterToFlowerFilter ` K w \<subseteq> ch_Chain ` set xs)"
proof (cases "qd_Type q = QDiscIngressType")
  case True
  obtain l v where l: "nl_ChainList nl lnk HANDLE_INGRESS w = (l, v)" by fastforce
  have read: "ch_Chain (nlChainToChain c) = Some (nc_Chain c)" for c
    by (simp add: nlChainToChain_def builder_simps)
  have "Some (chain_no (nlFlowerFilterToFlowerFilter x)) = fl_Chain x" if "x \<in> K w" for x
    using listed [OF that] chain_no_read by fastforce
  then have chains: "Some ` chain_no ` nlFlowerFilterToFlowerFilter ` K w = fl_Chain ` K w"
    by (auto simp: image_iff)
  show ?thesis
    using assms True l lib_chain_list [OF l] unfolding chains
    by (cases l) (auto simp: Nl_ChainList_def read image_image)
next
  case False
  then show ?thesis using assms by (auto simp: Nl_ChainList_def)
qed

lemma driver_chain_del:
  assumes "Nl_ChainDel lnk nl q \<lparr>ch_Parent = None, ch_Chain = Some n\<rparr> w = (r, w')"
  shows "nlFlowerFilterToFlowerFilter ` K w' =
    (if r = None then {f \<in> nlFlowerFilterToFlowerFilter ` K w. chain_no f \<noteq> n}
     else nlFlowerFilterToFlowerFilter ` K w)"
proof (cases "qd_Type q = QDiscIngressType")
  case True
  then have "nl_ChainDel nl lnk \<lparr>nc_Parent = HANDLE_INGRESS, nc_Chain = n\<rparr> w = (r, w')"
    using assms by (simp add: Nl_ChainDel_def chainToNlChain_def u32ValFromPtr_def)
  note del = lib_chain_del [OF this]
  have "chain_no (nlFlowerFilterToFlowerFilter x) = n \<longleftrightarrow> fl_Chain x = Some n" if "x \<in> K w" for x
    using listed [OF that] chain_no_read by fastforce
  then show ?thesis unfolding del by auto
next
  case False
  then show ?thesis using assms by (auto simp: Nl_ChainDel_def split: if_splits)
qed

lemma read_keys: "inj_on nl_id (K w) \<Longrightarrow> inj_on ff_Attrs (nlFlowerFilterToFlowerFilter ` K w)"
  using attrs_id listed by (auto simp: inj_on_def)

lemma driver_contract:
  "tc_contract (NewTcNetlinkImpl lnk nl) q (\<lambda>w. nlFlowerFilterToFlowerFilter ` K w) nl_expressible"
proof
  fix l r fs cs n and w w' :: 'w and a f
  let ?inst = "\<lambda>w. nlFlowerFilterToFlowerFilter ` K w"
  show "?inst w' = ?inst w" if "tc_QDiscList (NewTcNetlinkImpl lnk nl) w = (l, w')"
  proof -
    obtain m v where m: "nl_QdiscList nl lnk w = (m, v)" by fastforce
    then show ?thesis using that lib_qdisc_list [OF m] by (cases m) (auto simp: NewTcNetlinkImpl_def Nl_QDiscList_def)
  qed
  show "?inst w' = ?inst w" if "tc_QDiscAdd (NewTcNetlinkImpl lnk nl) q w = (r, w')"
    using that lib_qdisc_add
    by (cases "qd_Type q = QDiscIngressType") (auto simp: NewTcNetlinkImpl_def Nl_QDiscAdd_def)
  show "?inst w' = ?inst w \<and> (\<forall>xs. fs = Inr xs \<longrightarrow> set xs = ?inst w)"
    if "tc_FilterList (NewTcNetlinkImpl lnk nl) q w = (fs, w')"
    using that driver_list by (simp add: NewTcNetlinkImpl_def)
  show "?inst w' = (if r = None then {f \<in> ?inst w. ff_Attrs f \<noteq> a} else ?inst w)"
    if "tc_FilterDel (NewTcNetlinkImpl lnk nl) q a w = (r, w')" and "listable ?inst a"
    using that driver_del by (simp add: NewTcNetlinkImpl_def)
  show "if r = None
      then \<exists>g. norm_filter g = norm_filter f \<and> ff_Attrs g \<notin> ff_Attrs ` ?inst w \<and> ?inst w' = insert g (?inst w)
      else ?inst w' = ?inst w"
    if "tc_FilterAdd (NewTcNetlinkImpl lnk nl) q f w = (r, w')" and "nl_expressible f"
    by (rule driver_add) (use that in \<open>simp_all add: NewTcNetlinkImpl_def\<close>)
  show "?inst w' = ?inst w \<and> (\<forall>xs. cs = Inr xs \<longrightarrow> (\<forall>c\<in>set xs. ch_Chain c \<noteq> None) \<and>
      Some ` chain_no ` ?inst w \<subseteq> ch_Chain ` set xs)"
    if "tc_ChainList (NewTcNetlinkImpl lnk nl) q w = (cs, w')"
    using that driver_chain_list by (simp add: NewTcNetlinkImpl_def)
  show "?inst w' = (if r = None then {f \<in> ?inst w. chain_no f \<noteq> n} else ?inst w)"
    if "tc_ChainDel (NewTcNetlinkImpl lnk nl) q \<lparr>ch_Parent = None, ch_Chain = Some n\<rparr> w = (r, w')"
    by (rule driver_chain_del) (use that in \<open>simp add: NewTcNetlinkImpl_def\<close>)
qed

end

text \<open>The contract of the library gives the contract of the interface, for every qdisc.\<close>

sublocale nl_contract \<subseteq> driver: tc_contract "NewTcNetlinkImpl lnk nl" q
    "\<lambda>w. nlFlowerFilterToFlowerFilter ` K w" nl_expressible for q
  by (rule driver_contract)

section \<open>Generated filters\<close>

definition nl_port :: "Port \<Rightarrow> bool" where
  "nl_port p \<longleftrightarrow> port_Protocol p \<in> {ProtocolTCP, ProtocolUDP} \<and> port_Number p \<noteq> 0"

lemma shape_expressible:
  assumes "(p, v) \<in> families n" and "b \<in> {BasePrioDefault, BasePrioPass, BasePrioDrop}"
    and "a \<in> {drop_action, pass_action}"
    and "\<forall>m. n = Some m \<longrightarrow> net_IP m \<noteq> []" and "\<forall>x. q = Some x \<longrightarrow> nl_port x"
  shows "nl_expressible (gen_shape p v n q b a)"
proof -
  have family: "(p = FilterProtocolIPv4 \<or> p = FilterProtocolIPv6) \<and> v = None \<or>
      p = FilterProtocol8021Q \<and> v \<in> {Some FlowerVlanEthTypeIPv4, Some FlowerVlanEthTypeIPv6}"
  proof (cases n)
    case None
    then show ?thesis using assms(1) by (auto simp: families_def any_family_def)
  next
    case (Some m)
    then show ?thesis using assms(1)
      by (cases "IsIPv4 (net_IP m)")
        (auto simp: families_def family_of_def proto_of_IP_def ProtoToFlowerVlanEthType_def)
  qed
  then have prio: "PrioFromBaseAndProtcol b p \<noteq> 0"
    using assms(2) by (auto simp: BasePrioDefault_def BasePrioPass_def BasePrioDrop_def)
  have "map_option (\<lambda>x. PortProtocolToFlowerIPProto (port_Protocol x)) q \<in>
      {None, Some FlowerIPProtoTCP, Some FlowerIPProtoUDP}" and "map_option port_Number q \<noteq> Some 0"
    using assms(5) by (cases q; auto simp: nl_port_def PortProtocolToFlowerIPProto_def)+
  then show ?thesis
    using family prio assms(3,4)
    unfolding nl_expressible_def gen_shape_def
    by (auto simp: drop_action_def pass_action_def)
qed

lemma generated_expressible:
  assumes "GenerateFromPolicyRuleSet rs = Inr objs"
    and "\<forall>r\<in>set (elems (rs_Rules rs)). (\<forall>p\<in>set (rule_Ports r). nl_port p) \<and> (\<forall>n\<in>set (rule_IPCidrs r). net_IP n \<noteq> [])"
  shows "\<forall>f\<in>set (obj_Filters objs). nl_expressible f"
proof
  fix f
  assume "f \<in> set (obj_Filters objs)"
  from generated_parts [OF assms(1) this] obtain p v n q b a where
    f: "f = gen_shape p v n q b a" and parts: "filter_parts (elems (rs_Rules rs)) p v n q b a" by blast
  show "nl_expressible f"
    unfolding f by (rule shape_expressible) (use parts assms(2) in \<open>auto simp: filter_parts_def\<close>)
qed

text \<open>
  C12. The netlink driver refines the interface \<open>TC\<close>: on a netlink library that keeps its
  contract, the driver keeps the contract the actuator relies on, where the installed filters
  are the ones of the kernel read back, for every filter the structures can express.
\<close>

theorem netlink_driver_keeps_contract:
  assumes "nl_contract nl lnk K"
  shows "tc_contract (NewTcNetlinkImpl lnk nl) q (\<lambda>w. nlFlowerFilterToFlowerFilter ` K w) nl_expressible"
  using assms by (rule nl_contract.driver_contract)

section \<open>A kernel for the witnesses\<close>

text \<open>
  The world is the list of filters of one link; a filter that can be added gets the next handle
  unless its identity is in use.
\<close>

definition ex_valid :: "NlFlower \<Rightarrow> bool" where
  "ex_valid x \<longleftrightarrow> fl_Handle x \<noteq> 0 \<and> fl_Chain x \<noteq> None \<and> fl_Protocol x \<in> eth_protocols"

definition ex_kernel_add :: "NlFlower \<Rightarrow> NlFlower list \<Rightarrow> error option \<times> NlFlower list" where
  "ex_kernel_add k w =
     (let x = k\<lparr>fl_Handle := of_nat (Suc (length w)),
                fl_Chain := Some (case fl_Chain k of None \<Rightarrow> 0 | Some c \<Rightarrow> c)\<rparr> in
      if addable k \<and> ex_valid x \<and> nl_id x \<notin> set (map nl_id w) then (None, w @ [x])
      else (Some (External ''invalid argument''), w))"

definition ex_only :: "int \<Rightarrow> ('w \<Rightarrow> error option \<times> 'w) \<Rightarrow> 'w \<Rightarrow> error option \<times> 'w" where
  "ex_only idx f w = (if idx = 3 then f w else (Some (External ''no such device''), w))"

definition ex_only_list :: "Link \<Rightarrow> ('w \<Rightarrow> 'a list) \<Rightarrow> 'w \<Rightarrow> (error + 'a list) \<times> 'w" where
  "ex_only_list lnk f w = (if link_Index lnk = 3 then (Inr (f w), w) else (Inl (External ''no such device''), w))"

definition ex_nl :: "NlFlower list NetlinkProvider" where
  "ex_nl =
     \<lparr>nl_QdiscAdd = (\<lambda>_ w. (None, w)), nl_QdiscDel = (\<lambda>q. ex_only (nq_LinkIndex q) (\<lambda>w. (None, []))),
      nl_QdiscList = (\<lambda>lnk. ex_only_list lnk (\<lambda>w. [qdiscToNlQdisc (QDisc_Build NewIngressQDiscBuilder) 3])),
      nl_FilterAdd = (\<lambda>k. ex_only (fl_LinkIndex k) (ex_kernel_add k)),
      nl_FilterDel = (\<lambda>k. ex_only (fl_LinkIndex k) (\<lambda>w. (None, filter (\<lambda>x. nl_id x \<noteq> nl_id k) w))),
      nl_FilterList = (\<lambda>lnk _. ex_only_list lnk (\<lambda>w. OtherFilter ''matchall'' # map IsFlower (filter ex_valid w))),
      nl_ChainAdd = (\<lambda>_ _ w. (None, w)),
      nl_ChainDel = (\<lambda>lnk c. ex_only (link_Index lnk) (\<lambda>w. (None, filter (\<lambda>x. fl_Chain x \<noteq> Some (nc_Chain c)) w))),
      nl_ChainList = (\<lambda>lnk _. ex_only_list lnk
        (map (\<lambda>x. \<lparr>nc_Parent = HANDLE_INGRESS, nc_Chain = u32ValFromPtr (fl_Chain x) 0\<rparr>)))\<rparr>"

definition ex_view :: "NlFlower list \<Rightarrow> NlFlower set" where
  "ex_view w = set (filter ex_valid w)"

definition ex_link :: Link where
  "ex_link = \<lparr>link_Index = 3\<rparr>"

lemma ex_kernel_add_ok:
  assumes "ex_kernel_add k w = (None, w')"
  shows "\<exists>x. nl_same x k \<and> nl_id x \<notin> nl_id ` ex_view w \<and> ex_view w' = insert x (ex_view w)"
  by (rule exI [of _ "k\<lparr>fl_Handle := of_nat (Suc (length w)),
        fl_Chain := Some (case fl_Chain k of None \<Rightarrow> 0 | Some c \<Rightarrow> c)\<rparr>"])
    (use assms in \<open>auto simp: ex_kernel_add_def Let_def ex_view_def nl_same_def split: if_splits\<close>)

lemma ex_kernel_add_fail: "ex_kernel_add k w = (Some e, w') \<Longrightarrow> w' = w"
  by (auto simp: ex_kernel_add_def Let_def split: if_splits)

lemma ex_nl_contract: "nl_contract ex_nl ex_link ex_view"
proof -
  have add: "if r = None then \<exists>x. nl_same x k \<and> nl_id x \<notin> nl_id ` ex_view w \<and> ex_view w' = insert x (ex_view w)
      else ex_view w' = ex_view w" if added: "ex_kernel_add k w = (r, w')" for k w r w'
    using added ex_kernel_add_ok [of k w w'] ex_kernel_add_fail [of k w _ w'] by (cases r) simp_all
  have list: "{x. IsFlower x \<in> set (OtherFilter ''matchall'' # map IsFlower (filter ex_valid w))} = ex_view w" for w
    by (auto simp: ex_view_def)
  have chains: "\<exists>x\<in>set w. c = u32ValFromPtr (fl_Chain x) 0" if "x \<in> set w" and "fl_Chain x = Some c"
    for x c and w :: "NlFlower list"
    by (rule bexI [OF _ that(1)]) (simp add: that(2) u32ValFromPtr_def)
  show ?thesis
  proof
    fix k r and w w' :: "NlFlower list"
    assume "nl_FilterAdd ex_nl k w = (r, w')" and "on_link ex_link k"
    then have "ex_kernel_add k w = (r, w')" by (simp add: ex_nl_def ex_only_def on_link_def ex_link_def)
    then show "if r = None then \<exists>x. nl_same x k \<and> nl_id x \<notin> nl_id ` ex_view w \<and> ex_view w' = insert x (ex_view w)
        else ex_view w' = ex_view w"
      by (rule add)
  qed (auto simp: ex_nl_def ex_only_def ex_only_list_def ex_link_def on_link_def list ex_view_def ex_valid_def image_image image_iff intro: chains)
qed

interpretation ex_kernel: nl_contract ex_nl ex_link ex_view
  by (rule ex_nl_contract)

theorem netlink_driver_keeps_contract_witness:
  "tc_contract (NewTcNetlinkImpl ex_link ex_nl) ingress (\<lambda>w. nlFlowerFilterToFlowerFilter ` ex_view w) nl_expressible"
  by (rule netlink_driver_keeps_contract [OF ex_nl_contract])

end
