(* ===== verification/Cmdline_Reading.thy ===== *)
theory Cmdline_Reading
  imports Tc_Cmdline Net_Text
begin

text \<open>
  What the command line driver reads back of what it wrote: handles, destination networks and
  whole filters, and which listed filter a delete command names.
\<close>

section \<open>Destination networks\<close>

lemma IP_Mask_4: "length p = 4 \<Longrightarrow> k \<le> 32 \<Longrightarrow> IP_Mask (IPv4 p) (CIDRMask k 32) = map2 (AND) p (CIDRMask k 32)"
  by (simp add: IP_Mask_def IPv4_def length_CIDRMask)

lemma IP_Mask_16: "length p = 16 \<Longrightarrow> k \<le> 128 \<Longrightarrow> IP_Mask p (CIDRMask k 128) = map2 (AND) p (CIDRMask k 128)"
  by (simp add: IP_Mask_def length_CIDRMask)

lemma DstIP_arg_v4:
  assumes "To4 (net_IP n) = Some p" and "net_Mask n = CIDRMask k 32" and "k \<le> 32"
  shows "DstIP_arg n = (if k = 32 then dotted p else dotted p @ ''/'' @ FormatUint k)"
proof -
  have p: "length p = 4" using assms(1) by (rule length_To4)
  then have "net_IP n \<noteq> []" using assms(1) by (auto simp: To4_def split: if_splits)
  moreover have "CIDRMask k 32 \<noteq> []" using length_CIDRMask [of 32 k] assms(3) by auto
  moreover have "IsMaskFull (CIDRMask k 32) \<longleftrightarrow> k = 32" using assms(3) by (simp add: IsMaskFull_CIDRMask)
  moreover have "IPNet_String n = dotted p @ ''/'' @ FormatUint k"
    using assms p by (simp add: IPNet_String_def networkNumberAndMask_def length_CIDRMask
        simpleMaskLength_CIDRMask IP_String_def) auto
  ultimately show ?thesis using assms p by (simp add: DstIP_arg_def IP_String_def)
qed

lemma DstIP_arg_v6:
  assumes "To4 (net_IP n) = None" and "length (net_IP n) = 16" and "net_Mask n = CIDRMask k 128" and "k \<le> 128"
  shows "DstIP_arg n = (let s = IPv6_String (words16 (net_IP n)) in if k = 128 then s else s @ ''/'' @ FormatUint k)"
proof -
  have "net_IP n \<noteq> []" using assms(2) by auto
  moreover have "CIDRMask k 128 \<noteq> []" using length_CIDRMask [of 128 k] assms(4) by auto
  moreover have "IsMaskFull (CIDRMask k 128) \<longleftrightarrow> k = 128" using assms(4) by (simp add: IsMaskFull_CIDRMask)
  moreover have "IPNet_String n = IPv6_String (words16 (net_IP n)) @ ''/'' @ FormatUint k"
    using assms \<open>net_IP n \<noteq> []\<close>
    by (simp add: IPNet_String_def networkNumberAndMask_def length_CIDRMask simpleMaskLength_CIDRMask IP_String_def)
  ultimately show ?thesis using assms by (simp add: DstIP_arg_def IP_String_def Let_def)
qed

lemma full_lengths: "''/32'' = ''/'' @ FormatUint 32" "''/128'' = ''/'' @ FormatUint 128"
  by code_simp+

lemma read_v4:
  assumes "length p = 4" and "k \<le> 32"
  shows "IPToIPNet (if k = 32 then dotted p else dotted p @ ''/'' @ FormatUint k) =
    Inr \<lparr>net_IP = IP_Mask (IPv4 p) (CIDRMask k 32), net_Mask = CIDRMask k 32\<rparr>"
proof -
  have "CHR ''/'' \<notin> set (dotted p)" by (rule dotted_chars) simp_all
  moreover have "IPv4 p \<noteq> []" by (simp add: IPv4_def v4InV6Prefix_def)
  ultimately show ?thesis
    using assms ParseCIDR_dotted [OF assms] unfolding IPToIPNet_def full_lengths
    by (auto simp: ParseIP_dotted Let_def)
qed

lemma read_v6:
  assumes "length ip = 16" and "To4 ip = None" and "k \<le> 128"
  shows "IPToIPNet (let s = IPv6_String (words16 ip) in if k = 128 then s else s @ ''/'' @ FormatUint k) =
    Inr \<lparr>net_IP = IP_Mask ip (CIDRMask k 128), net_Mask = CIDRMask k 128\<rparr>"
proof -
  note v6 = v6_text_String [OF assms(1)]
  then have "CHR ''/'' \<notin> set (IPv6_String (words16 ip))" by (simp add: v6_text_def)
  moreover have "ip \<noteq> []" using assms(1) by auto
  ultimately show ?thesis
    using ParseCIDR_v6 [OF v6 assms(3)] ParseIP_v6 [OF v6] assms(2) unfolding IPToIPNet_def full_lengths
    by (auto simp: Let_def)
qed

lemma dst_ip_read_back:
  assumes "text_net n"
  shows "\<exists>m. IPToIPNet (DstIP_arg n) = Inr m \<and> norm_net m = norm_net n"
proof (cases "To4 (net_IP n)")
  case None
  then obtain k where n: "length (net_IP n) = 16" "k \<le> 128" "net_Mask n = CIDRMask k 128"
      "map2 (AND) (net_IP n) (net_Mask n) = net_IP n"
    using assms by (auto simp: text_net_def)
  then show ?thesis
    using read_v6 [OF n(1) None n(2)] DstIP_arg_v6 [OF None n(1,3,2)] IP_Mask_16 [OF n(1,2)]
    by (simp add: norm_net_def)
next
  case (Some p)
  then obtain k where n: "k \<le> 32" "net_Mask n = CIDRMask k 32" "map2 (AND) p (net_Mask n) = p"
    using assms by (auto simp: text_net_def)
  have p: "length p = 4" using Some by (rule length_To4)
  have "IP_String p = IP_String (net_IP n)"
    using p Some by (auto simp: IP_String_def To4_def split: if_splits)
  then show ?thesis
    using read_v4 [OF p n(1)] DstIP_arg_v4 [OF Some n(2,1)] IP_Mask_4 [OF p n(1)] n
    by (simp add: norm_net_def)
qed

text \<open>
  The networks of the program are of this form: what \<open>ParseCIDR\<close> accepts, unless the text is an
  IPv4 address written as an IPv6 one, and the host networks of pods.
\<close>

lemma masked_twice: "map2 (AND) (map2 (AND) a m) m = map2 (AND) a (m :: u8 list)"
  by (induction a m rule: list_induct2') (simp_all add: ac_simps)

lemma parsed_text_net:
  assumes "ParseCIDR s = Inr n" and "To4 (net_IP n) \<noteq> None \<longrightarrow> length (net_Mask n) = 4"
  shows "text_net n"
  using assms(1)
proof (cases rule: ParseCIDR_cases)
  case (v4 bs k)
  have "To4 (map2 (AND) bs (CIDRMask k 32)) = Some (map2 (AND) bs (CIDRMask k 32))"
    using v4 by (simp add: length_CIDRMask)
  then show ?thesis using v4 by (auto simp: text_net_def IP_Mask_4 masked_twice)
next
  case (v6 ip k)
  then have "To4 (net_IP n) = None" using assms(2) by (auto simp: length_CIDRMask)
  then show ?thesis using v6 by (auto simp: text_net_def IP_Mask_16 masked_twice length_CIDRMask)
qed

lemma host_text_net:
  assumes "length ip = 16"
  shows "text_net \<lparr>net_IP = ip, net_Mask = (if IsIPv4 ip then CIDRMask 32 32 else CIDRMask 128 128)\<rparr>"
proof (cases "To4 ip")
  case None
  have "map2 (AND) ip (CIDRMask 128 128) = ip" using mask_full [of ip] assms by (simp add: CIDRMask_def)
  then show ?thesis using None assms by (auto simp: text_net_def IsIPv4_def)
next
  case (Some p)
  have "map2 (AND) p (CIDRMask 32 32) = p" using mask_full [of p] length_To4 [OF Some] by (simp add: CIDRMask_def)
  then show ?thesis using Some by (auto simp: text_net_def IsIPv4_def)
qed

section \<open>Handles\<close>

lemma parse_hex32_hex: "a < 2 ^ 32 \<Longrightarrow> parse_hex32 (hex a) = Inr (of_nat a)"
  by (simp add: parse_hex32_def hex_def ParseUint_show_base)

lemma hex_no_colon: "CHR '':'' \<notin> set (hex n)"
  by (rule hex_no_low) simp

lemma split_major_minor:
  "split_on CHR '':'' (hex a) = [hex a]"
  "split_on CHR '':'' (hex a @ [CHR '':'']) = [hex a, []]"
  "split_on CHR '':'' (hex a @ CHR '':'' # hex b) = [hex a, hex b]"
  using split_on_append_sep [OF hex_no_colon, of a "[]"] split_on_append_sep [OF hex_no_colon, of a "hex b"]
  by (simp_all add: split_on_no_sep hex_no_colon)

lemma low_half: "(w :: u32) AND 0xffff = take_bit 16 w"
proof -
  have "(0xffff :: u32) = Bit_Operations.mask 16" by (simp add: mask_eq_exp_minus_1)
  then show ?thesis by (simp only: take_bit_eq_mask)
qed

lemma parse_forms:
  assumes "a < 2 ^ 32" and "b < 2 ^ 32"
  shows "parseMajorMinor (hex a) = Inr (of_nat a)"
    and "parseMajorMinor (hex a @ '':'') = Inr (of_nat a)"
    and "parseMajorMinor (hex a @ '':'' @ hex b) =
      Inr (push_bit 16 (take_bit 16 (of_nat a)) OR take_bit 16 (of_nat b))"
  using assms unfolding parseMajorMinor_def low_half
  by (simp_all add: split_major_minor parse_hex32_hex)

lemma halves: "push_bit 16 (take_bit 16 (drop_bit 16 w)) OR take_bit 16 w = (w :: u32)"
  by (rule bit_word_eqI) (auto simp: bit_simps)

lemma half_bound: "unat (x :: u16) < 2 ^ 32"
proof -
  have "unat x < 65536" using unsigned_less [of x] by simp
  then show ?thesis by simp
qed

lemma parse_format_handle: "parseMajorMinor (format_handle w) = Inr w"
proof -
  have "(of_nat (unat (ucast x :: u16)) :: u32) = take_bit 16 x" for x :: u32
    by (rule bit_word_eqI) (auto simp: bit_simps)
  then show ?thesis
    using parse_forms(3) [OF half_bound half_bound] by (simp add: format_handle_def halves)
qed

lemma too_many_colons:
  assumes "split_on CHR '':'' mm = p # q # r # ps"
  shows "parseMajorMinor mm = Inl (Errorf ''failed to parse MajorMinor string:'' [mm])"
  by (simp add: parseMajorMinor_def assms)

section \<open>Listed filters\<close>

text \<open>
  The filters whose parts have names in the output of \<open>tc\<close>: the protocols, tags and IP protocols
  of the program, and networks that \<open>DstIP_arg\<close> can write.
\<close>

definition cmd_expressible :: "FlowerFilter \<Rightarrow> bool" where
  "cmd_expressible f \<longleftrightarrow>
     fa_Kind (ff_Attrs f) = FilterKindFlower \<and>
     fa_Protocol (ff_Attrs f) \<in> {FilterProtocolIPv4, FilterProtocolIPv6, FilterProtocol8021Q, FilterProtocolAll} \<and>
     (\<exists>s. ff_Flower f = Some s \<and>
        fs_VlanEthType s \<in> {None, Some FlowerVlanEthTypeIPv4, Some FlowerVlanEthTypeIPv6} \<and>
        fs_IPProto s \<in> {None, Some FlowerIPProtoTCP, Some FlowerIPProtoUDP} \<and>
        (\<forall>n. fs_DstIP s = Some n \<longrightarrow> text_net n))"

text \<open>
  An object of the output that describes a filter: \<open>tc\<close> prints what was given, names without
  regard to case, the chain it chose and any handle.
\<close>

definition describes :: "cFilter \<Rightarrow> FlowerFilter \<Rightarrow> bool" where
  "describes c f \<longleftrightarrow>
     cf_Kind c = FilterKindFlower \<and>
     to_lower (cf_Protocol c) = fa_Protocol (ff_Attrs f) \<and>
     Some (cf_Priority c) = fa_Priority (ff_Attrs f) \<and>
     cf_Chain c = (case fa_Chain (ff_Attrs f) of None \<Rightarrow> 0 | Some n \<Rightarrow> n) \<and>
     (\<exists>opts s. cf_Options c = Some opts \<and> ff_Flower f = Some s \<and>
        map_option to_lower (ck_VlanEthType (co_Keys opts)) = fs_VlanEthType s \<and>
        map_option to_lower (ck_IPProto (co_Keys opts)) = fs_IPProto s \<and>
        ck_DstIP (co_Keys opts) = map_option DstIP_arg (fs_DstIP s) \<and>
        ck_DstPort (co_Keys opts) = fs_DstPort s \<and>
        map (\<lambda>a. (ca_Kind a, cca_Type (ca_ControlAction a))) (co_Actions opts) =
          map (\<lambda>a. (ActionTypeGeneric, controlAction a)) (ff_Actions f))"

lemma read_actions_ok:
  assumes "map (\<lambda>a. (ca_Kind a, cca_Type (ca_ControlAction a))) as = map (\<lambda>a. (ActionTypeGeneric, controlAction a)) acts"
  shows "read_actions as fb = Inr (fb\<lparr>ffb_actions := ffb_actions fb @ acts\<rparr>)"
  using assms
proof (induction as arbitrary: fb acts)
  case Nil
  then show ?case by simp
next
  case (Cons a as)
  then obtain act acts' where "acts = act # acts'" by (cases acts) auto
  then show ?case
    using Cons by (simp add: WithAction_def NewGenericAction_def)
qed

lemma protocol_names:
  "to_lower s \<in> {FilterProtocolIPv4, FilterProtocolIPv6, FilterProtocol8021Q, FilterProtocolAll} \<Longrightarrow>
    sToFilterProtocol s = to_lower s"
  "to_lower s \<in> {FlowerIPProtoTCP, FlowerIPProtoUDP} \<Longrightarrow> sToFlowerIPProto s = to_lower s"
  "to_lower s \<in> {FlowerVlanEthTypeIPv4, FlowerVlanEthTypeIPv6} \<Longrightarrow> sToFlowerVlanEthType s = to_lower s"
  by (auto simp: sToFilterProtocol_def sToFlowerIPProto_def sToFlowerVlanEthType_def go_consts)

lemma read_described:
  assumes "describes c f" and "cmd_expressible f"
  shows "\<exists>g. read_filter c = Inr [g] \<and> FlowerFilter_Equals g f"
proof -
  obtain opts s where c: "cf_Kind c = FilterKindFlower" "cf_Options c = Some opts" "ff_Flower f = Some s"
    and prio: "fa_Priority (ff_Attrs f) = Some (cf_Priority c)"
    and chain: "cf_Chain c = (case fa_Chain (ff_Attrs f) of None \<Rightarrow> 0 | Some n \<Rightarrow> n)"
    and proto: "to_lower (cf_Protocol c) = fa_Protocol (ff_Attrs f)"
    and vlan: "map_option to_lower (ck_VlanEthType (co_Keys opts)) = fs_VlanEthType s"
    and ipp: "map_option to_lower (ck_IPProto (co_Keys opts)) = fs_IPProto s"
    and ip: "ck_DstIP (co_Keys opts) = map_option DstIP_arg (fs_DstIP s)"
    and port: "ck_DstPort (co_Keys opts) = fs_DstPort s"
    and acts: "map (\<lambda>a. (ca_Kind a, cca_Type (ca_ControlAction a))) (co_Actions opts) =
      map (\<lambda>a. (ActionTypeGeneric, controlAction a)) (ff_Actions f)"
    using assms(1) by (auto simp: describes_def)
  have names: "sToFilterProtocol (cf_Protocol c) = fa_Protocol (ff_Attrs f)"
    and vlan_name: "map_option sToFlowerVlanEthType (ck_VlanEthType (co_Keys opts)) = fs_VlanEthType s"
    and ipp_name: "map_option sToFlowerIPProto (ck_IPProto (co_Keys opts)) = fs_IPProto s"
    and kind: "fa_Kind (ff_Attrs f) = FilterKindFlower"
    using assms(2) protocol_names proto vlan ipp c(3) unfolding cmd_expressible_def
    by (auto split: option.splits)
  have "\<exists>d. map_option norm_net d = map_option norm_net (fs_DstIP s) \<and>
      (case ck_DstIP (co_Keys opts) of None \<Rightarrow> d = None | Some t \<Rightarrow> \<exists>m. IPToIPNet t = Inr m \<and> d = Some m)"
  proof (cases "fs_DstIP s")
    case None
    then show ?thesis using ip by simp
  next
    case (Some n)
    then have "text_net n" using assms(2) c(3) by (simp add: cmd_expressible_def)
    with Some ip show ?thesis using dst_ip_read_back by fastforce
  qed
  then obtain d where d: "map_option norm_net d = map_option norm_net (fs_DstIP s)"
      "case ck_DstIP (co_Keys opts) of None \<Rightarrow> d = None | Some t \<Rightarrow> \<exists>m. IPToIPNet t = Inr m \<and> d = Some m"
    by blast
  let ?g = "\<lparr>ff_Attrs = \<lparr>fa_Kind = FilterKindFlower, fa_Protocol = fa_Protocol (ff_Attrs f),
      fa_Chain = Some (cf_Chain c), fa_Handle = Some (co_Handle opts), fa_Priority = Some (cf_Priority c)\<rparr>,
    ff_Flower = Some (s\<lparr>fs_DstIP := d\<rparr>), ff_Actions = ff_Actions f\<rparr>"
  have "read_filter c = Inr [?g]"
    using d(2) vlan_name ipp_name port
    by (cases s; cases "ck_VlanEthType (co_Keys opts)"; cases "ck_IPProto (co_Keys opts)";
        cases "ck_DstIP (co_Keys opts)"; cases "ck_DstPort (co_Keys opts)")
      (auto simp: read_filter_def c names Let_def read_actions_ok [OF acts] builder_simps)
  moreover have "FlowerFilter_Equals ?g f"
    using d(1) prio chain kind c(3)
    by (simp add: FlowerFilter_Equals_iff norm_filter_def go_consts split: option.splits)
  ultimately show ?thesis by blast
qed

section \<open>Arguments\<close>

text \<open>
  The arguments of a filter are optional pairs of a key and a value, in a fixed order. Two such
  lists are equal only if the pairs are, because no pair starts with the key of another.
\<close>

definition arg :: "string \<Rightarrow> ('a \<Rightarrow> string) \<Rightarrow> 'a option \<Rightarrow> string list" where
  "arg k sh v = (case v of None \<Rightarrow> [] | Some x \<Rightarrow> [k, sh x])"

definition starts :: "string \<Rightarrow> string list \<Rightarrow> bool" where
  "starts k xs \<longleftrightarrow> (\<exists>ys. xs = k # ys)"

lemma starts_simps [simp]:
  "\<not> starts k []"
  "starts k (x # xs) \<longleftrightarrow> x = k"
  "k \<noteq> k' \<Longrightarrow> starts k (arg k' sh v @ xs) \<longleftrightarrow> v = None \<and> starts k xs"
  "k \<noteq> k' \<Longrightarrow> \<not> starts k (arg k' sh v)"
  by (auto simp: starts_def arg_def split: option.split)

lemma arg_append:
  assumes "arg k sh v @ xs = arg k sh v' @ ys" and "\<not> starts k xs" and "\<not> starts k ys"
  shows "map_option sh v = map_option sh v' \<and> xs = ys"
  using assms by (auto simp: arg_def starts_def split: option.splits)

lemma FormatUint_inj: "FormatUint m = FormatUint n \<longleftrightarrow> m = n"
proof
  assume "FormatUint m = FormatUint n"
  then have "digits_value 10 (show_base 10 m) = digits_value 10 (show_base 10 n)" by (simp add: FormatUint_def)
  then show "m = n" by (simp add: digits_value_show)
qed simp

lemma shown_inj:
  fixes v :: "'l::len word option"
  shows "map_option (\<lambda>x. FormatUint (unat x)) v = map_option (\<lambda>x. FormatUint (unat x)) v' \<longleftrightarrow> v = v'"
  by (cases v; cases v') (auto simp: FormatUint_inj word_eq_iff_unsigned [where ?'a = nat])

lemma attrs_args:
  "FilterAttrs_GenCmdLineArgs a =
     arg ''protocol'' id (if fa_Protocol a = [] then None else Some (fa_Protocol a)) @
     arg ''handle'' (\<lambda>h. FormatUint (unat h)) (fa_Handle a) @
     arg ''chain'' (\<lambda>c. FormatUint (unat c)) (fa_Chain a) @
     arg ''pref'' (\<lambda>p. FormatUint (unat p)) (fa_Priority a) @ [fa_Kind a]"
  by (simp add: FilterAttrs_GenCmdLineArgs_def arg_def split: option.split)

lemma attrs_args_inj:
  assumes "fa_Kind a = FilterKindFlower" and "fa_Kind b = FilterKindFlower"
    and "FilterAttrs_GenCmdLineArgs a @ xs = FilterAttrs_GenCmdLineArgs b @ ys"
  shows "a = b \<and> xs = ys"
proof -
  let ?n = "\<lambda>v. FormatUint (unat v)"
  let ?p = "\<lambda>a. if fa_Protocol a = [] then None else Some (fa_Protocol a)"
  have keys: "arg ''protocol'' id (?p a) @ arg ''handle'' ?n (fa_Handle a) @ arg ''chain'' ?n (fa_Chain a) @
      arg ''pref'' ?n (fa_Priority a) @ FilterKindFlower # xs =
    arg ''protocol'' id (?p b) @ arg ''handle'' ?n (fa_Handle b) @ arg ''chain'' ?n (fa_Chain b) @
      arg ''pref'' ?n (fa_Priority b) @ FilterKindFlower # ys"
    using assms by (simp add: attrs_args)
  have p: "map_option id (?p a) = map_option id (?p b)"
    and h: "arg ''handle'' ?n (fa_Handle a) @ arg ''chain'' ?n (fa_Chain a) @
      arg ''pref'' ?n (fa_Priority a) @ FilterKindFlower # xs =
      arg ''handle'' ?n (fa_Handle b) @ arg ''chain'' ?n (fa_Chain b) @
      arg ''pref'' ?n (fa_Priority b) @ FilterKindFlower # ys"
    using arg_append [OF keys] by (simp_all add: go_consts)
  note h' = arg_append [OF h, simplified, simplified go_consts, simplified]
  note c' = arg_append [OF h' [THEN conjunct2], simplified, simplified go_consts, simplified]
  note q' = arg_append [OF c' [THEN conjunct2], simplified, simplified go_consts, simplified]
  show ?thesis
    using p h' c' q' assms(1,2)
    by (cases a; cases b) (simp add: shown_inj split: if_splits)
qed

lemma actions_args_inj:
  "concat (map GenericAction_GenCmdLineArgs as) = concat (map GenericAction_GenCmdLineArgs bs) \<Longrightarrow> as = bs"
proof (induction as arbitrary: bs)
  case Nil
  then show ?case by (cases bs) (simp_all add: GenericAction_GenCmdLineArgs_def)
next
  case (Cons a as)
  then show ?case by (cases bs) (simp_all add: GenericAction_GenCmdLineArgs_def)
qed

lemma starts_actions [simp]: "starts k (concat (map GenericAction_GenCmdLineArgs as)) \<longleftrightarrow> as \<noteq> [] \<and> k = ''action''"
  by (cases as) (auto simp: GenericAction_GenCmdLineArgs_def)

lemma spec_args:
  "FlowerSpec_GenCmdLineArgs (Some s) =
     arg FlowerKeyVlanEthType id (fs_VlanEthType s) @ arg FlowerKeyIPProto id (fs_IPProto s) @
     arg FlowerKeyDstIP DstIP_arg (fs_DstIP s) @ arg FlowerKeyDstPort (\<lambda>p. FormatUint (unat p)) (fs_DstPort s)"
  by (simp add: FlowerSpec_GenCmdLineArgs_def arg_def split: option.split)

lemma dst_args_inj:
  assumes "\<forall>n. d = Some n \<longrightarrow> text_net n" and "\<forall>n. e = Some n \<longrightarrow> text_net n"
    and "map_option DstIP_arg d = map_option DstIP_arg e"
  shows "map_option norm_net d = map_option norm_net e"
proof (cases d)
  case None
  then show ?thesis using assms(3) by (cases e) simp_all
next
  case (Some n)
  then obtain m where m: "e = Some m" "DstIP_arg n = DstIP_arg m" using assms(3) by (cases e) simp_all
  then obtain x y where "IPToIPNet (DstIP_arg n) = Inr x" "norm_net x = norm_net n"
      "IPToIPNet (DstIP_arg n) = Inr y" "norm_net y = norm_net m"
    using dst_ip_read_back [of n] dst_ip_read_back [of m] assms(1,2) Some by auto
  then show ?thesis using Some m by simp
qed

lemma spec_args_parts:
  assumes "FlowerSpec_GenCmdLineArgs (Some s) @ concat (map GenericAction_GenCmdLineArgs as) =
      FlowerSpec_GenCmdLineArgs (Some t) @ concat (map GenericAction_GenCmdLineArgs bs)"
  shows "fs_VlanEthType s = fs_VlanEthType t \<and> fs_IPProto s = fs_IPProto t \<and>
    map_option DstIP_arg (fs_DstIP s) = map_option DstIP_arg (fs_DstIP t) \<and> fs_DstPort s = fs_DstPort t \<and> as = bs"
proof -
  note v = arg_append [OF assms(1) [unfolded spec_args append_assoc], simplified go_consts, simplified]
  note i = arg_append [OF v [THEN conjunct2], simplified go_consts, simplified]
  note d = arg_append [OF i [THEN conjunct2], simplified go_consts, simplified]
  note q = arg_append [OF d [THEN conjunct2], simplified go_consts, simplified]
  show ?thesis
    using v i d q actions_args_inj [of as bs] by (simp add: shown_inj option.map_id)
qed

lemma expressible_spec:
  "cmd_expressible f \<Longrightarrow> \<exists>s. ff_Flower f = Some s \<and> (\<forall>n. fs_DstIP s = Some n \<longrightarrow> text_net n)"
  unfolding cmd_expressible_def by blast

lemma filter_args_parts:
  assumes "cmd_expressible f" and "cmd_expressible g"
    and "FlowerFilter_GenCmdLineArgs f = FlowerFilter_GenCmdLineArgs g"
  obtains s t where "ff_Flower f = Some s" "ff_Flower g = Some t" "ff_Attrs f = ff_Attrs g"
    "ff_Actions f = ff_Actions g" "fs_VlanEthType s = fs_VlanEthType t" "fs_IPProto s = fs_IPProto t"
    "map_option DstIP_arg (fs_DstIP s) = map_option DstIP_arg (fs_DstIP t)" "fs_DstPort s = fs_DstPort t"
proof -
  obtain s t where s: "ff_Flower f = Some s" and t: "ff_Flower g = Some t"
    using assms(1,2) [THEN expressible_spec] by blast
  have kind: "fa_Kind (ff_Attrs f) = FilterKindFlower" "fa_Kind (ff_Attrs g) = FilterKindFlower"
    using assms(1,2) by (simp_all add: cmd_expressible_def)
  have "FilterAttrs_GenCmdLineArgs (ff_Attrs f) @ FlowerSpec_GenCmdLineArgs (Some s) @
      concat (map GenericAction_GenCmdLineArgs (ff_Actions f)) =
    FilterAttrs_GenCmdLineArgs (ff_Attrs g) @ FlowerSpec_GenCmdLineArgs (Some t) @
      concat (map GenericAction_GenCmdLineArgs (ff_Actions g))"
    using assms(3) s t by (simp add: FlowerFilter_GenCmdLineArgs_def)
  note attrs = attrs_args_inj [OF kind this]
  show thesis using spec_args_parts [OF attrs [THEN conjunct2]] attrs s t by (intro that [of s t]) simp_all
qed

lemma filter_args_inj:
  assumes "cmd_expressible f" and "cmd_expressible g"
    and "FlowerFilter_GenCmdLineArgs f = FlowerFilter_GenCmdLineArgs g"
  shows "FlowerFilter_Equals f g \<and> ff_Attrs f = ff_Attrs g"
proof -
  obtain s t where p: "ff_Flower f = Some s" "ff_Flower g = Some t" "ff_Attrs f = ff_Attrs g"
      "ff_Actions f = ff_Actions g" "fs_VlanEthType s = fs_VlanEthType t" "fs_IPProto s = fs_IPProto t"
      "map_option DstIP_arg (fs_DstIP s) = map_option DstIP_arg (fs_DstIP t)" "fs_DstPort s = fs_DstPort t"
    using filter_args_parts [OF assms] by blast
  have "map_option norm_net (fs_DstIP s) = map_option norm_net (fs_DstIP t)"
    using dst_args_inj [OF _ _ p(7)] expressible_spec [OF assms(1)] expressible_spec [OF assms(2)] p(1,2) by simp
  then show ?thesis using p by (simp add: FlowerFilter_Equals_iff norm_filter_def)
qed

text \<open>An object that describes a filter describes every filter with the same add command.\<close>

lemma describes_args:
  assumes "cmd_expressible f" and "cmd_expressible g"
    and "FlowerFilter_GenCmdLineArgs f = FlowerFilter_GenCmdLineArgs g" and "describes c g"
  shows "describes c f"
proof -
  obtain s t where p: "ff_Flower f = Some s" "ff_Flower g = Some t" "ff_Attrs f = ff_Attrs g"
      "ff_Actions f = ff_Actions g" "fs_VlanEthType s = fs_VlanEthType t" "fs_IPProto s = fs_IPProto t"
      "map_option DstIP_arg (fs_DstIP s) = map_option DstIP_arg (fs_DstIP t)" "fs_DstPort s = fs_DstPort t"
    using filter_args_parts [OF assms(1-3)] by blast
  show ?thesis using assms(4) unfolding describes_def by (simp add: p)
qed

section \<open>The list operation\<close>

definition readable :: "cFilter \<Rightarrow> bool" where
  "readable c \<longleftrightarrow>
     (case cf_Options c of
        None \<Rightarrow> True
      | Some opts \<Rightarrow> cf_Kind c = FilterKindFlower \<and>
          (case ck_DstIP (co_Keys opts) of None \<Rightarrow> True | Some t \<Rightarrow> \<not> isl (IPToIPNet t)) \<and>
          list_all (\<lambda>a. ca_Kind a = ActionTypeGeneric) (co_Actions opts))"

lemma read_actions_all:
  "list_all (\<lambda>a. ca_Kind a = ActionTypeGeneric) as \<Longrightarrow>
    read_actions as fb = Inr (fb\<lparr>ffb_actions := ffb_actions fb @ map (\<lambda>a. NewGenericAction (cca_Type (ca_ControlAction a))) as\<rparr>)"
  by (induction as arbitrary: fb) (simp_all add: WithAction_def)

lemma read_actions_bad:
  "\<not> list_all (\<lambda>a. ca_Kind a = ActionTypeGeneric) as \<Longrightarrow> \<exists>e. \<forall>fb. read_actions as fb = Inl e"
  by (induction as) auto

lemma read_filter_iff:
  "(if readable c then \<exists>fs. read_filter c = Inr fs \<and> length fs = (if cf_Options c = None then 0 else 1)
    else \<exists>e. read_filter c = Inl e)"
proof (cases "cf_Options c")
  case None
  then show ?thesis by (simp add: readable_def read_filter_def)
next
  case (Some opts)
  show ?thesis
  proof (cases "list_all (\<lambda>a. ca_Kind a = ActionTypeGeneric) (co_Actions opts)")
    case True
    with Some show ?thesis
      by (simp add: readable_def read_filter_def Let_def read_actions_all split: option.split sum.split)
  next
    case False
    then obtain e where "\<And>fb. read_actions (co_Actions opts) fb = Inl e" using read_actions_bad by blast
    with Some False show ?thesis
      by (simp add: readable_def read_filter_def Let_def split: option.split sum.split)
  qed
qed

lemma list_objects_outcome:
  "snd (list_objects t args zero dec read w) = snd (execTcCmd t args w)"
  "isl (fst (list_objects t args zero dec read w)) \<longleftrightarrow>
     (\<forall>out cs objs. fst (execTcCmd t args w) = Inr out \<longrightarrow> unmarshal_slice zero dec out = Inr cs \<longrightarrow>
        map_until_error read cs \<noteq> Inr objs)"
  by (auto simp: list_objects_def isl_def split: prod.split sum.split)

section \<open>Properties\<close>

text \<open>
  C16. The destination network of a filter survives the command line: for every network whose mask
  is a prefix, without host bits, in its usual form, the text that \<open>tc\<close> gets as \<open>dst_ip\<close> (and
  prints) is parsed into a network with the same address and mask. Every network that
  \<open>ParseCIDR\<close> accepts is of that kind, except an IPv4 address written as an IPv6 one.
\<close>

theorem dst_ip_roundtrip:
  "(text_net n \<longrightarrow> (\<exists>m. IPToIPNet (DstIP_arg n) = Inr m \<and> IP_String (net_IP m) = IP_String (net_IP n) \<and>
     Mask_String (net_Mask m) = Mask_String (net_Mask n))) \<and>
   (ParseCIDR s = Inr n \<and> (To4 (net_IP n) \<noteq> None \<longrightarrow> length (net_Mask n) = 4) \<longrightarrow> text_net n)"
  using dst_ip_read_back [of n] parsed_text_net [of s n] by (auto simp: norm_net_def)




text \<open>
  C19. When listing filters fails: the command runs once, and the result is an error exactly when
  it failed, its output is not a list of filter objects, or one of the objects with options is
  not a flower filter, has a destination that does not parse or an action that is not \<open>gact\<close>.
  An error of one object loses the whole list; otherwise every object with options gives a filter.
\<close>

theorem cmdline_list_outcome:
  "let run = execTcCmd t ([''filter'', ''list'', ''dev'', cl_netDev t] @ QDisc_GenCmdLineArgs qdisc) w
   in snd (Cl_FilterList t qdisc w) = snd run \<and>
      (case fst run of
         Inl e \<Rightarrow> fst (Cl_FilterList t qdisc w) = Inl e
       | Inr out \<Rightarrow>
           (case unmarshal_slice zero_cFilter decode_cFilter out of
              Inl e \<Rightarrow> fst (Cl_FilterList t qdisc w) = Inl e
            | Inr cs \<Rightarrow>
                if list_all readable cs
                then \<exists>fs. fst (Cl_FilterList t qdisc w) = Inr fs \<and>
                  length fs = length (filter (\<lambda>c. cf_Options c \<noteq> None) cs)
                else isl (fst (Cl_FilterList t qdisc w))))"
proof -
  have good: "list_all readable cs \<Longrightarrow> \<exists>fss. map_until_error read_filter cs = Inr fss \<and>
      length (concat fss) = length (filter (\<lambda>c. cf_Options c \<noteq> None) cs)" for cs
  proof (induction cs)
    case (Cons c cs)
    then show ?case using read_filter_iff [of c] by (auto split: if_splits)
  qed simp
  have bad: "\<not> list_all readable cs \<Longrightarrow> \<exists>e. map_until_error read_filter cs = Inl e" for cs
  proof (induction cs)
    case (Cons c cs)
    then show ?case using read_filter_iff [of c] by (cases "readable c") auto
  qed simp
  show ?thesis
    using good bad unfolding Cl_FilterList_def list_objects_def Let_def
    by (auto split: prod.split sum.split) fastforce+
qed

section \<open>Examples\<close>

definition ex_v6_net :: IPNet where
  "ex_v6_net = \<lparr>net_IP = [0x20, 0x01, 0x0d, 0xb8] @ replicate 12 0, net_Mask = CIDRMask 32 128\<rparr>"

theorem dst_ip_roundtrip_witness:
  "\<exists>m. IPToIPNet ''2001:db8::/32'' = Inr m \<and> IP_String (net_IP m) = ''2001:db8::'' \<and>
     Mask_String (net_Mask m) = Mask_String (CIDRMask 32 128)"
proof -
  have parsed: "ParseCIDR ''2001:db8::/32'' = Inr ex_v6_net" by code_simp
  have v6: "To4 (net_IP ex_v6_net) \<noteq> None \<longrightarrow> length (net_Mask ex_v6_net) = 4" by code_simp
  have "DstIP_arg ex_v6_net = ''2001:db8::/32''" "IP_String (net_IP ex_v6_net) = ''2001:db8::''" by code_simp+
  moreover have "net_Mask ex_v6_net = CIDRMask 32 128" by (simp add: ex_v6_net_def)
  ultimately show ?thesis
    using dst_ip_roundtrip [of ex_v6_net "''2001:db8::/32''"] parsed v6 by simp
qed


definition ex_cmd_filter :: FlowerFilter where
  "ex_cmd_filter =
     \<lparr>ff_Attrs = \<lparr>fa_Kind = FilterKindFlower, fa_Protocol = FilterProtocolIPv4, fa_Chain = None,
        fa_Handle = None, fa_Priority = Some 200\<rparr>,
      ff_Flower = Some \<lparr>fs_VlanEthType = None, fs_IPProto = Some FlowerIPProtoTCP,
        fs_DstIP = Some \<lparr>net_IP = [10, 10, 10, 0], net_Mask = CIDRMask 24 32\<rparr>, fs_DstPort = Some 6666\<rparr>,
      ff_Actions = [NewGenericAction ActionGenericPass]\<rparr>"

lemma ex_cmd_expressible: "cmd_expressible ex_cmd_filter"
proof -
  have "map2 (AND) [10, 10, 10, 0] (CIDRMask 24 32) = [10, 10, 10, 0]" by code_simp
  then have "text_net \<lparr>net_IP = [10, 10, 10, 0], net_Mask = CIDRMask 24 32\<rparr>"
    by (auto simp: text_net_def)
  then show ?thesis by (simp add: cmd_expressible_def ex_cmd_filter_def)
qed


text \<open>An output of \<open>tc -json filter list\<close>: a filter head without options, then the filter.\<close>

definition ex_listing :: string where
  "ex_listing = ''[{\"protocol\": \"ip\", \"pref\": 200, \"kind\": \"flower\", \"chain\": 0}, {\"protocol\": \"ip\", \"pref\": 200, \"kind\": \"flower\", \"chain\": 0, \"options\": {\"handle\": 1, \"keys\": {\"eth_type\": \"ipv4\", \"ip_proto\": \"tcp\", \"dst_port\": 6666, \"dst_ip\": \"10.10.10.0/24\"}, \"in_hw\": true, \"actions\": [{\"order\": 1, \"kind\": \"gact\", \"control_action\": {\"type\": \"pass\"}, \"index\": 2, \"used_hw_stats\": [\"delayed\"]}]}}]''"

definition ex_listed :: "cFilter list" where
  "ex_listed =
     [\<lparr>cf_Protocol = ''ip'', cf_Priority = 200, cf_Kind = ''flower'', cf_Chain = 0, cf_Options = None\<rparr>,
      \<lparr>cf_Protocol = ''ip'', cf_Priority = 200, cf_Kind = ''flower'', cf_Chain = 0, cf_Options = Some
         \<lparr>co_Handle = 1, co_Keys = \<lparr>ck_VlanEthType = None, ck_IPProto = Some ''tcp'',
            ck_DstIP = Some ''10.10.10.0/24'', ck_DstPort = Some 6666\<rparr>,
          co_Actions = [\<lparr>ca_Order = 1, ca_Kind = ''gact'', ca_ControlAction = \<lparr>cca_Type = ''pass''\<rparr>\<rparr>]\<rparr>\<rparr>]"

definition ex_tool :: "unit Executor" where
  "ex_tool = \<lparr>Cmd_Run = \<lambda>_ _ w. (None, w), Cmd_Output = \<lambda>_ _ w. (Inr ex_listing, w)\<rparr>"


end
