(* ===== verification/Tc_Program.thy ===== *)
theory Tc_Program
  imports Cmdline_Reading
begin

text \<open>
  The program \<open>tc\<close>, as its manuals \<open>tc(8)\<close> and \<open>tc-flower(8)\<close> describe it: what a list of
  arguments asks for, what filters a device has, what a command does to them and how they are
  listed. It is written in terms of the manuals (addresses, prefix lengths, numbers and names), and
  not of the functions of the driver: these are compared with it at the end. The part of the
  language that is covered is the one for flower filters on the ingress qdisc; other arguments
  are read as nothing.
\<close>

section \<open>Filters of a device\<close>

text \<open>
  What a flower filter matches and does. A destination is a network: the bytes of its address,
  without host bits, and its prefix length. The actions are the controls of \<open>gact\<close> actions;
  \<open>tf_other\<close> stands for keys outside the language, which a filter of somebody else may have.
\<close>

record Flower =
  tf_protocol :: string
  tf_pref :: u16
  tf_chain :: u32
  tf_vlan_ethtype :: "string option"
  tf_ip_proto :: "string option"
  tf_dst_ip :: "(u8 list \<times> nat) option"
  tf_dst_port :: "u16 option"
  tf_actions :: "string list"
  tf_other :: nat

text \<open>An installed filter has a handle; it is identified by protocol, chain, preference and handle.\<close>

type_synonym installed = "u32 \<times> Flower"

definition tc_id :: "installed \<Rightarrow> string \<times> u32 \<times> u16 \<times> u32" where
  "tc_id x = (tf_protocol (snd x), tf_chain (snd x), tf_pref (snd x), fst x)"

section \<open>Arguments\<close>

text \<open>Decimal numbers of the width of a field.\<close>

definition decimal :: "string \<Rightarrow> nat option" where
  "decimal s = (if s \<noteq> [] \<and> list_all is_dec_digit s then Some (digits_value 10 s) else None)"

definition tc_number :: "string \<Rightarrow> 'l::len word option" where
  "tc_number s =
     (case decimal s of None \<Rightarrow> None | Some n \<Rightarrow> if n < 2 ^ LENGTH('l) then Some (of_nat n) else None)"

text \<open>\<open>PREFIX\<close>: an IPv4 or IPv6 address, and after a slash the length of the prefix.\<close>

definition tc_net :: "u8 list \<Rightarrow> string \<Rightarrow> (u8 list \<times> nat) option" where
  "tc_net bs rest =
     (let bits = 8 * length bs in
      case (if rest = [] then Some bits else decimal (tl rest)) of
        None \<Rightarrow> None
      | Some k \<Rightarrow> if k \<le> bits then Some (map2 (AND) bs (CIDRMask k bits), k) else None)"

definition tc_prefix :: "string \<Rightarrow> (u8 list \<times> nat) option" where
  "tc_prefix s =
     (let addr = takeWhile (\<lambda>c. c \<noteq> CHR ''/'') s; rest = dropWhile (\<lambda>c. c \<noteq> CHR ''/'') s in
      case parseIPv4 addr of
        Some bs \<Rightarrow> tc_net bs rest
      | None \<Rightarrow> (case parseIPv6 addr of None \<Rightarrow> None | Some bs \<Rightarrow> tc_net bs rest))"

text \<open>
  \<open>protocol PROTO\<close>, \<open>handle HANDLE\<close>, \<open>chain INDEX\<close> and \<open>pref PRIO\<close> in any order, then the kind of
  the filter; the words after it are the options of the kind.
\<close>

record TcAttrs =
  ta_protocol :: "string option"
  ta_handle :: "u32 option"
  ta_chain :: "u32 option"
  ta_pref :: "u16 option"

definition no_attrs :: TcAttrs where
  "no_attrs = \<lparr>ta_protocol = None, ta_handle = None, ta_chain = None, ta_pref = None\<rparr>"

fun parse_attrs :: "string list \<Rightarrow> TcAttrs \<Rightarrow> (TcAttrs \<times> string list) option" where
  "parse_attrs [] a = None"
| "parse_attrs [k] a = (if k = ''flower'' then Some (a, []) else None)"
| "parse_attrs (k # v # rest) a =
     (if k = ''flower'' then Some (a, v # rest)
      else if k = ''protocol'' then parse_attrs rest (a\<lparr>ta_protocol := Some v\<rparr>)
      else if k = ''handle'' then
        (case tc_number v of None \<Rightarrow> None | Some n \<Rightarrow> parse_attrs rest (a\<lparr>ta_handle := Some n\<rparr>))
      else if k = ''chain'' then
        (case tc_number v of None \<Rightarrow> None | Some n \<Rightarrow> parse_attrs rest (a\<lparr>ta_chain := Some n\<rparr>))
      else if k = ''pref'' then
        (case tc_number v of None \<Rightarrow> None | Some n \<Rightarrow> parse_attrs rest (a\<lparr>ta_pref := Some n\<rparr>))
      else None)"

text \<open>The match keys of flower and its actions.\<close>

fun parse_keys :: "string list \<Rightarrow> Flower \<Rightarrow> Flower option" where
  "parse_keys [] fl = Some fl"
| "parse_keys [k] fl = None"
| "parse_keys (k # v # rest) fl =
     (if k = ''vlan_ethtype'' then
        (if v \<in> {''ip'', ''ipv6''} then parse_keys rest (fl\<lparr>tf_vlan_ethtype := Some v\<rparr>) else None)
      else if k = ''ip_proto'' then
        (if v \<in> {''tcp'', ''udp''} then parse_keys rest (fl\<lparr>tf_ip_proto := Some v\<rparr>) else None)
      else if k = ''dst_ip'' then
        (case tc_prefix v of None \<Rightarrow> None | Some d \<Rightarrow> parse_keys rest (fl\<lparr>tf_dst_ip := Some d\<rparr>))
      else if k = ''dst_port'' then
        (case tc_number v of None \<Rightarrow> None | Some n \<Rightarrow> parse_keys rest (fl\<lparr>tf_dst_port := Some n\<rparr>))
      else if k = ''action'' \<and> v = ''gact'' then
        (case rest of [] \<Rightarrow> None | c # rest' \<Rightarrow> parse_keys rest' (fl\<lparr>tf_actions := tf_actions fl @ [c]\<rparr>))
      else None)"

section \<open>Commands\<close>

datatype tc_command =
    QdiscList
  | QdiscAdd
  | FilterList
  | FilterAdd "u32 option" Flower
  | FilterDel TcAttrs
  | ChainList
  | ChainDel u32

definition tc_protocols :: "string set" where
  "tc_protocols = {''ip'', ''ipv6'', ''802.1q'', ''all''}"

text \<open>A new filter needs a protocol and a preference; without a chain it goes to chain 0.\<close>

definition parse_add :: "string list \<Rightarrow> tc_command option" where
  "parse_add opts =
     (case parse_attrs opts no_attrs of
        None \<Rightarrow> None
      | Some (a, keys) \<Rightarrow>
          (case (ta_protocol a, ta_pref a) of
             (Some proto, Some pref) \<Rightarrow>
               if proto \<notin> tc_protocols \<or> pref = 0 then None
               else map_option (FilterAdd (ta_handle a)) (parse_keys keys
                 \<lparr>tf_protocol = proto, tf_pref = pref,
                  tf_chain = (case ta_chain a of None \<Rightarrow> 0 | Some c \<Rightarrow> c), tf_vlan_ethtype = None,
                  tf_ip_proto = None, tf_dst_ip = None, tf_dst_port = None, tf_actions = [],
                  tf_other = 0\<rparr>)
           | _ \<Rightarrow> None))"

definition parse_filter :: "string \<Rightarrow> string list \<Rightarrow> tc_command option" where
  "parse_filter verb opts =
     (if verb = ''list'' then (if opts = [] then Some FilterList else None)
      else if verb = ''add'' then parse_add opts
      else if verb = ''del'' then
        (case parse_attrs opts no_attrs of Some (a, []) \<Rightarrow> Some (FilterDel a) | _ \<Rightarrow> None)
      else None)"

definition parse_chain :: "string \<Rightarrow> string list \<Rightarrow> tc_command option" where
  "parse_chain verb opts =
     (if verb = ''list'' then (if opts = [] then Some ChainList else None)
      else if verb = ''del'' then
        (case opts of [k, v] \<Rightarrow> if k = ''chain'' then map_option ChainDel (tc_number v) else None | _ \<Rightarrow> None)
      else None)"

text \<open>\<open>tc -json OBJECT COMMAND dev DEV [ingress] ...\<close>\<close>

definition parse_tc :: "string list \<Rightarrow> (string \<times> tc_command) option" where
  "parse_tc args =
     (case args of
        opt # obj # verb # kw # dev # rest \<Rightarrow>
          if opt \<noteq> ''-json'' \<or> kw \<noteq> ''dev'' then None
          else if obj = ''qdisc'' then
            (if verb = ''list'' \<and> rest = [] then Some (dev, QdiscList)
             else if verb = ''add'' \<and> rest = [''ingress''] then Some (dev, QdiscAdd) else None)
          else
            (case rest of
               [] \<Rightarrow> None
             | parent # opts \<Rightarrow>
                 if parent \<noteq> ''ingress'' then None
                 else if obj = ''filter'' then map_option (Pair dev) (parse_filter verb opts)
                 else if obj = ''chain'' then map_option (Pair dev) (parse_chain verb opts)
                 else None)
      | _ \<Rightarrow> None)"

section \<open>What commands do\<close>

text \<open>The filters a delete command names: the given attributes, in chain 0 if none is given.\<close>

definition named_by :: "TcAttrs \<Rightarrow> installed \<Rightarrow> bool" where
  "named_by a x \<longleftrightarrow>
     tf_chain (snd x) = (case ta_chain a of None \<Rightarrow> 0 | Some c \<Rightarrow> c) \<and>
     (case ta_protocol a of None \<Rightarrow> True | Some p \<Rightarrow> tf_protocol (snd x) = p) \<and>
     (case ta_pref a of None \<Rightarrow> True | Some p \<Rightarrow> tf_pref (snd x) = p) \<and>
     (case ta_handle a of None \<Rightarrow> True | Some h \<Rightarrow> h = 0 \<or> fst x = h)"

text \<open>
  The filters of a device before and after a command that succeeds: a new filter gets the handle
  it asks for, or one of the kernel's choice, under an identity that is not in use.
\<close>

definition tc_effect :: "tc_command \<Rightarrow> installed set \<Rightarrow> installed set \<Rightarrow> bool" where
  "tc_effect cmd S S' \<longleftrightarrow>
     (case cmd of
        FilterAdd h fl \<Rightarrow> \<exists>h'. h \<in> {None, Some h'} \<and> tc_id (h', fl) \<notin> tc_id ` S \<and> S' = insert (h', fl) S
      | FilterDel a \<Rightarrow> S' = {x \<in> S. \<not> named_by a x}
      | ChainDel n \<Rightarrow> S' = {x \<in> S. tf_chain (snd x) \<noteq> n}
      | _ \<Rightarrow> S' = S)"

section \<open>Listings\<close>

text \<open>
  An object of the output prints an installed filter: its names in any case, its numbers, and its
  destination in any text that denotes the network.
\<close>

definition prints :: "cFilter \<Rightarrow> installed \<Rightarrow> bool" where
  "prints c x \<longleftrightarrow>
     (case (x, cf_Options c) of
        ((h, fl), Some opts) \<Rightarrow>
          cf_Kind c = ''flower'' \<and> to_lower (cf_Protocol c) = tf_protocol fl \<and> cf_Priority c = tf_pref fl \<and>
          cf_Chain c = tf_chain fl \<and> co_Handle opts = h \<and>
          map_option to_lower (ck_VlanEthType (co_Keys opts)) = tf_vlan_ethtype fl \<and>
          map_option to_lower (ck_IPProto (co_Keys opts)) = tf_ip_proto fl \<and>
          map_option tc_prefix (ck_DstIP (co_Keys opts)) = map_option Some (tf_dst_ip fl) \<and>
          ck_DstPort (co_Keys opts) = tf_dst_port fl \<and>
          map ca_Kind (co_Actions opts) = map (\<lambda>_. ''gact'') (tf_actions fl) \<and>
          map (\<lambda>a. cca_Type (ca_ControlAction a)) (co_Actions opts) = tf_actions fl
      | (_, None) \<Rightarrow> False)"

text \<open>A listing has an object for every filter, and objects without options (the heads of the lists).\<close>

definition lists_filters :: "string \<Rightarrow> installed set \<Rightarrow> bool" where
  "lists_filters out S \<longleftrightarrow>
     (\<exists>cs. unmarshal_slice zero_cFilter decode_cFilter out = Inr cs \<and>
        (\<forall>x\<in>S. \<exists>c\<in>set cs. prints c x) \<and>
        (\<forall>c\<in>set cs. cf_Options c \<noteq> None \<longrightarrow> (\<exists>x\<in>S. prints c x)))"

definition lists_chains :: "string \<Rightarrow> installed set \<Rightarrow> bool" where
  "lists_chains out S \<longleftrightarrow>
     (\<exists>cs. unmarshal_slice zero_cChain decode_cChain out = Inr cs \<and> (tf_chain \<circ> snd) ` S \<subseteq> cc_Chain ` set cs)"

text \<open>
  The filters a device is expected to have: the protocols of the language, a preference and a
  handle, which the kernel gives, and no IPv4 address in the form of an IPv6 one.
\<close>

definition expected :: "installed \<Rightarrow> bool" where
  "expected x \<longleftrightarrow>
     tf_protocol (snd x) \<in> tc_protocols \<and> tf_pref (snd x) \<noteq> 0 \<and> fst x \<noteq> 0 \<and>
     (case tf_dst_ip (snd x) of None \<Rightarrow> True | Some (bs, k) \<Rightarrow> length bs = 16 \<longrightarrow> To4 bs = None)"

end
