(* ===== verification/Tc_Arguments.thy ===== *)
theory Tc_Arguments
  imports Tc_Program
begin

text \<open>
  The driver against the language of \<open>tc\<close>: the text of a destination, in the arguments and in
  listings, and what the arguments of the add, delete and chain commands ask for. The property at
  the end says that the commands the driver runs ask for exactly the filter it is given.
\<close>

section \<open>Addresses and prefixes\<close>

text \<open>A text without the two characters that tell the address families apart.\<close>

definition plain :: "string \<Rightarrow> bool" where
  "plain s \<longleftrightarrow> CHR ''.'' \<notin> set s \<and> CHR '':'' \<notin> set s"

lemma ParseIP_at_plain: "plain xs \<Longrightarrow> ParseIP_at s (xs @ ys) = ParseIP_at s ys"
  by (induction xs) (auto simp: plain_def)

lemma digits_plain: "plain (takeWhile is_dec_digit t)" "plain (takeWhile is_hex_digit t)"
proof -
  have "\<not> is_dec_digit CHR ''.''" "\<not> is_dec_digit CHR '':''" "\<not> is_hex_digit CHR ''.''" "\<not> is_hex_digit CHR '':''"
    by (simp_all add: is_dec_digit_def is_hex_digit_def digit_val_def)
  then show "plain (takeWhile is_dec_digit t)" "plain (takeWhile is_hex_digit t)"
    unfolding plain_def using set_takeWhileD by metis+
qed

lemma drop_digits: "drop (length (takeWhile P t)) t = dropWhile P t"
  by (metis append_eq_conv_conj takeWhile_dropWhile_id)

lemma number_split:
  assumes "leading_number b P t = Some (n, c)"
  shows "t = takeWhile P t @ drop c t" and "c = length (takeWhile P t)" and "c \<le> length t"
  using assms drop_digits [of P t] length_takeWhile_le [of P t]
  by (auto simp: leading_number_def Let_def split: if_splits)

lemma ParseIP_v4:
  assumes "parseIPv4 t = Some bs"
  shows "ParseIP t = IPv4 bs"
proof -
  obtain n c where n: "dtoi t = Some (n, c)" and rest: "drop c t \<noteq> []" "hd (drop c t) = CHR ''.''"
    using assms by (auto simp: parseIPv4_def numeral_eq_Suc split: if_splits option.splits)
  note t = number_split(1) [OF n [unfolded dtoi_def]]
  obtain ys where "drop c t = CHR ''.'' # ys" using rest by (cases "drop c t") auto
  then have "ParseIP_at t t = IPv4 bs"
    using t assms ParseIP_at_plain [OF digits_plain(1), of t t "drop c t"] by simp
  then show ?thesis by (simp add: ParseIP_def)
qed

lemma v6_groups_colon:
  assumes "v6_expand (v6_groups (Suc k) [] None t) = Some bs"
  shows "\<exists>xs ys. t = xs @ CHR '':'' # ys \<and> plain xs"
proof -
  obtain n c where n: "xtoi t = Some (n, c)"
    using assms by (cases "xtoi t") (auto simp: v6_expand_def)
  note t = number_split [OF n [unfolded xtoi_def]]
  have "drop c t \<noteq> [] \<and> hd (drop c t) = CHR '':''"
    using assms n t(3) by (auto simp: v6_expand_def Let_def hd_drop_conv_nth split: if_splits option.splits)
  then obtain ys where "drop c t = CHR '':'' # ys" by (cases "drop c t") auto
  then show ?thesis using t(1) digits_plain(2) by metis
qed

lemma v6_first_colon:
  assumes "parseIPv6 t = Some bs"
  shows "\<exists>xs ys. t = xs @ CHR '':'' # ys \<and> plain xs"
proof (cases "take 2 t = ''::''")
  case True
  then obtain ys where "t = CHR '':'' # ys" by (cases t) auto
  then show ?thesis by (intro exI [of _ "[]"] exI [of _ ys]) (simp add: plain_def)
next
  case False
  have "(8 :: nat) = Suc 7" by simp
  then show ?thesis using assms False v6_groups_colon [of 7 t bs] by (simp add: parseIPv6_def)
qed

lemma ParseIP_v6_any:
  assumes "parseIPv6 t = Some bs"
  shows "ParseIP t = bs"
proof -
  obtain xs ys where t: "t = xs @ CHR '':'' # ys" "plain xs" using v6_first_colon [OF assms] by blast
  have "ParseIP_at t (xs @ CHR '':'' # ys) = bs"
    unfolding ParseIP_at_plain [OF t(2)] using assms by simp
  then show ?thesis by (simp add: ParseIP_def t(1) [symmetric])
qed

definition net_of :: "u8 list \<times> nat \<Rightarrow> IPNet" where
  "net_of d = \<lparr>net_IP = fst d, net_Mask = CIDRMask (snd d) (8 * length (fst d))\<rparr>"

lemma decimal_dtoi:
  assumes "decimal s = Some k" and "k < 16777215"
  shows "dtoi s = Some (k, length s)"
proof -
  have s: "list_all is_dec_digit s" "s \<noteq> []" "k = digits_value 10 s"
    using assms(1) by (simp_all add: decimal_def split: if_splits)
  have all: "takeWhile is_dec_digit s = s"
    using s(1) by (simp add: takeWhile_eq_all_conv list_all_iff)
  show ?thesis using assms(2) s(2,3) unfolding dtoi_def leading_number_def Let_def all by simp
qed

lemma ParseCIDR_read:
  assumes "CHR ''/'' \<notin> set a" and "decimal m = Some k" and "k \<le> bits"
    and "parseIPv4 a = Some bs \<and> bits = 32 \<or> parseIPv4 a = None \<and> parseIPv6 a = Some bs \<and> bits = 128"
  shows "ParseCIDR (a @ CHR ''/'' # m) = Inr (net_of (map2 (AND) bs (CIDRMask k bits), k))"
proof -
  have len: "8 * length bs = bits" "bits = 32 \<or> bits = 128"
    using assms(4) parseIPv4_length parseIPv6_length by auto
  have mask: "length (map2 (AND) bs (CIDRMask k bits)) = length bs"
    using len assms(3) length_CIDRMask [of bits k] by auto
  have dt: "dtoi m = Some (k, length m)" using assms(2,3) len(2) by (intro decimal_dtoi) auto
  show ?thesis
    using assms(4)
  proof
    assume "parseIPv4 a = Some bs \<and> bits = 32"
    then show ?thesis
      using assms(1,3) dt len mask parseIPv4_length [of a bs]
      by (simp add: ParseCIDR_def takeWhile_slash Let_def net_of_def IP_Mask_4 not_less)
  next
    assume "parseIPv4 a = None \<and> parseIPv6 a = Some bs \<and> bits = 128"
    then show ?thesis
      using assms(1,3) dt len mask parseIPv6_length [of a bs]
      by (simp add: ParseCIDR_def takeWhile_slash Let_def net_of_def IP_Mask_16 not_less)
  qed
qed

lemma tc_prefix_parts:
  assumes "tc_prefix t = Some d"
  obtains a rest bs k bits where "t = a @ rest" "CHR ''/'' \<notin> set a" "rest = [] \<or> hd rest = CHR ''/''"
    "parseIPv4 a = Some bs \<and> bits = 32 \<or> parseIPv4 a = None \<and> parseIPv6 a = Some bs \<and> bits = 128"
    "(if rest = [] then Some bits else decimal (tl rest)) = Some k" "k \<le> bits"
    "d = (map2 (AND) bs (CIDRMask k bits), k)"
proof -
  let ?a = "takeWhile (\<lambda>c. c \<noteq> CHR ''/'') t" and ?r = "dropWhile (\<lambda>c. c \<noteq> CHR ''/'') t"
  have t: "t = ?a @ ?r" by simp
  have a: "CHR ''/'' \<notin> set ?a" by (auto dest: set_takeWhileD)
  have r: "?r = [] \<or> hd ?r = CHR ''/''" using hd_dropWhile [of "\<lambda>c. c \<noteq> CHR ''/''" t] by auto
  obtain bs where bs: "tc_net bs ?r = Some d"
      "parseIPv4 ?a = Some bs \<or> parseIPv4 ?a = None \<and> parseIPv6 ?a = Some bs"
    using assms by (auto simp: tc_prefix_def Let_def split: option.splits)
  then have len: "parseIPv4 ?a = Some bs \<and> 8 * length bs = 32 \<or>
      parseIPv4 ?a = None \<and> parseIPv6 ?a = Some bs \<and> 8 * length bs = 128"
    using parseIPv4_length [of ?a bs] parseIPv6_length [of ?a bs] by auto
  obtain k where k: "(if ?r = [] then Some (8 * length bs) else decimal (tl ?r)) = Some k" "k \<le> 8 * length bs"
      "d = (map2 (AND) bs (CIDRMask k (8 * length bs)), k)"
    using bs(1) by (auto simp: tc_net_def Let_def split: option.splits if_splits)
  show thesis by (rule that [OF t a r len k])
qed

lemma decimal_FormatUint: "decimal (FormatUint k) = Some k"
  using all_dec [of k] digits_value_show [of 10 k] by (simp add: decimal_def FormatUint_def)

lemma net_of_length: "k \<le> bits \<Longrightarrow> bits = 8 * length bs \<Longrightarrow> bits = 32 \<or> bits = 128 \<Longrightarrow>
    length (map2 (AND) bs (CIDRMask k bits)) = length bs"
  using length_CIDRMask [of bits k] by auto

text \<open>What the driver makes of a printed destination.\<close>

lemma IPToIPNet_printed:
  assumes "tc_prefix t = Some d" and "length (fst d) = 16 \<longrightarrow> To4 (fst d) = None"
  shows "IPToIPNet t = Inr (net_of d)"
proof -
  obtain a rest bs k bits where t: "t = a @ rest"
    and a: "CHR ''/'' \<notin> set a" and r: "rest = [] \<or> hd rest = CHR ''/''"
    and bs: "parseIPv4 a = Some bs \<and> bits = 32 \<or> parseIPv4 a = None \<and> parseIPv6 a = Some bs \<and> bits = 128"
    and k: "(if rest = [] then Some bits else decimal (tl rest)) = Some k" "k \<le> bits"
    and d: "d = (map2 (AND) bs (CIDRMask k bits), k)"
    by (rule tc_prefix_parts [OF assms(1)])
  show ?thesis
  proof (cases "rest = []")
    case False
    then obtain m where m: "rest = CHR ''/'' # m" using r by (cases rest) auto
    then show ?thesis
      using ParseCIDR_read [OF a _ k(2) bs, of m] k(1) d by (simp add: IPToIPNet_def t)
  next
    case True
    then have k': "k = bits" using k(1) by simp
    have masked: "map2 (AND) bs (CIDRMask bits bits) = bs"
      using bs parseIPv4_length [of a bs] parseIPv6_length [of a bs] mask_full [of bs] by (auto simp: CIDRMask_def)
    note read = ParseCIDR_read [OF a decimal_FormatUint _ bs, of bits]
    show ?thesis
      using bs
    proof
      assume v4: "parseIPv4 a = Some bs \<and> bits = 32"
      then have "ParseIP a = IPv4 bs" "length bs = 4" using ParseIP_v4 parseIPv4_length by auto
      moreover have "IPv4 bs \<noteq> []" by (simp add: IPv4_def v4InV6Prefix_def)
      ultimately show ?thesis
        using read v4 a True unfolding d k' t by (simp add: IPToIPNet_def full_lengths)
    next
      assume v6: "parseIPv4 a = None \<and> parseIPv6 a = Some bs \<and> bits = 128"
      then have "ParseIP a = bs" "length bs = 16" using ParseIP_v6_any parseIPv6_length by auto
      moreover have "To4 bs = None" using assms(2) masked \<open>length bs = 16\<close> by (simp add: d k')
      moreover have "bs \<noteq> []" using \<open>length bs = 16\<close> by auto
      ultimately show ?thesis
        using read v6 a True unfolding d k' t by (simp add: IPToIPNet_def full_lengths)
    qed
  qed
qed

section \<open>What the arguments of the driver ask for\<close>

definition net_meaning :: "IPNet \<Rightarrow> u8 list \<times> nat" where
  "net_meaning n =
     ((case To4 (net_IP n) of Some p \<Rightarrow> p | None \<Rightarrow> net_IP n),
      (case simpleMaskLength (net_Mask n) of Some k \<Rightarrow> k | None \<Rightarrow> 0))"

definition filter_meaning :: "FlowerFilter \<Rightarrow> Flower" where
  "filter_meaning f =
     (let a = ff_Attrs f in
      \<lparr>tf_protocol = fa_Protocol a, tf_pref = (case fa_Priority a of None \<Rightarrow> 0 | Some p \<Rightarrow> p),
       tf_chain = (case fa_Chain a of None \<Rightarrow> 0 | Some c \<Rightarrow> c),
       tf_vlan_ethtype = (case ff_Flower f of None \<Rightarrow> None | Some s \<Rightarrow> fs_VlanEthType s),
       tf_ip_proto = (case ff_Flower f of None \<Rightarrow> None | Some s \<Rightarrow> fs_IPProto s),
       tf_dst_ip = (case ff_Flower f of None \<Rightarrow> None | Some s \<Rightarrow> map_option net_meaning (fs_DstIP s)),
       tf_dst_port = (case ff_Flower f of None \<Rightarrow> None | Some s \<Rightarrow> fs_DstPort s),
       tf_actions = map controlAction (ff_Actions f), tf_other = 0\<rparr>)"

lemma no_slash_prefix:
  assumes "CHR ''/'' \<notin> set a"
  shows "takeWhile (\<lambda>c. c \<noteq> CHR ''/'') a = a" and "dropWhile (\<lambda>c. c \<noteq> CHR ''/'') a = []"
  using assms by (auto simp: takeWhile_eq_all_conv dropWhile_eq_Nil_conv)

lemma tc_prefix_printed:
  assumes "CHR ''/'' \<notin> set a" and "k \<le> bits" and "8 * length bs = bits"
    and "parseIPv4 a = Some bs \<or> parseIPv4 a = None \<and> parseIPv6 a = Some bs"
    and "map2 (AND) bs (CIDRMask k bits) = bs"
  shows "tc_prefix (if k = bits then a else a @ ''/'' @ FormatUint k) = Some (bs, k)"
  using assms
  by (auto simp: tc_prefix_def takeWhile_slash no_slash_prefix tc_net_def decimal_FormatUint Let_def)

lemma DstIP_arg_meaning:
  assumes "text_net n"
  shows "tc_prefix (DstIP_arg n) = Some (net_meaning n)" and "norm_net (net_of (net_meaning n)) = norm_net n"
proof -
  have both: "tc_prefix (DstIP_arg n) = Some (net_meaning n) \<and> norm_net (net_of (net_meaning n)) = norm_net n"
  proof (cases "To4 (net_IP n)")
    case (Some p)
    then obtain k where n: "k \<le> 32" "net_Mask n = CIDRMask k 32" "map2 (AND) p (CIDRMask k 32) = p"
      using assms by (auto simp: text_net_def)
    have p: "length p = 4" using Some by (rule length_To4)
    have "CHR ''/'' \<notin> set (dotted p)" by (rule dotted_chars) simp_all
    note read = tc_prefix_printed [OF this n(1), of p]
    have "IP_String p = IP_String (net_IP n)"
      using p Some by (auto simp: IP_String_def To4_def split: if_splits)
    then show ?thesis
      using read parseIPv4_dotted [OF p] p n DstIP_arg_v4 [OF Some n(2,1)] Some
      by (simp add: net_meaning_def simpleMaskLength_CIDRMask norm_net_def net_of_def)
  next
    case None
    then obtain k where n: "length (net_IP n) = 16" "k \<le> 128" "net_Mask n = CIDRMask k 128"
        "map2 (AND) (net_IP n) (CIDRMask k 128) = net_IP n"
      using assms by (auto simp: text_net_def)
    let ?s = "IPv6_String (words16 (net_IP n))"
    have shown: "parseIPv6 ?s = Some (net_IP n)" "CHR ''/'' \<notin> set ?s" "CHR ''.'' \<notin> set ?s"
      using v6_text_String [OF n(1)] unfolding v6_text_def by blast+
    have "parseIPv4 ?s = None"
    proof (rule ccontr)
      assume "parseIPv4 ?s \<noteq> None"
      then obtain bs where "parseIPv4 ?s = Some bs" by blast
      with shown(3) show False using parseIPv4_dot by blast
    qed
    note v6 = shown(1,2) this
    show ?thesis
      using tc_prefix_printed [OF v6(2) n(2), of "net_IP n"] v6 n DstIP_arg_v6 [OF None n(1,3,2)] None
      by (simp add: net_meaning_def simpleMaskLength_CIDRMask norm_net_def net_of_def Let_def)
  qed
  then show "tc_prefix (DstIP_arg n) = Some (net_meaning n)" and "norm_net (net_of (net_meaning n)) = norm_net n"
    by simp_all
qed

lemma tc_number_shown: "tc_number (FormatUint (unat w)) = Some w" for w :: "'l::len word"
  using unsigned_less [of w, where ?'a = nat] by (simp add: tc_number_def decimal_FormatUint)

lemma parse_attrs_arg:
  "parse_attrs (arg ''protocol'' id p @ xs) a =
     parse_attrs xs (a\<lparr>ta_protocol := (if p = None then ta_protocol a else p)\<rparr>)"
  "parse_attrs (arg ''handle'' (\<lambda>x. FormatUint (unat x)) h @ xs) a =
     parse_attrs xs (a\<lparr>ta_handle := (if h = None then ta_handle a else h)\<rparr>)"
  "parse_attrs (arg ''chain'' (\<lambda>x. FormatUint (unat x)) c @ xs) a =
     parse_attrs xs (a\<lparr>ta_chain := (if c = None then ta_chain a else c)\<rparr>)"
  "parse_attrs (arg ''pref'' (\<lambda>x. FormatUint (unat x)) q @ xs) a =
     parse_attrs xs (a\<lparr>ta_pref := (if q = None then ta_pref a else q)\<rparr>)"
  "parse_attrs (''flower'' # xs) a = Some (a, xs)"
  by (cases p, simp_all add: arg_def, cases h, simp_all add: tc_number_shown, cases c, simp_all add: tc_number_shown,
      cases q, simp_all add: tc_number_shown, cases xs, simp_all)

lemma parse_attrs_args:
  assumes "fa_Kind a = FilterKindFlower"
  shows "parse_attrs (FilterAttrs_GenCmdLineArgs a @ xs) no_attrs =
    Some (\<lparr>ta_protocol = (if fa_Protocol a = [] then None else Some (fa_Protocol a)), ta_handle = fa_Handle a,
      ta_chain = fa_Chain a, ta_pref = fa_Priority a\<rparr>, xs)"
  using assms by (simp add: attrs_args parse_attrs_arg no_attrs_def go_consts)

lemma parse_keys_arg:
  "\<forall>v. d = Some v \<longrightarrow> v \<in> {''ip'', ''ipv6''} \<Longrightarrow>
    parse_keys (arg ''vlan_ethtype'' id d @ xs) fl =
      parse_keys xs (fl\<lparr>tf_vlan_ethtype := (if d = None then tf_vlan_ethtype fl else d)\<rparr>)"
  "\<forall>v. p = Some v \<longrightarrow> v \<in> {''tcp'', ''udp''} \<Longrightarrow>
    parse_keys (arg ''ip_proto'' id p @ xs) fl =
      parse_keys xs (fl\<lparr>tf_ip_proto := (if p = None then tf_ip_proto fl else p)\<rparr>)"
  "\<forall>n. i = Some n \<longrightarrow> text_net n \<Longrightarrow>
    parse_keys (arg ''dst_ip'' DstIP_arg i @ xs) fl =
      parse_keys xs (fl\<lparr>tf_dst_ip := (if i = None then tf_dst_ip fl else map_option net_meaning i)\<rparr>)"
  "parse_keys (arg ''dst_port'' (\<lambda>x. FormatUint (unat x)) q @ xs) fl =
      parse_keys xs (fl\<lparr>tf_dst_port := (if q = None then tf_dst_port fl else q)\<rparr>)"
  by (cases d, simp_all add: arg_def, cases p, simp_all, cases i, simp_all add: DstIP_arg_meaning,
      cases q, simp_all add: tc_number_shown)

lemma parse_actions:
  "parse_keys (concat (map GenericAction_GenCmdLineArgs as)) fl =
    Some (fl\<lparr>tf_actions := tf_actions fl @ map controlAction as\<rparr>)"
  by (induction as arbitrary: fl) (simp_all add: GenericAction_GenCmdLineArgs_def go_consts)

lemma parse_spec_args:
  assumes "\<forall>v. fs_VlanEthType s = Some v \<longrightarrow> v \<in> {''ip'', ''ipv6''}"
    and "\<forall>v. fs_IPProto s = Some v \<longrightarrow> v \<in> {''tcp'', ''udp''}" and "\<forall>n. fs_DstIP s = Some n \<longrightarrow> text_net n"
    and "tf_vlan_ethtype fl = None" "tf_ip_proto fl = None" "tf_dst_ip fl = None" "tf_dst_port fl = None"
  shows "parse_keys (FlowerSpec_GenCmdLineArgs (Some s) @ concat (map GenericAction_GenCmdLineArgs as)) fl =
    Some (fl\<lparr>tf_vlan_ethtype := fs_VlanEthType s, tf_ip_proto := fs_IPProto s,
      tf_dst_ip := map_option net_meaning (fs_DstIP s), tf_dst_port := fs_DstPort s,
      tf_actions := tf_actions fl @ map controlAction as\<rparr>)"
proof -
  have "(if fs_VlanEthType s = None then None else fs_VlanEthType s) = fs_VlanEthType s"
    "(if fs_IPProto s = None then None else fs_IPProto s) = fs_IPProto s"
    "(if fs_DstIP s = None then None else map_option net_meaning (fs_DstIP s)) = map_option net_meaning (fs_DstIP s)"
    "(if fs_DstPort s = None then None else fs_DstPort s) = fs_DstPort s" by simp_all
  then show ?thesis
    unfolding spec_args append_assoc FlowerKeyVlanEthType_def FlowerKeyIPProto_def FlowerKeyDstIP_def FlowerKeyDstPort_def
    by (simp add: parse_keys_arg(1) [OF assms(1)] parse_keys_arg(2) [OF assms(2)] parse_keys_arg(3) [OF assms(3)]
        parse_keys_arg(4) assms(4-7) parse_actions)
qed

text \<open>Adding a filter that has a text asks for the filter.\<close>

lemma parse_add_filter:
  assumes "cmd_expressible f" and "fa_Priority (ff_Attrs f) = Some p" and "p \<noteq> 0"
  shows "parse_add (FlowerFilter_GenCmdLineArgs f) = Some (FilterAdd (fa_Handle (ff_Attrs f)) (filter_meaning f))"
proof -
  obtain s where s: "ff_Flower f = Some s" "fs_VlanEthType s \<in> {None, Some FlowerVlanEthTypeIPv4, Some FlowerVlanEthTypeIPv6}"
      "fs_IPProto s \<in> {None, Some FlowerIPProtoTCP, Some FlowerIPProtoUDP}" "\<forall>n. fs_DstIP s = Some n \<longrightarrow> text_net n"
    and kind: "fa_Kind (ff_Attrs f) = FilterKindFlower"
    and proto: "fa_Protocol (ff_Attrs f) \<in> {FilterProtocolIPv4, FilterProtocolIPv6, FilterProtocol8021Q, FilterProtocolAll}"
    using assms(1) unfolding cmd_expressible_def by blast
  have "fa_Protocol (ff_Attrs f) \<noteq> []" "fa_Protocol (ff_Attrs f) \<in> tc_protocols"
    using proto by (auto simp: go_consts tc_protocols_def)
  moreover have "\<forall>v. fs_VlanEthType s = Some v \<longrightarrow> v \<in> {''ip'', ''ipv6''}" "\<forall>v. fs_IPProto s = Some v \<longrightarrow> v \<in> {''tcp'', ''udp''}"
    using s(2,3) by (auto simp: go_consts)
  ultimately show ?thesis
    using parse_attrs_args [OF kind] assms(2,3) s(1,4)
    by (simp add: parse_add_def FlowerFilter_GenCmdLineArgs_def parse_spec_args filter_meaning_def Let_def)
qed

section \<open>The commands of the driver\<close>

definition on_dev :: "string \<Rightarrow> string \<Rightarrow> string \<Rightarrow> string list" where
  "on_dev obj verb dev = [''-json'', obj, verb, ''dev'', dev]"

lemma parse_tc_commands:
  "parse_tc (on_dev ''qdisc'' ''list'' dev) = Some (dev, QdiscList)"
  "parse_tc (on_dev ''qdisc'' ''add'' dev @ [QDiscIngressType]) = Some (dev, QdiscAdd)"
  "parse_tc (on_dev ''filter'' ''list'' dev @ [QDiscIngressType]) = Some (dev, FilterList)"
  "parse_tc (on_dev ''chain'' ''list'' dev @ [QDiscIngressType]) = Some (dev, ChainList)"
  "parse_tc (on_dev ''filter'' ''add'' dev @ QDiscIngressType # opts) = map_option (Pair dev) (parse_add opts)"
  "parse_tc (on_dev ''filter'' ''del'' dev @ QDiscIngressType # opts) = map_option (Pair dev) (parse_filter ''del'' opts)"
  "parse_tc (on_dev ''chain'' ''del'' dev @ QDiscIngressType # opts) = map_option (Pair dev) (parse_chain ''del'' opts)"
  by (simp_all add: parse_tc_def on_dev_def parse_filter_def parse_chain_def go_consts)

definition attrs_meaning :: "FilterAttrs \<Rightarrow> TcAttrs" where
  "attrs_meaning a =
     \<lparr>ta_protocol = (if fa_Protocol a = [] then None else Some (fa_Protocol a)), ta_handle = fa_Handle a,
      ta_chain = fa_Chain a, ta_pref = fa_Priority a\<rparr>"

lemma parse_filter_del:
  "fa_Kind a = FilterKindFlower \<Longrightarrow> parse_filter ''del'' (FilterAttrs_GenCmdLineArgs a) = Some (FilterDel (attrs_meaning a))"
  using parse_attrs_args [of a "[]"] by (simp add: parse_filter_def attrs_meaning_def)

lemma parse_chain_del:
  "parse_chain ''del'' (Chain_GenCmdLineArgs \<lparr>ch_Parent = None, ch_Chain = Some n\<rparr>) = Some (ChainDel n)"
  by (simp add: parse_chain_def Chain_GenCmdLineArgs_def tc_number_shown)

lemma ingress_args: "QDisc_GenCmdLineArgs ingress = [QDiscIngressType]"
  by (simp add: QDisc_GenCmdLineArgs_def builder_simps)

lemma runs:
  "execTcCmd (NewTcCmdLineImpl_obj dev exec) ([obj, verb, ''dev'', cl_netDev (NewTcCmdLineImpl_obj dev exec)] @ args) =
     Cmd_Output exec ''tc'' (on_dev obj verb dev @ args)"
  "execTcCmdNoOutput (NewTcCmdLineImpl_obj dev exec) ([obj, verb, ''dev'', cl_netDev (NewTcCmdLineImpl_obj dev exec)] @ args) =
     Cmd_Run exec ''tc'' (on_dev obj verb dev @ args)"
  by (simp_all add: execTcCmd_def execTcCmdNoOutput_def NewTcCmdLineImpl_obj_def on_dev_def)

text \<open>
  CX. The commands of the driver ask \<open>tc\<close>, by the grammar of its manuals, for what the driver is
  asked for: adding a filter that has a text and a preference runs one command, which adds to the
  ingress qdisc of the device a filter with its protocol, preference, chain, handle, match keys
  and actions; deleting flower attributes runs one command, which names the filters with these
  attributes; deleting a chain runs one that names the chain. A filter has a text when its names
  are the ones of the program and its destination is a prefix in its usual form
  (\<open>cmd_expressible\<close>).
\<close>

theorem commands_ask_for_filters:
  assumes "t = NewTcCmdLineImpl_obj dev exec"
  shows "(cmd_expressible f \<and> fa_Priority (ff_Attrs f) = Some p \<and> p \<noteq> 0 \<longrightarrow>
      (\<exists>args. Cl_FilterAdd t (QDisc_Build NewIngressQDiscBuilder) f = Cmd_Run exec ''tc'' args \<and>
        parse_tc args = Some (dev, FilterAdd (fa_Handle (ff_Attrs f)) (filter_meaning f)))) \<and>
    (fa_Kind a = FilterKindFlower \<longrightarrow>
      (\<exists>args. Cl_FilterDel t (QDisc_Build NewIngressQDiscBuilder) a = Cmd_Run exec ''tc'' args \<and>
        parse_tc args = Some (dev, FilterDel (attrs_meaning a)))) \<and>
    (\<exists>args. Cl_ChainDel t (QDisc_Build NewIngressQDiscBuilder) \<lparr>ch_Parent = None, ch_Chain = Some n\<rparr> =
        Cmd_Run exec ''tc'' args \<and> parse_tc args = Some (dev, ChainDel n))"
proof (intro conjI impI)
  let ?qd = "QDisc_Build NewIngressQDiscBuilder"
  note ops = Cl_FilterAdd_def Cl_FilterDel_def Cl_ChainDel_def
  show "\<exists>args. Cl_FilterAdd t ?qd f = Cmd_Run exec ''tc'' args \<and>
      parse_tc args = Some (dev, FilterAdd (fa_Handle (ff_Attrs f)) (filter_meaning f))"
    if "cmd_expressible f \<and> fa_Priority (ff_Attrs f) = Some p \<and> p \<noteq> 0"
    unfolding assms ops ingress_args append_assoc runs
    by (rule exI, rule conjI [OF refl]) (use that parse_add_filter in \<open>simp add: parse_tc_commands\<close>)
  show "\<exists>args. Cl_FilterDel t ?qd a = Cmd_Run exec ''tc'' args \<and> parse_tc args = Some (dev, FilterDel (attrs_meaning a))"
    if "fa_Kind a = FilterKindFlower"
    unfolding assms ops ingress_args append_assoc runs
    by (rule exI, rule conjI [OF refl]) (simp add: parse_tc_commands parse_filter_del [OF that])
  show "\<exists>args. Cl_ChainDel t ?qd \<lparr>ch_Parent = None, ch_Chain = Some n\<rparr> = Cmd_Run exec ''tc'' args \<and>
      parse_tc args = Some (dev, ChainDel n)"
    unfolding assms ops ingress_args append_assoc runs
    by (rule exI, rule conjI [OF refl]) (simp add: parse_tc_commands parse_chain_del)
qed

section \<open>Examples\<close>

definition ex_flower :: Flower where
  "ex_flower =
     \<lparr>tf_protocol = ''ip'', tf_pref = 200, tf_chain = 0, tf_vlan_ethtype = None, tf_ip_proto = Some ''tcp'',
      tf_dst_ip = Some ([10, 10, 10, 0], 24), tf_dst_port = Some 6666, tf_actions = [''pass''], tf_other = 0\<rparr>"

lemma ex_filter_meaning: "filter_meaning ex_cmd_filter = ex_flower"
  by code_simp

theorem commands_ask_for_filters_witness:
  "\<exists>args. Cl_FilterAdd (NewTcCmdLineImpl_obj ''eth3'' ex_tool) (QDisc_Build NewIngressQDiscBuilder) ex_cmd_filter =
      Cmd_Run ex_tool ''tc'' args \<and> parse_tc args = Some (''eth3'', FilterAdd None ex_flower)"
proof -
  have "cmd_expressible ex_cmd_filter \<and> fa_Priority (ff_Attrs ex_cmd_filter) = Some 200 \<and> (200 :: u16) \<noteq> 0"
    using ex_cmd_expressible by (simp add: ex_cmd_filter_def)
  from mp [OF conjunct1 [OF commands_ask_for_filters [OF refl, of ex_cmd_filter 200 "''eth3''" ex_tool]] this]
  show ?thesis by (simp add: ex_filter_meaning, simp add: ex_cmd_filter_def)
qed

end
