(* ===== verification/Cmdline_Contract.thy ===== *)
theory Cmdline_Contract
  imports Tc_Arguments
begin

text \<open>
  The command line driver under the actuator: the contract of the program \<open>tc\<close>, in terms of the
  language and the listings of \<open>Tc_Program\<close>, and the proof that the driver built on it keeps the
  contract of the interface \<open>TC\<close> for all filters that have a text.
\<close>

section \<open>Installed filters as filters of the program\<close>

text \<open>
  The filter object that stands for an installed filter. Names the program does not know are
  read as the empty one, and keys it does not look at are left out.
\<close>

definition known_name :: "string set \<Rightarrow> string \<Rightarrow> string" where
  "known_name names s = (if s \<in> names then s else [])"

definition as_filter :: "installed \<Rightarrow> FlowerFilter" where
  "as_filter x =
     (case x of (h, fl) \<Rightarrow>
        \<lparr>ff_Attrs = \<lparr>fa_Kind = ''flower'', fa_Protocol = tf_protocol fl, fa_Chain = Some (tf_chain fl),
           fa_Handle = Some h, fa_Priority = Some (tf_pref fl)\<rparr>,
         ff_Flower = Some \<lparr>fs_VlanEthType = map_option (known_name {''ip'', ''ipv6''}) (tf_vlan_ethtype fl),
           fs_IPProto = map_option (known_name {''tcp'', ''udp''}) (tf_ip_proto fl),
           fs_DstIP = map_option net_of (tf_dst_ip fl), fs_DstPort = tf_dst_port fl\<rparr>,
         ff_Actions = map NewGenericAction (tf_actions fl)\<rparr>)"

lemma as_filter_attrs:
  "ff_Attrs (as_filter x) = \<lparr>fa_Kind = FilterKindFlower, fa_Protocol = tf_protocol (snd x),
     fa_Chain = Some (tf_chain (snd x)), fa_Handle = Some (fst x), fa_Priority = Some (tf_pref (snd x))\<rparr>"
  by (simp add: as_filter_def FilterKindFlower_def split: prod.split)

lemma as_filter_ids: "ff_Attrs (as_filter x) = ff_Attrs (as_filter y) \<longleftrightarrow> tc_id x = tc_id y"
  by (auto simp: as_filter_attrs tc_id_def)

lemma chain_as_filter: "chain_no (as_filter x) = tf_chain (snd x)"
  by (simp add: chain_no_def as_filter_attrs)

text \<open>Reading an object that prints an installed filter.\<close>

lemma converted_names:
  "sToFlowerVlanEthType v = known_name {''ip'', ''ipv6''} (to_lower v)"
  "sToFlowerIPProto v = known_name {''tcp'', ''udp''} (to_lower v)"
  "to_lower v \<in> tc_protocols \<Longrightarrow> sToFilterProtocol v = to_lower v"
  by (auto simp: sToFlowerVlanEthType_def sToFlowerIPProto_def sToFilterProtocol_def known_name_def tc_protocols_def
      Let_def go_consts)

lemma read_printed:
  assumes "prints c x" and "expected x"
  shows "read_filter c = Inr [as_filter x]"
proof -
  obtain h fl where x: "x = (h, fl)" by fastforce
  obtain opts where opts: "cf_Options c = Some opts" using assms(1) by (auto simp: prints_def x split: option.splits)
  have c: "cf_Kind c = FilterKindFlower" "to_lower (cf_Protocol c) = tf_protocol fl" "cf_Priority c = tf_pref fl"
      "cf_Chain c = tf_chain fl" "co_Handle opts = h"
      "map_option to_lower (ck_VlanEthType (co_Keys opts)) = tf_vlan_ethtype fl"
      "map_option to_lower (ck_IPProto (co_Keys opts)) = tf_ip_proto fl"
      "map_option tc_prefix (ck_DstIP (co_Keys opts)) = map_option Some (tf_dst_ip fl)"
      "ck_DstPort (co_Keys opts) = tf_dst_port fl"
    and kinds: "map ca_Kind (co_Actions opts) = map (\<lambda>_. ''gact'') (tf_actions fl)"
    and acts: "map (\<lambda>a. cca_Type (ca_ControlAction a)) (co_Actions opts) = tf_actions fl"
    using assms(1) by (simp_all add: prints_def x opts FilterKindFlower_def)
  have proto: "sToFilterProtocol (cf_Protocol c) = tf_protocol fl"
    using assms(2) c(2) converted_names(3) by (simp add: expected_def x)
  have "list_all (\<lambda>a. ca_Kind a = ''gact'') (co_Actions opts)"
  proof -
    have "set (map ca_Kind (co_Actions opts)) \<subseteq> {''gact''}" unfolding kinds by auto
    then show ?thesis by (auto simp: list_all_iff)
  qed
  then have read: "read_actions (co_Actions opts) fb = Inr (fb\<lparr>ffb_actions := ffb_actions fb @ map NewGenericAction (tf_actions fl)\<rparr>)" for fb
    using read_actions_all [of "co_Actions opts" fb] acts by (simp add: ActionTypeGeneric_def comp_def flip: acts)
  have dst: "case ck_DstIP (co_Keys opts) of None \<Rightarrow> tf_dst_ip fl = None
      | Some t \<Rightarrow> \<exists>d. tf_dst_ip fl = Some d \<and> IPToIPNet t = Inr (net_of d)"
  proof (cases "ck_DstIP (co_Keys opts)")
    case None
    then show ?thesis using c(8) by simp
  next
    case (Some t)
    then obtain d where "tf_dst_ip fl = Some d" "tc_prefix t = Some d" using c(8) by (cases "tf_dst_ip fl") auto
    moreover have "length (fst d) = 16 \<longrightarrow> To4 (fst d) = None"
      using assms(2) calculation(1) by (cases d) (simp add: expected_def x)
    ultimately show ?thesis using Some IPToIPNet_printed by auto
  qed
  show ?thesis
    unfolding as_filter_def x prod.case c(6,7,9) [symmetric]
    using dst
    by (cases "ck_VlanEthType (co_Keys opts)"; cases "ck_IPProto (co_Keys opts)"; cases "ck_DstIP (co_Keys opts)";
        cases "ck_DstPort (co_Keys opts)")
      (auto simp: read_filter_def opts c(1,3-5) proto read Let_def builder_simps converted_names(1,2)
        FilterKindFlower_def)
qed

text \<open>What is added is read back as an equal filter.\<close>

definition cmd_addable :: "FlowerFilter \<Rightarrow> bool" where
  "cmd_addable f \<longleftrightarrow> cmd_expressible f \<and> fa_Handle (ff_Attrs f) = None \<and>
     (\<exists>p. fa_Priority (ff_Attrs f) = Some p \<and> p \<noteq> 0)"

lemma norm_as_filter:
  assumes "cmd_expressible f" and "fa_Priority (ff_Attrs f) = Some p"
  shows "norm_filter (as_filter (h, filter_meaning f)) = norm_filter f"
proof -
  obtain s where s: "ff_Flower f = Some s" "fs_VlanEthType s \<in> {None, Some FlowerVlanEthTypeIPv4, Some FlowerVlanEthTypeIPv6}"
      "fs_IPProto s \<in> {None, Some FlowerIPProtoTCP, Some FlowerIPProtoUDP}" "\<forall>n. fs_DstIP s = Some n \<longrightarrow> text_net n"
    and kind: "fa_Kind (ff_Attrs f) = FilterKindFlower"
    using assms(1) unfolding cmd_expressible_def by blast
  have "map_option (norm_net \<circ> net_of \<circ> net_meaning) (fs_DstIP s) = map_option norm_net (fs_DstIP s)"
    using s(4) DstIP_arg_meaning(2) by (cases "fs_DstIP s") simp_all
  moreover have "map_option (known_name {''ip'', ''ipv6''}) (fs_VlanEthType s) = fs_VlanEthType s"
    "map_option (known_name {''tcp'', ''udp''}) (fs_IPProto s) = fs_IPProto s"
    using s(2,3) by (auto simp: known_name_def go_consts)
  ultimately show ?thesis
    using assms(2) kind
    by (simp add: as_filter_def filter_meaning_def norm_filter_def s(1) ChainDefaultChain_def FilterKindFlower_def
        option.map_comp comp_def NewGenericAction_def Let_def split: option.split)
qed

section \<open>The contract of the program\<close>

text \<open>Commands that add a filter of the expected kind; all others are covered anyway.\<close>

definition covered :: "tc_command \<Rightarrow> bool" where
  "covered cmd \<longleftrightarrow>
     (case cmd of FilterAdd h fl \<Rightarrow> expected (1, fl) \<and> h \<noteq> Some 0 | _ \<Rightarrow> True)"

text \<open>
  \<open>K w\<close> are the flower filters on the ingress qdisc of the device. A command whose arguments are
  in the language of \<open>Tc_Program\<close> has its effect if it succeeds, and none if it fails; listings
  change nothing and tell all filters and chains.
\<close>

locale tool_contract =
  fixes exec :: "'w Executor" and dev :: string and K :: "'w \<Rightarrow> installed set"
  assumes expected: "x \<in> K w \<Longrightarrow> expected x"
    and tool_run: "Cmd_Run exec ''tc'' args w = (r, w') \<Longrightarrow> parse_tc args = Some (dev, cmd) \<Longrightarrow> covered cmd \<Longrightarrow>
      (if r = None then tc_effect cmd (K w) (K w') else K w' = K w)"
    and tool_output: "Cmd_Output exec ''tc'' args w = (l, w') \<Longrightarrow> parse_tc args = Some (dev, cmd) \<Longrightarrow>
      cmd \<in> {QdiscList, FilterList, ChainList} \<Longrightarrow>
      K w' = K w \<and> (\<forall>out. l = Inr out \<longrightarrow>
        (cmd = FilterList \<longrightarrow> lists_filters out (K w)) \<and> (cmd = ChainList \<longrightarrow> lists_chains out (K w)))"
begin

text \<open>The commands of the driver.\<close>

lemmas tool_qdisc_list = tool_output [OF _ parse_tc_commands(1)]
lemmas tool_filter_list = tool_output [OF _ parse_tc_commands(3)]
lemmas tool_chain_list = tool_output [OF _ parse_tc_commands(4)]

lemma tool_qdisc_add:
  "Cmd_Run exec ''tc'' (on_dev ''qdisc'' ''add'' dev @ [QDiscIngressType]) w = (r, w') \<Longrightarrow> K w' = K w"
  using tool_run [OF _ parse_tc_commands(2), of w r w'] by (simp add: tc_effect_def covered_def split: if_splits)

lemma cmd_list:
  assumes "Cl_FilterList (NewTcCmdLineImpl_obj dev exec) ingress w = (r, w')"
  shows "K w' = K w \<and> (\<forall>fs. r = Inr fs \<longrightarrow> set fs = as_filter ` K w)"
proof -
  note run = assms(1) [unfolded Cl_FilterList_def list_objects_def ingress_args runs]
  obtain l v where l: "Cmd_Output exec ''tc'' (on_dev ''filter'' ''list'' dev @ [QDiscIngressType]) w = (l, v)"
    by fastforce
  have v: "K v = K w" and listed: "\<forall>out. l = Inr out \<longrightarrow> lists_filters out (K w)"
    using tool_filter_list [OF l] by simp_all
  show ?thesis
  proof (cases l)
    case (Inl e)
    then show ?thesis using run l v by auto
  next
    case (Inr out)
    then obtain cs where cs: "unmarshal_slice zero_cFilter decode_cFilter out = Inr cs"
        "\<forall>x\<in>K w. \<exists>c\<in>set cs. prints c x" "\<forall>c\<in>set cs. cf_Options c \<noteq> None \<longrightarrow> (\<exists>x\<in>K w. prints c x)"
      using listed unfolding lists_filters_def by blast
    then have "\<forall>c\<in>set cs. \<exists>x. cf_Options c \<noteq> None \<longrightarrow> x \<in> K w \<and> prints c x" by blast
    from bchoice [OF this] obtain pick where
      pick: "\<And>c. c \<in> set cs \<Longrightarrow> cf_Options c \<noteq> None \<Longrightarrow> pick c \<in> K w \<and> prints c (pick c)" by blast
    define one where "one c = (if cf_Options c = None then [] else [as_filter (pick c)])" for c
    have reads: "read_filter c = Inr [as_filter x]" if "x \<in> K w" "prints c x" for c x
      using read_printed [OF that(2) expected [OF that(1)]] .
    have read: "read_filter c = Inr (one c)" if "c \<in> set cs" for c
    proof (cases "cf_Options c = None")
      case True
      then show ?thesis by (simp add: read_filter_def one_def)
    next
      case False
      then show ?thesis unfolding one_def if_not_P [OF False] using pick [OF that False] reads by blast
    qed
    then have all: "map_until_error read_filter cs = Inr (map one cs)" by (rule map_until_error_map)
    have "set (concat (map one cs)) = as_filter ` K w"
    proof (intro equalityI subsetI)
      fix g
      assume "g \<in> set (concat (map one cs))"
      then obtain c where "c \<in> set cs" "cf_Options c \<noteq> None" "g = as_filter (pick c)"
        by (auto simp: one_def split: if_splits)
      then show "g \<in> as_filter ` K w" using pick by blast
    next
      fix g
      assume "g \<in> as_filter ` K w"
      then obtain x c where x: "x \<in> K w" "g = as_filter x" "c \<in> set cs" "prints c x" using cs(2) by blast
      then have "one c = [g]" using reads [OF x(1,4)] read [OF x(3)] by simp
      then show "g \<in> set (concat (map one cs))" using x(3) by force
    qed
    then show ?thesis using run l v Inr cs(1) all by auto
  qed
qed

lemma cmd_del:
  assumes "Cl_FilterDel (NewTcCmdLineImpl_obj dev exec) ingress a w = (r, w')"
    and "listable (\<lambda>w. as_filter ` K w) a"
  shows "as_filter ` K w' = (if r = None then {f \<in> as_filter ` K w. ff_Attrs f \<noteq> a} else as_filter ` K w)"
proof -
  obtain v x where x: "x \<in> K v" and a: "a = ff_Attrs (as_filter x)"
    using assms(2) by (auto simp: listable_def)
  have "tf_protocol (snd x) \<noteq> []" "fst x \<noteq> 0" using expected [OF x] by (auto simp: expected_def tc_protocols_def)
  then have "named_by (attrs_meaning a) y \<longleftrightarrow> tc_id y = tc_id x" for y
    by (auto simp: named_by_def attrs_meaning_def a as_filter_attrs tc_id_def)
  moreover have "ff_Attrs (as_filter y) = a \<longleftrightarrow> tc_id y = tc_id x" for y unfolding a by (rule as_filter_ids)
  moreover have "if r = None then K w' = {y \<in> K w. \<not> named_by (attrs_meaning a) y} else K w' = K w"
  proof -
    have "parse_tc (on_dev ''filter'' ''del'' dev @ QDiscIngressType # FilterAttrs_GenCmdLineArgs a) =
        Some (dev, FilterDel (attrs_meaning a))"
      by (simp add: parse_tc_commands parse_filter_del a as_filter_attrs)
    note asks = this
    have "Cmd_Run exec ''tc'' (on_dev ''filter'' ''del'' dev @ QDiscIngressType # FilterAttrs_GenCmdLineArgs a) w = (r, w')"
      using assms(1) unfolding Cl_FilterDel_def ingress_args append_assoc runs by simp
    from tool_run [OF this asks] show ?thesis by (cases r) (simp_all add: tc_effect_def covered_def)
  qed
  ultimately show ?thesis by (cases r) auto
qed

lemma addable_covered:
  assumes "cmd_expressible f" and "fa_Priority (ff_Attrs f) = Some p" and "p \<noteq> 0" and "fa_Handle (ff_Attrs f) = None"
  shows "covered (FilterAdd (fa_Handle (ff_Attrs f)) (filter_meaning f))"
proof -
  obtain s where s: "ff_Flower f = Some s" using assms(1) unfolding cmd_expressible_def by blast
  have "fa_Protocol (ff_Attrs f) \<in> tc_protocols"
    using assms(1) unfolding cmd_expressible_def tc_protocols_def by (auto simp: go_consts)
  moreover have "length (fst (net_meaning n)) = 16 \<longrightarrow> To4 (fst (net_meaning n)) = None" for n
    by (auto simp: net_meaning_def dest: length_To4 split: option.split)
  ultimately show ?thesis
    using assms(2-4)
    by (cases "fs_DstIP s") (auto simp: covered_def expected_def filter_meaning_def s Let_def case_prod_unfold)
qed

lemma cmd_add:
  assumes "Cl_FilterAdd (NewTcCmdLineImpl_obj dev exec) ingress f w = (r, w')"
    and "cmd_addable f"
  shows "if r = None
    then \<exists>g. norm_filter g = norm_filter f \<and> ff_Attrs g \<notin> ff_Attrs ` as_filter ` K w \<and>
      as_filter ` K w' = insert g (as_filter ` K w)
    else as_filter ` K w' = as_filter ` K w"
proof -
  obtain p where f: "cmd_expressible f" "fa_Handle (ff_Attrs f) = None" "fa_Priority (ff_Attrs f) = Some p" "p \<noteq> 0"
    using assms(2) by (auto simp: cmd_addable_def)
  have "parse_tc (on_dev ''filter'' ''add'' dev @ QDiscIngressType # FlowerFilter_GenCmdLineArgs f) =
      Some (dev, FilterAdd (fa_Handle (ff_Attrs f)) (filter_meaning f))"
    by (simp add: parse_tc_commands parse_add_filter [OF f(1,3,4)])
  note asks = this
  have "Cmd_Run exec ''tc'' (on_dev ''filter'' ''add'' dev @ QDiscIngressType # FlowerFilter_GenCmdLineArgs f) w = (r, w')"
    using assms(1) unfolding Cl_FilterAdd_def ingress_args append_assoc runs by simp
  note run = tool_run [OF this asks addable_covered [OF f(1,3,4,2)], unfolded f(2)]
  show ?thesis
  proof (cases r)
    case None
    then obtain h where h: "tc_id (h, filter_meaning f) \<notin> tc_id ` K w" "K w' = insert (h, filter_meaning f) (K w)"
      using run by (auto simp: tc_effect_def)
    have new: "ff_Attrs (as_filter (h, filter_meaning f)) \<notin> ff_Attrs ` as_filter ` K w"
    proof
      assume "ff_Attrs (as_filter (h, filter_meaning f)) \<in> ff_Attrs ` as_filter ` K w"
      then obtain x where "x \<in> K w" "ff_Attrs (as_filter (h, filter_meaning f)) = ff_Attrs (as_filter x)" by blast
      then have "tc_id (h, filter_meaning f) = tc_id x" "x \<in> K w" by (simp_all only: as_filter_ids)
      then show False using h(1) by blast
    qed
    have "as_filter ` K w' = insert (as_filter (h, filter_meaning f)) (as_filter ` K w)" unfolding h(2) by (rule image_insert)
    with new norm_as_filter [OF f(1,3), of h] show ?thesis unfolding if_P [OF None] by blast
  next
    case (Some e)
    with run show ?thesis by simp
  qed
qed

lemma cmd_chain_list:
  assumes "Cl_ChainList (NewTcCmdLineImpl_obj dev exec) ingress w = (r, w')"
  shows "K w' = K w \<and> (\<forall>xs. r = Inr xs \<longrightarrow> (\<forall>c\<in>set xs. ch_Chain c \<noteq> None) \<and>
    Some ` chain_no ` as_filter ` K w \<subseteq> ch_Chain ` set xs)"
proof -
  note run = assms [unfolded Cl_ChainList_def list_objects_def ingress_args runs]
  obtain l v where l: "Cmd_Output exec ''tc'' (on_dev ''chain'' ''list'' dev @ [QDiscIngressType]) w = (l, v)"
    by fastforce
  have v: "K v = K w" and listed: "\<forall>out. l = Inr out \<longrightarrow> lists_chains out (K w)"
    using tool_chain_list [OF l] by simp_all
  show ?thesis
  proof (cases "\<exists>xs. r = Inr xs")
    case True
    then obtain out cs objs where out: "l = Inr out" and cs: "unmarshal_slice zero_cChain decode_cChain out = Inr cs"
      and objs: "map_until_error read_chain cs = Inr objs" "r = Inr (concat objs)" and w': "w' = v"
      using run l by (auto split: sum.splits)
    have read: "list_all2 (\<lambda>c ys. read_chain c = Inr ys) cs objs"
      using objs(1) by (simp only: map_until_error_Inr_iff)
    have one: "ch_Chain ` set ys = {Some (cc_Chain c)} \<and> (\<forall>y\<in>set ys. ch_Chain y \<noteq> None)"
      if "read_chain c = Inr ys" for c ys
      using that by (auto simp: read_chain_def builder_simps split: sum.splits)
    have "ch_Chain ` set (concat objs) = Some ` cc_Chain ` set cs \<and> (\<forall>c\<in>set (concat objs). ch_Chain c \<noteq> None)"
      using read by (induction rule: list_all2_induct) (auto simp: image_Un dest!: one)
    moreover have "Some ` chain_no ` as_filter ` K w = Some ` (tf_chain \<circ> snd) ` K w"
      by (simp add: image_image chain_as_filter)
    moreover have "(tf_chain \<circ> snd) ` K w \<subseteq> cc_Chain ` set cs"
      using listed out cs by (auto simp: lists_chains_def)
    ultimately show ?thesis using v w' objs(2) by (simp add: image_mono)
  next
    case False
    then have "w' = v" using run l by (auto split: sum.splits)
    then show ?thesis using v False by auto
  qed
qed

lemma cmd_chain_del:
  assumes "Cl_ChainDel (NewTcCmdLineImpl_obj dev exec) ingress \<lparr>ch_Parent = None, ch_Chain = Some n\<rparr> w = (r, w')"
  shows "as_filter ` K w' =
    (if r = None then {f \<in> as_filter ` K w. chain_no f \<noteq> n} else as_filter ` K w)"
proof -
  have "parse_tc (on_dev ''chain'' ''del'' dev @ QDiscIngressType # Chain_GenCmdLineArgs \<lparr>ch_Parent = None, ch_Chain = Some n\<rparr>) =
      Some (dev, ChainDel n)"
    by (simp add: parse_tc_commands parse_chain_del)
  note asks = this
  have "Cmd_Run exec ''tc'' (on_dev ''chain'' ''del'' dev @ QDiscIngressType # Chain_GenCmdLineArgs \<lparr>ch_Parent = None, ch_Chain = Some n\<rparr>) w = (r, w')"
    using assms unfolding Cl_ChainDel_def ingress_args append_assoc runs by simp
  note run = tool_run [OF this asks]
  have "if r = None then K w' = {x \<in> K w. tf_chain (snd x) \<noteq> n} else K w' = K w"
    using run by (cases r) (simp_all add: tc_effect_def covered_def)
  then show ?thesis using chain_as_filter by (cases r) auto
qed

lemma read_keys: "inj_on tc_id (K w) \<Longrightarrow> inj_on ff_Attrs (as_filter ` K w)"
  using as_filter_ids by (auto simp: inj_on_def)

lemma cmd_contract:
  "tc_contract (NewTcCmdLineImpl dev exec) ingress (\<lambda>w. as_filter ` K w) cmd_addable"
proof
  fix l r fs cs n and w w' :: 'w and a f
  let ?inst = "\<lambda>w. as_filter ` K w"
  note ops = NewTcCmdLineImpl_def Let_def TC.simps
  show "?inst w' = ?inst w" if run: "tc_QDiscList (NewTcCmdLineImpl dev exec) w = (l, w')"
  proof -
    obtain m v where m: "Cmd_Output exec ''tc'' (on_dev ''qdisc'' ''list'' dev) w = (m, v)" by fastforce
    have "w' = v"
      using run m runs(1) [of dev exec "''qdisc''" "''list''" "[]"]
      by (auto simp: ops Cl_QDiscList_def list_objects_def split: sum.splits)
    then show ?thesis using tool_qdisc_list [OF m] by simp
  qed
  show "?inst w' = ?inst w" if "tc_QDiscAdd (NewTcCmdLineImpl dev exec) ingress w = (r, w')"
    using tool_qdisc_add that unfolding ops Cl_QDiscAdd_def ingress_args append_assoc runs by simp
  show "?inst w' = ?inst w \<and> (\<forall>xs. fs = Inr xs \<longrightarrow> set xs = ?inst w)"
    if "tc_FilterList (NewTcCmdLineImpl dev exec) ingress w = (fs, w')"
    using cmd_list that by (simp add: ops)
  show "?inst w' = (if r = None then {f \<in> ?inst w. ff_Attrs f \<noteq> a} else ?inst w)"
    if "tc_FilterDel (NewTcCmdLineImpl dev exec) ingress a w = (r, w')" and "listable ?inst a"
    by (rule cmd_del) (use that in \<open>simp_all add: ops\<close>)
  show "if r = None
      then \<exists>g. norm_filter g = norm_filter f \<and> ff_Attrs g \<notin> ff_Attrs ` ?inst w \<and> ?inst w' = insert g (?inst w)
      else ?inst w' = ?inst w"
    if "tc_FilterAdd (NewTcCmdLineImpl dev exec) ingress f w = (r, w')" and "cmd_addable f"
    by (rule cmd_add) (use that in \<open>simp_all add: ops\<close>)
  show "?inst w' = ?inst w \<and> (\<forall>xs. cs = Inr xs \<longrightarrow> (\<forall>c\<in>set xs. ch_Chain c \<noteq> None) \<and>
      Some ` chain_no ` ?inst w \<subseteq> ch_Chain ` set xs)"
    if "tc_ChainList (NewTcCmdLineImpl dev exec) ingress w = (cs, w')"
    using cmd_chain_list that by (simp add: ops)
  show "?inst w' = (if r = None then {f \<in> ?inst w. chain_no f \<noteq> n} else ?inst w)"
    if "tc_ChainDel (NewTcCmdLineImpl dev exec) ingress \<lparr>ch_Parent = None, ch_Chain = Some n\<rparr> w = (r, w')"
    by (rule cmd_chain_del) (use that in \<open>simp add: ops\<close>)
qed

end

text \<open>The contract of the program gives the contract of the interface, for the ingress qdisc.\<close>

sublocale tool_contract \<subseteq> driver: tc_contract "NewTcCmdLineImpl dev exec" ingress
    "\<lambda>w. as_filter ` K w" cmd_addable
  by (rule cmd_contract)

text \<open>
  C13. The command line driver refines the interface \<open>TC\<close>: on a program \<open>tc\<close> that does what its
  manuals say for the commands of their language, the driver keeps the contract the actuator
  relies on, where the installed filters are those of the device, for every filter that has a
  text, a preference and no handle. That the arguments the driver generates ask for the filter,
  and that the output is read as the filters of the device, is proved here and not assumed.
\<close>

theorem cmdline_driver_keeps_contract:
  assumes "tool_contract exec dev K"
  shows "tc_contract (NewTcCmdLineImpl dev exec) (QDisc_Build NewIngressQDiscBuilder) (\<lambda>w. as_filter ` K w) cmd_addable"
  using assms by (rule tool_contract.cmd_contract)

section \<open>A program for the witnesses\<close>

text \<open>
  A device with room for one filter: the world tells whether the filter is there. The program
  reads its arguments, prints the listing of \<open>Cmdline_Reading\<close>, adds that filter and deletes it,
  and refuses all else.
\<close>

definition ex_chain_listing :: string where
  "ex_chain_listing = ''[{\"parent\":\"ffff:fff1\",\"chain\":0}]''"

definition ex_installed :: installed where
  "ex_installed = (1, ex_flower)"

definition ex_device :: "bool Executor" where
  "ex_device =
     \<lparr>Cmd_Run = (\<lambda>_ args there.
        let refused = (Some (External ''exit status 2''), there) in
        case parse_tc args of
          None \<Rightarrow> refused
        | Some (dev, cmd) \<Rightarrow>
            if dev \<noteq> ''eth3'' then refused
            else (case cmd of
                FilterAdd h fl \<Rightarrow> if \<not> there \<and> h = None \<and> fl = ex_flower then (None, True) else refused
              | FilterDel a \<Rightarrow> if there \<and> named_by a ex_installed then (None, False) else refused
              | _ \<Rightarrow> refused)),
      Cmd_Output = (\<lambda>_ args there.
        (case parse_tc args of
           None \<Rightarrow> Inl (External ''exit status 1'')
         | Some (dev, cmd) \<Rightarrow>
             if dev \<noteq> ''eth3'' then Inl (External ''exit status 1'')
             else (case cmd of
                 FilterList \<Rightarrow> Inr (if there then ex_listing else ''[]'')
               | ChainList \<Rightarrow> Inr ex_chain_listing
               | _ \<Rightarrow> Inr ''[]''), there))\<rparr>"

definition ex_filters_of :: "bool \<Rightarrow> installed set" where
  "ex_filters_of there = (if there then {ex_installed} else {})"

lemma ex_decoded:
  "unmarshal_slice zero_cFilter decode_cFilter ex_listing = Inr ex_listed"
  "unmarshal_slice zero_cFilter decode_cFilter ''[]'' = Inr []"
  "unmarshal_slice zero_cChain decode_cChain ex_chain_listing = Inr [\<lparr>cc_Parent = ''ffff:fff1'', cc_Chain = 0\<rparr>]"
  by code_simp+

lemma ex_printed: "prints (ex_listed ! 1) ex_installed"
  by code_simp

lemma ex_lists:
  "lists_filters ex_listing {ex_installed}" "lists_filters ''[]'' {}" "lists_chains ex_chain_listing (ex_filters_of w)"
proof -
  have two: "ex_listed = [ex_listed ! 0, ex_listed ! 1]" "cf_Options (ex_listed ! 0) = None"
    by (simp_all add: ex_listed_def)
  then have "\<exists>c\<in>set ex_listed. prints c ex_installed" using ex_printed by (metis list.set_intros)
  moreover have "\<forall>c\<in>set ex_listed. cf_Options c \<noteq> None \<longrightarrow> prints c ex_installed"
    using two ex_printed by (metis list.set_cases set_ConsD empty_iff empty_set)
  ultimately show "lists_filters ex_listing {ex_installed}" unfolding lists_filters_def ex_decoded(1) by blast
  show "lists_filters ''[]'' {}" by (simp add: lists_filters_def ex_decoded)
  show "lists_chains ex_chain_listing (ex_filters_of w)"
    by (simp add: lists_chains_def ex_decoded ex_filters_of_def ex_installed_def ex_flower_def)
qed

lemma ex_tool_contract: "tool_contract ex_device ''eth3'' ex_filters_of"
proof
  fix x w w' args r l cmd
  show "expected x" if "x \<in> ex_filters_of w"
    using that by (auto simp: ex_filters_of_def ex_installed_def ex_flower_def expected_def tc_protocols_def split: if_splits)
  show "if r = None then tc_effect cmd (ex_filters_of w) (ex_filters_of w') else ex_filters_of w' = ex_filters_of w"
    if "Cmd_Run ex_device ''tc'' args w = (r, w')" and "parse_tc args = Some (''eth3'', cmd)"
    using that
    by (cases cmd) (auto simp: ex_device_def Let_def tc_effect_def ex_filters_of_def ex_installed_def split: if_splits)
  show "ex_filters_of w' = ex_filters_of w \<and> (\<forall>out. l = Inr out \<longrightarrow>
      (cmd = FilterList \<longrightarrow> lists_filters out (ex_filters_of w)) \<and> (cmd = ChainList \<longrightarrow> lists_chains out (ex_filters_of w)))"
    if "Cmd_Output ex_device ''tc'' args w = (l, w')" and "parse_tc args = Some (''eth3'', cmd)"
      and "cmd \<in> {QdiscList, FilterList, ChainList}"
    using that ex_lists(1,2) ex_lists(3) [of True] ex_lists(3) [of False]
    by (auto simp: ex_device_def ex_filters_of_def)
qed

interpretation ex_program: tool_contract ex_device "''eth3''" ex_filters_of
  by (rule ex_tool_contract)

theorem cmdline_driver_keeps_contract_witness:
  "tc_contract (NewTcCmdLineImpl ''eth3'' ex_device) (QDisc_Build NewIngressQDiscBuilder)
     (\<lambda>w. as_filter ` ex_filters_of w) cmd_addable"
  by (rule cmdline_driver_keeps_contract [OF ex_tool_contract])

end
