(* ===== verification/Rule_Types.thy ===== *)
theory Rule_Types
  imports Policy_Renderer
begin

text \<open>
  The type of what the renderer of \<open>pkg/policyrules\<close> hands to the generator: which networks and
  ports a rendered rule can hold, whatever the policies and the state of the cluster are.
\<close>

section \<open>Well formed networks and ports\<close>

text \<open>
  A network has an address of one of the two lengths, a mask that fits it (\<open>IPNet.String\<close> would
  print \<open><nil>\<close> otherwise) and is a prefix; a port is a TCP or a UDP one.
\<close>

definition net_ok :: "IPNet \<Rightarrow> bool" where
  "net_ok n \<longleftrightarrow> length (net_IP n) \<in> {4, 16} \<and> networkNumberAndMask n \<noteq> None \<and>
     simpleMaskLength (net_Mask n) \<noteq> None"

definition port_ok :: "Port \<Rightarrow> bool" where
  "port_ok p \<longleftrightarrow> port_Protocol p = ProtocolTCP \<or> port_Protocol p = ProtocolUDP"

definition rule_ok :: "Rule \<Rightarrow> bool" where
  "rule_ok r \<longleftrightarrow> list_all net_ok (rule_IPCidrs r) \<and> list_all port_ok (rule_Ports r) \<and>
     (rule_Action r = PolicyActionPass \<or> rule_Action r = PolicyActionDrop \<and> rule_IPCidrs r \<noteq> [])"

lemma net_ok_nonempty: "net_ok n \<Longrightarrow> net_IP n \<noteq> []"
  by (auto simp: net_ok_def)

lemma CIDRMask_lengths [simp]:
  "k \<le> 32 \<Longrightarrow> length (CIDRMask k 32) = 4" "k \<le> 128 \<Longrightarrow> length (CIDRMask k 128) = 16"
  by (simp_all add: length_CIDRMask)

lemma net_ok_v4:
  assumes "length bs = 4" and "k \<le> 32"
  shows "net_ok \<lparr>net_IP = IP_Mask (IPv4 bs) (CIDRMask k 32), net_Mask = CIDRMask k 32\<rparr>"
proof -
  have "IP_Mask (IPv4 bs) (CIDRMask k 32) = map2 (AND) bs (CIDRMask k 32)"
    using assms by (simp add: IP_Mask_def IPv4_def)
  then show ?thesis
    using assms by (simp add: net_ok_def networkNumberAndMask_def Let_def simpleMaskLength_CIDRMask)
qed

lemma net_ok_v6:
  assumes "length ip = 16" and "k \<le> 128"
  shows "net_ok \<lparr>net_IP = IP_Mask ip (CIDRMask k 128), net_Mask = CIDRMask k 128\<rparr>"
proof -
  have "IP_Mask ip (CIDRMask k 128) = map2 (AND) ip (CIDRMask k 128)"
    using assms by (simp add: IP_Mask_def)
  then show ?thesis
    using assms length_To4
    by (auto simp: net_ok_def networkNumberAndMask_def Let_def simpleMaskLength_CIDRMask split: option.split)
qed

lemma ParseCIDR_ok:
  assumes "ParseCIDR s = Inr n"
  shows "net_ok n"
  using assms by (cases rule: ParseCIDR_cases) (simp_all add: net_ok_v4 net_ok_v6)

lemma host_net_ok:
  assumes "length ip = 16"
  shows "net_ok (host_net ip)"
  using assms length_To4
  by (auto simp: net_ok_def host_net_def IsIPv4_def networkNumberAndMask_def Let_def simpleMaskLength_CIDRMask
      split: option.split)

section \<open>Rendered rules\<close>

lemma concat_ok: "(\<And>x. list_all P (f x)) \<Longrightarrow> list_all P (concat (map f xs))"
  by (induction xs) auto

lemma getPorts_ok: "list_all port_ok (getPorts ports)"
  unfolding getPorts_def
  by (rule concat_ok) (simp add: port_ok_def Let_def split: sum.split option.split)

lemma interface_cidrs_ok: "n \<in> set (interface_cidrs net ifc) \<Longrightarrow> net_ok n"
  by (auto simp: interface_cidrs_def dest!: IPsFromStrings_length intro: host_net_ok split: if_splits)

lemma pod_cidrs_ok: "list_all net_ok (pod_cidrs net pods)"
  by (auto simp: pod_cidrs_def list_all_iff interface_cidrs_ok)

lemma parsed_ok: "list_all net_ok (concat (map (\<lambda>cidr. case ParseCIDR cidr of Inl _ \<Rightarrow> [] | Inr n \<Rightarrow> [n]) cs))"
  by (induction cs) (auto simp: ParseCIDR_ok split: sum.splits)

lemma peer_rules_ok:
  assumes "list_all port_ok ports"
  shows "list_all rule_ok (peer_rules api p net pods nss ports peer)"
proof (cases "peer_IPBlock peer")
  case (Some b)
  show ?thesis
    using assms parsed_ok [of "blk_Except b"] ParseCIDR_ok [of "blk_CIDR b"]
    by (auto simp: peer_rules_def Some renderRulesWithIPBlock_def Let_def rule_ok_def split: sum.splits)
next
  case None
  have "list_all rule_ok (renderRulesWithSelectors api ps ns ports pods nss net pns)" for ps ns pns
    using assms by (auto simp: renderRulesWithSelectors_def Let_def rule_ok_def pod_cidrs_ok split: sum.splits)
  then show ?thesis by (simp add: peer_rules_def None)
qed

lemma egress_rules_ok: "list_all rule_ok (egress_rules api p net pods nss e)"
  by (simp add: egress_rules_def Let_def rule_ok_def getPorts_ok concat_ok peer_rules_ok)

lemma policy_rules_ok: "list_all rule_ok (policy_rules api pods nss ifc p)"
  by (simp add: policy_rules_def concat_ok egress_rules_ok)

lemma rule_set_ok: "list_all rule_ok (elems (rs_Rules (rule_set_for api target ps pods nss ifc)))"
  by (simp add: rule_set_for_def Let_def concat_ok policy_rules_ok)

text \<open>The rule sets collected in the map of \<open>RenderEgress\<close> stay well typed.\<close>

definition set_ok :: "PolicyRuleSet \<Rightarrow> bool" where
  "set_ok rs \<longleftrightarrow> list_all rule_ok (elems (rs_Rules rs))"

lemma update_ok:
  "\<forall>v\<in>snd ` set m. P v \<Longrightarrow> P x \<Longrightarrow> \<forall>v\<in>snd ` set (AList.update k x m). P v"
  by (induction m) (simp_all split: prod.split)

definition map_ok :: "(string, PolicyRuleSet) gomap \<Rightarrow> bool" where
  "map_ok m \<longleftrightarrow> (\<forall>v\<in>snd ` set m. set_ok v)"

lemma map_ok_update: "map_ok m \<Longrightarrow> set_ok v \<Longrightarrow> map_ok (AList.update k v m)"
  unfolding map_ok_def by (rule update_ok)

lemma fold_keeps: "(\<And>x m. P m \<Longrightarrow> P (f x m)) \<Longrightarrow> P m \<Longrightarrow> P (fold f xs m)"
  by (induction xs arbitrary: m) simp_all

lemma add_rule_set_ok:
  assumes "map_ok m" and "set_ok rs"
  shows "map_ok (add_rule_set rs m)"
proof (cases "map_of m (GetUID (rs_IfcInfo rs))")
  case None
  then show ?thesis by (simp add: add_rule_set_def Let_def map_ok_update [OF assms])
next
  case (Some e)
  have "e \<in> snd ` set m" using map_of_SomeD [OF Some] by force
  then have "set_ok e" using assms(1) unfolding map_ok_def by blast
  then have "set_ok (e\<lparr>rs_Rules := slice_append (rs_Rules e) (elems (rs_Rules rs))\<rparr>)"
    using assms(2) by (simp add: set_ok_def)
  from map_ok_update [OF assms(1) this] show ?thesis by (simp add: add_rule_set_def Let_def Some)
qed

lemma render_policy_ok:
  assumes "map_ok m"
  shows "map_ok (render_policy api target pods nss p m)"
proof -
  have rendered: "set_ok (renderEgressForInterface api ifc p pods nss)" for ifc
    by (simp add: set_ok_def renderEgressForInterface_def concat_ok egress_rules_ok)
  have "map_ok (fold (\<lambda>ifc m. if AppliesForNetwork p (if_NetattachName ifc)
      then add_rule_set (renderEgressForInterface api ifc p pods nss) m else m) (elems (pi_Interfaces target)) m)"
    by (rule fold_keeps [where P = map_ok]) (simp_all add: add_rule_set_ok rendered assms)
  then show ?thesis using assms by (simp add: render_policy_def split: sum.split)
qed

lemma add_empty_ok: "map_ok m \<Longrightarrow> map_ok (add_empty_rule_set ifc m)"
  by (simp add: add_empty_rule_set_def Let_def map_ok_update set_ok_def emptyPolicyRuleSet_def split: option.split)

text \<open>
  C23. The type of the rendered rules, for any policies whatever their text: every network is a
  prefix with an address and a mask that fit, every port is a TCP or a UDP one, and a rule
  passes, or drops and then names at least one network (so no policy ever drops everything).
\<close>

theorem rendered_rules_typed:
  "list_all (\<lambda>rs. list_all rule_ok (elems (rs_Rules rs))) (fst (RenderEgress api target policies pods nss))"
proof -
  have "map_ok (fold add_empty_rule_set (elems (pi_Interfaces target))
      (fold (render_policy api target pods nss) (map snd policies) []))"
    by (intro fold_keeps [where P = map_ok] add_empty_ok render_policy_ok) (simp_all add: map_ok_def)
  then show ?thesis by (simp add: RenderEgress_def Let_def list_all_iff map_ok_def set_ok_def)
qed

end
