(* ===== verification/Egress_Path.thy ===== *)
theory Egress_Path
  imports Server_Sync Policy_Meaning Netlink_Contract Cmdline_Contract Rule_Types
begin

text \<open>
  The components put together: the rule sets the renderer makes always generate, and the
  generated filters decide as the policies mean. The properties are in the root theory.
\<close>

section \<open>From policies to installed filters\<close>

lemma rule_set_generates: "\<exists>objs. GenerateFromPolicyRuleSet (rule_set_for api target ps pods nss ifc) = Inr objs"
proof -
  have "\<exists>fss. map_until_error gen_rule rules = Inr fss"
    if rules: "rules = concat (map (policy_rules api pods nss ifc) qs)" for rules qs
  proof -
    have "gen_rule r = Inr (projr (gen_rule r))" if "r \<in> set rules" for r
      using rule_actions [of r api pods nss ifc] that by (auto simp: rules gen_rule_def)
    then show ?thesis using map_until_error_map [of rules gen_rule "\<lambda>r. projr (gen_rule r)"] by blast
  qed
  then obtain fss where
    "map_until_error gen_rule (concat (map (policy_rules api pods nss ifc) (filter (enforced api target ifc) ps))) = Inr fss"
    by blast
  then show ?thesis
    by (simp add: GenerateFromPolicyRuleSet_def rule_set_for_def Let_def)
qed

lemma pipeline:
  assumes "selectors_mean api crd" and "\<forall>p\<in>set ps. supported api crd target ifc pods nss p"
    and "GenerateFromPolicyRuleSet (rule_set_for api target ps pods nss ifc) = Inr objs"
  shows "(if isolating crd target ifc ps = [] then obj_Filters objs = []
     else enforces crd (if_NetattachName ifc) pods nss (isolating crd target ifc ps) (tc_verdict (obj_Filters objs)))"
proof (cases "isolating crd target ifc ps = []")
  case True
  then show ?thesis
    using assms(3) supported_enforced [OF assms(1,2)] by (simp add: Generate_Inr_iff rule_set_for_def)
next
  case False
  let ?ps = "isolating crd target ifc ps"
  have rules: "rs_Rules (rule_set_for api target ps pods nss ifc) = Some (concat (map (policy_rules api pods nss ifc) ?ps))"
    using False supported_enforced [OF assms(1,2)] by (simp add: rule_set_for_def)
  have "tc_verdict (obj_Filters objs) = policy_verdict (concat (map (policy_rules api pods nss ifc) ?ps))"
    by (rule ext) (rule generated_verdict [OF assms(3) rules])
  moreover have "enforces crd (if_NetattachName ifc) pods nss ?ps
      (policy_verdict (concat (map (policy_rules api pods nss ifc) ?ps)))"
    by (rule rendered_enforces [OF assms(1), where target = target]) (use assms(2) in \<open>auto simp: isolating_def\<close>)
  ultimately show ?thesis using False by simp
qed

section \<open>On the netlink driver\<close>

text \<open>Rules rendered from policies without port 0 give filters the netlink structures can express.\<close>

definition no_port_zero :: "'sel PolicyInfo \<Rightarrow> bool" where
  "no_port_zero p \<longleftrightarrow>
     (\<forall>e\<in>set (pol_Egress (pli_Policy p)). \<forall>q\<in>set (getPorts (eg_Ports e)). port_Number q \<noteq> 0)"

lemma peer_rule_ports: "r \<in> set (peer_rules api p net pods nss ports peer) \<Longrightarrow> rule_Ports r = ports"
  by (auto simp: peer_rules_def renderRulesWithIPBlock_def renderRulesWithSelectors_def Let_def
      split: option.splits sum.splits if_splits)

lemma egress_rule_ports: "r \<in> set (egress_rules api p net pods nss e) \<Longrightarrow> rule_Ports r = getPorts (eg_Ports e)"
  using peer_rule_ports by (fastforce simp: egress_rules_def Let_def split: if_splits)

lemma rendered_expressible:
  assumes "\<forall>p\<in>set ps. enforced api target ifc p \<longrightarrow> no_port_zero p"
    and "GenerateFromPolicyRuleSet (rule_set_for api target ps pods nss ifc) = Inr objs"
  shows "\<forall>f\<in>set (obj_Filters objs). nl_expressible f"
proof (rule generated_expressible [OF assms(2)], rule ballI)
  fix r
  assume r: "r \<in> set (elems (rs_Rules (rule_set_for api target ps pods nss ifc)))"
  have ok: "rule_ok r" by (rule bspec [OF rule_set_ok [unfolded list_all_iff] r])
  obtain p e where "p \<in> set ps" "enforced api target ifc p" "e \<in> set (pol_Egress (pli_Policy p))"
      "rule_Ports r = getPorts (eg_Ports e)"
    using r egress_rule_ports by (fastforce simp: rule_set_for_def Let_def policy_rules_def split: if_splits)
  then have "\<forall>q\<in>set (rule_Ports r). port_Number q \<noteq> 0" using assms(1) by (simp add: no_port_zero_def)
  then show "(\<forall>q\<in>set (rule_Ports r). nl_port q) \<and> (\<forall>n\<in>set (rule_IPCidrs r). net_IP n \<noteq> [])"
    using ok net_ok_nonempty by (auto simp: rule_ok_def list_all_iff port_ok_def nl_port_def)
qed

section \<open>On the command line driver\<close>

text \<open>
  Rules rendered from policies without IPv4 addresses written as IPv6 ones give filters that have
  a text.
\<close>

definition usual_cidr :: "string \<Rightarrow> bool" where
  "usual_cidr s \<longleftrightarrow>
     (case ParseCIDR s of Inl _ \<Rightarrow> True | Inr n \<Rightarrow> To4 (net_IP n) \<noteq> None \<longrightarrow> length (net_Mask n) = 4)"

definition usual_cidrs :: "'sel PolicyInfo \<Rightarrow> bool" where
  "usual_cidrs p \<longleftrightarrow>
     (\<forall>e\<in>set (pol_Egress (pli_Policy p)). \<forall>peer\<in>set (eg_To e).
        case peer_IPBlock peer of None \<Rightarrow> True | Some b \<Rightarrow> list_all usual_cidr (blk_CIDR b # blk_Except b))"

lemma parsed_usual: "ParseCIDR s = Inr n \<Longrightarrow> usual_cidr s \<Longrightarrow> text_net n"
  using parsed_text_net [of s n] by (simp add: usual_cidr_def)

lemma pod_cidrs_text:
  assumes "n \<in> set (pod_cidrs net pods)"
  shows "text_net n"
proof -
  obtain ifc where "n \<in> set (interface_cidrs net ifc)" using assms by (auto simp: pod_cidrs_def)
  then obtain ip ss where "n = host_net ip" "ip \<in> set (IPsFromStrings ss)" "ip \<noteq> []"
    by (auto simp: interface_cidrs_def split: if_splits)
  then show ?thesis using IPsFromStrings_length host_text_net by (simp add: host_net_def)
qed

lemma parsed_from:
  "n \<in> set (concat (map (\<lambda>cidr. case ParseCIDR cidr of Inl _ \<Rightarrow> [] | Inr n \<Rightarrow> [n]) cs)) \<Longrightarrow>
    \<exists>s\<in>set cs. ParseCIDR s = Inr n"
  by (induction cs) (auto split: sum.splits)

lemma block_nets:
  assumes "r \<in> set (renderRulesWithIPBlock b ports)" and "list_all usual_cidr (blk_CIDR b # blk_Except b)"
    and "n \<in> set (rule_IPCidrs r)"
  shows "text_net n"
proof -
  obtain m where m: "ParseCIDR (blk_CIDR b) = Inr m"
    using assms(1) by (cases "ParseCIDR (blk_CIDR b)") (simp_all add: renderRulesWithIPBlock_def)
  let ?except = "concat (map (\<lambda>cidr. case ParseCIDR cidr of Inl _ \<Rightarrow> [] | Inr n \<Rightarrow> [n]) (blk_Except b))"
  have "n = m \<or> n \<in> set ?except"
    using assms(1,3) unfolding renderRulesWithIPBlock_def m sum.case Let_def by (simp split: if_splits) fastforce
  then have "\<exists>s\<in>set (blk_CIDR b # blk_Except b). ParseCIDR s = Inr n"
    using m parsed_from [of n "blk_Except b"] by auto
  then show ?thesis using assms(2) parsed_usual by (auto simp: list_all_iff)
qed

lemma peer_nets_text:
  assumes "r \<in> set (peer_rules api p net pods nss ports peer)" and "n \<in> set (rule_IPCidrs r)"
    and "case peer_IPBlock peer of None \<Rightarrow> True | Some b \<Rightarrow> list_all usual_cidr (blk_CIDR b # blk_Except b)"
  shows "text_net n"
proof (cases "peer_IPBlock peer")
  case (Some b)
  then show ?thesis using assms block_nets [of r b ports n] by (simp add: peer_rules_def)
next
  case None
  have "\<exists>ps. n \<in> set (pod_cidrs net ps)"
    using assms(1,2) None
    by (auto simp: peer_rules_def renderRulesWithSelectors_def Let_def split: if_splits sum.splits)
  then show ?thesis using pod_cidrs_text by blast
qed

lemma policy_nets_text:
  assumes "r \<in> set (policy_rules api pods nss ifc p)" and "usual_cidrs p" and "n \<in> set (rule_IPCidrs r)"
  shows "text_net n"
proof -
  obtain e where e: "e \<in> set (pol_Egress (pli_Policy p))"
    and r: "r \<in> set (egress_rules api p (if_NetattachName ifc) pods nss e)"
    using assms(1) by (auto simp: policy_rules_def)
  then have "\<exists>peer\<in>set (eg_To e). r \<in> set (peer_rules api p (if_NetattachName ifc) pods nss (getPorts (eg_Ports e)) peer)"
    using assms(3) by (auto simp: egress_rules_def Let_def split: if_splits)
  then obtain peer where peer: "peer \<in> set (eg_To e)"
    and rule: "r \<in> set (peer_rules api p (if_NetattachName ifc) pods nss (getPorts (eg_Ports e)) peer)"
    by blast
  show ?thesis
    by (rule peer_nets_text [OF rule assms(3)]) (use assms(2) e peer in \<open>simp add: usual_cidrs_def\<close>)
qed

lemma shape_addable:
  assumes "(p, v) \<in> families n" and "b \<in> {BasePrioDefault, BasePrioPass, BasePrioDrop}"
    and "\<forall>m. n = Some m \<longrightarrow> text_net m" and "\<forall>x. q = Some x \<longrightarrow> port_ok x"
  shows "cmd_addable (gen_shape p v n q b a)"
proof -
  have family: "p \<in> {FilterProtocolIPv4, FilterProtocolIPv6, FilterProtocol8021Q, FilterProtocolAll} \<and>
      v \<in> {None, Some FlowerVlanEthTypeIPv4, Some FlowerVlanEthTypeIPv6}"
    using assms(1) by (cases n)
      (auto simp: families_def any_family_def family_of_def proto_of_IP_def ProtoToFlowerVlanEthType_def split: if_splits)
  have "PrioFromBaseAndProtcol b p \<noteq> 0"
    using assms(2) families_protocols [OF assms(1)]
    by (auto simp: allProtocols_def BasePrioDefault_def BasePrioPass_def BasePrioDrop_def)
  moreover have "map_option (\<lambda>x. PortProtocolToFlowerIPProto (port_Protocol x)) q \<in>
      {None, Some FlowerIPProtoTCP, Some FlowerIPProtoUDP}"
    using assms(4) by (cases q) (auto simp: port_ok_def PortProtocolToFlowerIPProto_def)
  ultimately show ?thesis
    using family assms(3) unfolding cmd_addable_def cmd_expressible_def gen_shape_def by auto
qed

lemma rendered_addable:
  assumes "\<forall>p\<in>set ps. enforced api target ifc p \<longrightarrow> usual_cidrs p"
    and "GenerateFromPolicyRuleSet (rule_set_for api target ps pods nss ifc) = Inr objs"
  shows "\<forall>f\<in>set (obj_Filters objs). cmd_addable f"
proof
  fix f
  assume "f \<in> set (obj_Filters objs)"
  from generated_parts [OF assms(2) this] obtain p v n q b a where f: "f = gen_shape p v n q b a"
    and parts: "filter_parts (elems (rs_Rules (rule_set_for api target ps pods nss ifc))) p v n q b a" by blast
  have nets: "text_net m" if r: "r \<in> set (elems (rs_Rules (rule_set_for api target ps pods nss ifc)))"
    and m: "m \<in> set (rule_IPCidrs r)" for r m
  proof -
    obtain p where "p \<in> set ps" "enforced api target ifc p" "r \<in> set (policy_rules api pods nss ifc p)"
      using r by (auto simp: rule_set_for_def Let_def split: if_splits)
    then show ?thesis using policy_nets_text m assms(1) by blast
  qed
  have ports: "port_ok x" if r: "r \<in> set (elems (rs_Rules (rule_set_for api target ps pods nss ifc)))"
    and x: "x \<in> set (rule_Ports r)" for r x
    using bspec [OF rule_set_ok [unfolded list_all_iff] r] x by (simp add: rule_ok_def list_all_iff)
  show "cmd_addable f"
    unfolding f using parts nets ports by (intro shape_addable) (auto simp: filter_parts_def)
qed

end
