(* ===== verification/Sync_Devices.thy ===== *)
theory Sync_Devices
  imports Netlink_Contract Cmdline_Contract
begin

text \<open>
  The devices of a node. A synchronisation writes to one representor after the other, so what it
  leaves behind is known only when the calls for one device do not touch another one. The locale
  \<open>tc_devices\<close> states this for the interface \<open>TC\<close>; the netlink library and the \<open>tc\<close> program,
  whose calls name the device they are for, give it for the two drivers.
\<close>

section \<open>Devices under the interface TC\<close>

locale tc_devices =
  fixes api :: "string \<Rightarrow> 'w TC" and inst :: "string \<Rightarrow> 'w \<Rightarrow> FlowerFilter set" and good :: "FlowerFilter \<Rightarrow> bool"
  assumes device: "tc_contract (api rep) ingress (inst rep) good"
    and apart: "rep \<noteq> rep' \<Longrightarrow> tc_frame (api rep) (inst rep')"
begin

lemma other_device: "rep' \<noteq> rep \<Longrightarrow> inst rep' (snd (Actuate (api rep) objs w)) = inst rep' w"
  by (rule tc_frame.frame_Actuate [OF apart]) simp

end

section \<open>The command line driver\<close>

locale tool_devices =
  fixes exec :: "'w Executor" and K :: "string \<Rightarrow> 'w \<Rightarrow> installed set"
  assumes tool: "tool_contract exec dev (K dev)"
    and run_apart: "dev \<noteq> dev' \<Longrightarrow> keeps (K dev') (Cmd_Run exec ''tc'' (on_dev obj verb dev @ args))"
    and output_apart: "dev \<noteq> dev' \<Longrightarrow> keeps (K dev') (Cmd_Output exec ''tc'' (on_dev obj verb dev @ args))"
begin

lemma list_apart:
  assumes "dev \<noteq> dev'"
  shows "keeps (K dev') (list_objects (NewTcCmdLineImpl_obj dev exec)
    ([obj, verb, ''dev'', cl_netDev (NewTcCmdLineImpl_obj dev exec)] @ args) zero dec read)"
proof -
  have "K dev' (snd (list_objects (NewTcCmdLineImpl_obj dev exec)
      ([obj, verb, ''dev'', cl_netDev (NewTcCmdLineImpl_obj dev exec)] @ args) zero dec read w)) = K dev' w" for w
  proof -
    obtain r w1 where run: "Cmd_Output exec ''tc'' (on_dev obj verb dev @ args) w = (r, w1)" by fastforce
    then have "K dev' w1 = K dev' w" by (rule keepsD [OF output_apart [OF assms]])
    then show ?thesis
      unfolding list_objects_def runs run
      by (cases r) (simp_all split: sum.split)
  qed
  then show ?thesis by (simp add: keeps_def)
qed

end

lemma keeps_read:
  assumes "keeps v f"
  shows "v (snd (case f w of (Inl e, w') \<Rightarrow> (Inl (h e), w') | (Inr x, w') \<Rightarrow> (Inr (g x), w'))) = v w"
proof -
  obtain r w1 where run: "f w = (r, w1)" by fastforce
  show ?thesis using keepsD [OF assms run] by (cases r) (simp_all add: run)
qed

lemma keeps_guarded:
  "keeps v f \<Longrightarrow> v (snd (if b then (Inl x, w) else
     case f w of (Inl e, w') \<Rightarrow> (Inl (h e), w') | (Inr y, w') \<Rightarrow> (Inr (g y), w'))) = v w"
  using keeps_read [of v f h g w] by (cases b) (simp_all only: if_True if_False snd_conv)

lemma keeps_image: "keeps v f \<Longrightarrow> keeps (\<lambda>w. g ` v w) f"
  by (simp add: keeps_def)

context tool_devices
begin

lemma cmd_frame:
  assumes "dev \<noteq> dev'"
  shows "tc_frame (NewTcCmdLineImpl dev exec) (\<lambda>w. as_filter ` K dev' w)"
proof -
  note runs_apart = run_apart [OF assms, folded runs(2)] and lists_apart = list_apart [OF assms]
  have qlist: "keeps (K dev') (Cl_QDiscList (NewTcCmdLineImpl_obj dev exec))"
    using lists_apart [of "''qdisc''" "''list''" "[]"] by (simp add: Cl_QDiscList_def)
  show ?thesis
    by unfold_locales
      (simp_all only: NewTcCmdLineImpl_def Let_def TC.simps Cl_QDiscAdd_def Cl_QDiscDel_def Cl_FilterAdd_def
        Cl_FilterDel_def Cl_FilterList_def Cl_ChainDel_def Cl_ChainList_def
        keeps_image [OF runs_apart] keeps_image [OF lists_apart] keeps_image [OF qlist])
qed

lemma cmd_devices: "tc_devices (\<lambda>dev. NewTcCmdLineImpl dev exec) (\<lambda>dev w. as_filter ` K dev w) cmd_addable"
  by (rule tc_devices.intro [OF tool_contract.cmd_contract [OF tool] cmd_frame])

end

sublocale tool_devices \<subseteq> devices: tc_devices "\<lambda>dev. NewTcCmdLineImpl dev exec"
    "\<lambda>dev w. as_filter ` K dev w" cmd_addable
  by (rule cmd_devices)

section \<open>The netlink driver\<close>

text \<open>
  \<open>links rep\<close> is the link of a representor. The calls that take a structure name the link in it.
\<close>

locale nl_devices =
  fixes nl :: "'w NetlinkProvider" and links :: "string \<Rightarrow> Link" and K :: "string \<Rightarrow> 'w \<Rightarrow> NlFlower set"
  assumes link: "nl_contract nl (links rep) (K rep)"
    and qdisc_apart: "rep \<noteq> rep' \<Longrightarrow> nq_LinkIndex d = link_Index (links rep) \<Longrightarrow>
      keeps (K rep') (nl_QdiscAdd nl d) \<and> keeps (K rep') (nl_QdiscDel nl d)"
    and filter_apart: "rep \<noteq> rep' \<Longrightarrow> fl_LinkIndex k = link_Index (links rep) \<Longrightarrow>
      keeps (K rep') (nl_FilterAdd nl k) \<and> keeps (K rep') (nl_FilterDel nl k)"
    and lists_apart: "rep \<noteq> rep' \<Longrightarrow> keeps (K rep') (nl_QdiscList nl (links rep)) \<and>
      keeps (K rep') (nl_FilterList nl (links rep) p) \<and> keeps (K rep') (nl_ChainList nl (links rep) p)"
    and chain_apart: "rep \<noteq> rep' \<Longrightarrow> keeps (K rep') (nl_ChainDel nl (links rep) c)"
begin

lemma nl_frame:
  assumes "rep \<noteq> rep'"
  shows "tc_frame (NewTcNetlinkImpl (links rep) nl) (\<lambda>w. nlFlowerFilterToFlowerFilter ` K rep' w)"
proof -
  note lists = lists_apart [OF assms]
  have sent: "fl_LinkIndex (flowerFilterToNlFlowerFilter f p (link_Index (links rep))) = link_Index (links rep)"
    "nq_LinkIndex (qdiscToNlQdisc qd (link_Index (links rep))) = link_Index (links rep)" for f p qd
    using sent_on_link [of "links rep" f] 
    by (simp_all add: flowerFilterToNlFlowerFilter_def qdiscToNlQdisc_def Let_def split: option.split)
  note calls = qdisc_apart [OF assms sent(2)] filter_apart [OF assms sent(1)] chain_apart [OF assms]
  have reads: "keeps (K rep') (Nl_QDiscList (links rep) nl)" "keeps (K rep') (Nl_FilterList (links rep) nl qd)"
    "keeps (K rep') (Nl_ChainList (links rep) nl qd)" for qd
    unfolding keeps_def Nl_QDiscList_def Nl_FilterList_def Nl_ChainList_def
    by (intro allI keeps_read keeps_guarded conjunct1 [OF lists] conjunct1 [OF conjunct2 [OF lists]]
        conjunct2 [OF conjunct2 [OF lists]])+
  have "keeps (K rep') (Nl_QDiscAdd (links rep) nl qd)" "keeps (K rep') (Nl_QDiscDel (links rep) nl qd)"
    "keeps (K rep') (Nl_FilterAdd (links rep) nl qd f)" "keeps (K rep') (Nl_FilterDel (links rep) nl qd a)"
    "keeps (K rep') (Nl_ChainDel (links rep) nl qd c)" for qd f a c
    using calls by (simp_all add: keeps_def Nl_QDiscAdd_def Nl_QDiscDel_def Nl_FilterAdd_def Nl_FilterDel_def Nl_ChainDel_def)
  then show ?thesis
    using reads by unfold_locales (simp_all add: keeps_image NewTcNetlinkImpl_def)
qed

lemma nl_devices_apart:
  "tc_devices (\<lambda>rep. NewTcNetlinkImpl (links rep) nl) (\<lambda>rep w. nlFlowerFilterToFlowerFilter ` K rep w) nl_expressible"
  by (rule tc_devices.intro [OF nl_contract.driver_contract [OF link] nl_frame])

end

sublocale nl_devices \<subseteq> devices: tc_devices "\<lambda>rep. NewTcNetlinkImpl (links rep) nl"
    "\<lambda>rep w. nlFlowerFilterToFlowerFilter ` K rep w" nl_expressible
  by (rule nl_devices_apart)

end
