(* ===== verification/Sync_Run.thy ===== *)
theory Sync_Run
  imports Egress_Path Sync_Devices
begin

text \<open>
  A whole synchronisation, \<open>syncMultiPolicy\<close> from the maps to the devices of all pods of the node.
  The loops over the pods and over the rule sets of a pod are one pass over a list of jobs; each
  job writes to the representor of its interface only, so what the pass does to a device is what
  the one job for it does.
\<close>

section \<open>A pass over independent jobs\<close>

text \<open>The world when the pass reaches a job.\<close>

definition until_job :: "('j \<Rightarrow> 'w \<Rightarrow> 'w) \<Rightarrow> 'j list \<Rightarrow> 'j \<Rightarrow> 'w \<Rightarrow> 'w" where
  "until_job f js j w = fold f (takeWhile (\<lambda>x. x \<noteq> j) js) w"

lemma fold_other:
  "(\<And>x v. x \<in> set js \<Longrightarrow> key x \<noteq> k \<Longrightarrow> I k (f x v) = I k v) \<Longrightarrow> k \<notin> key ` set js \<Longrightarrow>
    I k (fold f js w) = I k w"
  by (induction js arbitrary: w) auto

lemma fold_one:
  assumes "distinct (map key js)" and "j \<in> set js"
    and "\<And>x v k. x \<in> set js \<Longrightarrow> key x \<noteq> k \<Longrightarrow> I k (f x v) = I k v"
  shows "I (key j) (until_job f js j w) = I (key j) w"
    and "I (key j) (fold f js w) = I (key j) (f j (until_job f js j w))"
proof -
  obtain xs ys where js: "js = xs @ j # ys" and fresh: "j \<notin> set xs"
    using split_list_first [OF assms(2)] by blast
  have "takeWhile (\<lambda>x. x \<noteq> j) js = xs" 
  proof -
    have "\<And>x. x \<in> set xs \<Longrightarrow> x \<noteq> j" using fresh by blast
    from takeWhile_append2 [of xs "\<lambda>x. x \<noteq> j" "j # ys", OF this] show ?thesis by (simp add: js)
  qed
  then have until: "until_job f js j w = fold f xs w" by (simp add: until_job_def)
  have apart: "key j \<notin> key ` set xs" "key j \<notin> key ` set ys" using assms(1) by (auto simp: js)
  show "I (key j) (until_job f js j w) = I (key j) w"
    unfolding until by (rule fold_other [OF _ apart(1)]) (use assms(3) in \<open>auto simp: js\<close>)
  have "I (key j) (fold f ys (f j (fold f xs w))) = I (key j) (f j (fold f xs w))"
    by (rule fold_other [OF _ apart(2)]) (use assms(3) in \<open>auto simp: js\<close>)
  then show "I (key j) (fold f js w) = I (key j) (f j (until_job f js j w))"
    unfolding until by (simp add: js)
qed

lemma distinct_concat_keys:
  assumes "\<And>x. x \<in> set xs \<Longrightarrow> distinct (map f (g x)) \<and> f ` set (g x) \<subseteq> h ` set (d x)"
    and "distinct (map h (concat (map d xs)))"
  shows "distinct (map f (concat (map g xs)))"
  using assms
proof (induction xs)
  case (Cons x xs)
  have "f ` set (concat (map g xs)) \<subseteq> h ` set (concat (map d xs))"
    using Cons.prems(1) unfolding set_concat set_map by (simp add: image_UN UN_mono)
  moreover have "f ` set (g x) \<subseteq> h ` set (d x)" using Cons.prems(1) by simp
  moreover have "h ` set (d x) \<inter> h ` set (concat (map d xs)) = {}"
    using Cons.prems(2) by (simp only: list.map concat.simps map_append distinct_append set_map)
  ultimately have "f ` set (g x) \<inter> f ` set (concat (map g xs)) = {}" by blast
  moreover have "distinct (map f (g x))" using Cons.prems(1) by simp
  moreover have "distinct (map f (concat (map g xs)))"
  proof (rule Cons.IH)
    show "distinct (map f (g y)) \<and> f ` set (g y) \<subseteq> h ` set (d y)" if "y \<in> set xs" for y
      by (rule Cons.prems(1)) (use that in simp)
    show "distinct (map h (concat (map d xs)))"
      using Cons.prems(2) by (simp only: list.map concat.simps map_append distinct_append)
  qed
  ultimately show ?case by (simp only: list.map concat.simps map_append distinct_append set_map simp_thms)
qed simp

lemma distinct_concat_part:
  "distinct (map h (concat (map d xs))) \<Longrightarrow> x \<in> set xs \<Longrightarrow> distinct (map h (d x))"
  by (induction xs) auto

section \<open>The jobs of a synchronisation\<close>

type_synonym job = "PodInfo \<times> PolicyRuleSet"

text \<open>
  A pod of the node is visited with the information the map has when the loop reaches it, after
  the events that arrived until then; the second component is the server at that time.
\<close>

type_synonym 'sel visit = "PodInfo \<times> 'sel Server"

definition on_node :: "('sel, 'ls, 'd) Env \<Rightarrow> PodInfo \<Rightarrow> bool" where
  "on_node env p \<longleftrightarrow> CheckNodeNameIdentical (env_Hostname env) (pi_NodeName p)"

definition pass_pod ::
  "('sel, 'ls, 'd) Env \<Rightarrow> (PodInfo \<Rightarrow> 'sel Server \<Rightarrow> 'sel Server) \<Rightarrow> PodInfo \<Rightarrow> 'sel Server \<Rightarrow> 'sel Server" where
  "pass_pod env arrive p s = (if on_node env p then update_pods (arrive p s) else s)"

definition visit :: "('sel, 'ls, 'd) Env \<Rightarrow> PodInfo \<Rightarrow> 'sel Server \<Rightarrow> 'sel visit list" where
  "visit env p s =
     (if \<not> on_node env p then []
      else case GetPodInfo (sv_podMap s) (pi_Namespace p) (pi_Name p) of Inl _ \<Rightarrow> [] | Inr i \<Rightarrow> [(i, s)])"

fun visited ::
  "('sel, 'ls, 'd) Env \<Rightarrow> (PodInfo \<Rightarrow> 'sel Server \<Rightarrow> 'sel Server) \<Rightarrow> PodInfo list \<Rightarrow> 'sel Server \<Rightarrow> 'sel visit list" where
  "visited env arrive [] s = []"
| "visited env arrive (p # ps) s =
     (let s' = pass_pod env arrive p s in visit env p s' @ visited env arrive ps s')"

definition visit_jobs :: "('sel, 'ls, 'd) Env \<Rightarrow> 'sel visit \<Rightarrow> job list" where
  "visit_jobs env v =
     (case v of (i, s) \<Rightarrow>
        if length (elems (pi_Interfaces i)) = 0 then []
        else case RenderEgress (env_selectors env) i (sv_policyMap s) (sv_podMap s) (sv_namespaceMap s) of
          (_, Some _) \<Rightarrow> []
        | (rules, None) \<Rightarrow> map (Pair i) rules)"

definition all_jobs :: "('sel, 'ls, 'd) Env \<Rightarrow> 'sel visit list \<Rightarrow> job list" where
  "all_jobs env vs = concat (map (visit_jobs env) vs)"

definition sync_jobs :: "('sel, 'ls, 'd) Env \<Rightarrow> 'sel Server \<Rightarrow> job list" where
  "sync_jobs env s = all_jobs env (visited env (\<lambda>_ s. s) (PodMap_List (sv_podMap s)) s)"

definition do_job :: "('sel, 'ls, 'd) Env \<Rightarrow> job \<Rightarrow> 'd World \<Rightarrow> 'd World" where
  "do_job env j = sync_rule_set env (fst j) (snd j)"

text \<open>The loop over the pods is the pass over the jobs of the visits, whatever events arrive.\<close>

lemma fold_pair: "fold (\<lambda>rs. do_job env (i, rs)) rules w = fold (do_job env) (map (Pair i) rules) w"
  by (induction rules arbitrary: w) simp_all

lemma sync_pod_jobs:
  "\<exists>acc'. sync_pod env arrive p (s, acc, w) =
    (pass_pod env arrive p s, acc', fold (do_job env) (all_jobs env (visit env p (pass_pod env arrive p s))) w)"
proof -
  have job: "sync_rule_set env i = (\<lambda>rs. do_job env (i, rs))" for i by (simp add: do_job_def)
  show ?thesis
    by (auto simp: sync_pod_def pass_pod_def visit_def visit_jobs_def all_jobs_def on_node_def Let_def job fold_pair
        split: sum.split prod.split option.split)
qed

lemma sync_pods_jobs:
  "\<exists>acc'. fold (sync_pod env arrive) ps (s, acc, w) =
    (fold (pass_pod env arrive) ps s, acc', fold (do_job env) (all_jobs env (visited env arrive ps s)) w)"
proof (induction ps arbitrary: s acc w)
  case (Cons p ps)
  obtain acc1 where "sync_pod env arrive p (s, acc, w) =
      (pass_pod env arrive p s, acc1, fold (do_job env) (all_jobs env (visit env p (pass_pod env arrive p s))) w)"
    using sync_pod_jobs by blast
  then show ?case
    using Cons.IH [of "pass_pod env arrive p s" acc1 "fold (do_job env) (all_jobs env (visit env p (pass_pod env arrive p s))) w"]
    by (simp add: all_jobs_def Let_def)
qed (simp add: all_jobs_def)

lemma sync_run:
  assumes "syncMultiPolicy env arrive s w = (s', w')"
  defines "ps \<equiv> PodMap_List (sv_podMap (update_maps s))"
  shows "s' = fold (pass_pod env arrive) ps (update_maps s)"
    and "wd_dev w' = wd_dev (fold (do_job env) (all_jobs env (visited env arrive ps (update_maps s))) w)"
proof -
  obtain acc where "fold (sync_pod env arrive) ps (update_maps s, [], w) =
      (fold (pass_pod env arrive) ps (update_maps s), acc,
       fold (do_job env) (all_jobs env (visited env arrive ps (update_maps s))) w)"
    using sync_pods_jobs by blast
  then show "s' = fold (pass_pod env arrive) ps (update_maps s)"
    and "wd_dev w' = wd_dev (fold (do_job env) (all_jobs env (visited env arrive ps (update_maps s))) w)"
    using assms(1) by (auto simp: syncMultiPolicy_def Let_def ps_def)
qed

section \<open>The pods of the node\<close>

definition local_pods :: "('sel, 'ls, 'd) Env \<Rightarrow> 'sel Server \<Rightarrow> PodInfo list" where
  "local_pods env s =
     filter (\<lambda>p. CheckNodeNameIdentical (env_Hostname env) (pi_NodeName p)) (PodMap_List (sv_podMap s))"

definition wanted_rules :: "('sel, 'ls, 'd) Env \<Rightarrow> 'sel Server \<Rightarrow> PodInfo \<Rightarrow> InterfaceInfo \<Rightarrow> PolicyRuleSet" where
  "wanted_rules env s p ifc =
     rule_set_for (env_selectors env) p (map snd (sv_policyMap s)) (sv_podMap s) (sv_namespaceMap s) ifc"

text \<open>
  The policies of the server that isolate an interface, in the sense of the API, and that the
  program can implement; \<open>fine\<close> is what a driver asks of them.
\<close>

definition isolating_on :: "'sel Meaning \<Rightarrow> 'sel Server \<Rightarrow> PodInfo \<Rightarrow> InterfaceInfo \<Rightarrow> 'sel PolicyInfo list" where
  "isolating_on crd s p ifc = isolating crd p ifc (map snd (sv_policyMap s))"

definition implementable ::
  "('sel, 'ls, 'd) Env \<Rightarrow> 'sel Meaning \<Rightarrow> ('sel PolicyInfo \<Rightarrow> bool) \<Rightarrow> 'sel Server \<Rightarrow> PodInfo \<Rightarrow> InterfaceInfo \<Rightarrow> bool" where
  "implementable env crd fine s p ifc \<longleftrightarrow>
     (\<forall>pol\<in>set (map snd (sv_policyMap s)).
        supported (env_selectors env) crd p ifc (sv_podMap s) (sv_namespaceMap s) pol) \<and>
     (\<forall>pol\<in>set (isolating_on crd s p ifc). fine pol)"

text \<open>
  Every interface of a visited pod has a representor of its own; \<open>rep_of\<close> maps a PCI address to
  it. The host may fail to tell it, at any time.
\<close>

definition attached_at :: "('sel, 'ls, 'd) Env \<Rightarrow> 'sel visit list \<Rightarrow> (string \<Rightarrow> string) \<Rightarrow> bool" where
  "attached_at env vs rep_of \<longleftrightarrow>
     (\<forall>p\<in>fst ` set vs. distinct (map ifc_uid (elems (pi_Interfaces p))) \<and>
        (\<forall>ifc\<in>set (elems (pi_Interfaces p)). \<forall>d.
           getRepresentor env (if_DeviceID ifc) d \<in> insert (Inr (rep_of (if_DeviceID ifc))) (range Inl))) \<and>
     distinct (map (rep_of \<circ> if_DeviceID) (concat (map (elems \<circ> pi_Interfaces) (map fst vs))))"

text \<open>The same when no event arrives.\<close>

definition attached :: "('sel, 'ls, 'd) Env \<Rightarrow> 'sel Server \<Rightarrow> (string \<Rightarrow> string) \<Rightarrow> bool" where
  "attached env s rep_of \<longleftrightarrow>
     (\<forall>p\<in>set (local_pods env s). distinct (map ifc_uid (elems (pi_Interfaces p))) \<and>
        (\<forall>ifc\<in>set (elems (pi_Interfaces p)). \<forall>d.
           getRepresentor env (if_DeviceID ifc) d \<in> insert (Inr (rep_of (if_DeviceID ifc))) (range Inl))) \<and>
     distinct (map (rep_of \<circ> if_DeviceID) (concat (map (elems \<circ> pi_Interfaces) (local_pods env s))))"

text \<open>In every reachable state a pod of the map is found under its own name, and only once.\<close>

lemma pods_keyed:
  assumes "server_reach src cl s"
  shows "go_map (sv_podMap (update_maps s))"
    and "(k, p) \<in> set (sv_podMap (update_maps s)) \<Longrightarrow> NamespacedName (pi_Namespace p) (pi_Name p) = k"
proof -
  let ?pm = "sv_podMap (update_maps s)"
  have pods: "pods_follow (src_ann src) (cl_pods cl) [] ?pm"
    using follows_update_maps [OF follows_reach [OF assms]] by (simp add: follows_def update_maps_fields)
  then show gm: "go_map ?pm" by (simp add: pods_follow_def tracker_inv_def)
  have keyed: "\<And>k b. cl_pods cl k = Some b \<Longrightarrow> pod_key b = k"
    using pods by (simp add: pods_follow_def tracker_inv_def)
  assume "(k, p) \<in> set ?pm"
  then have k: "map_of ?pm k = Some p" using gm by (simp add: go_map_set)
  have "map_option strip_interfaces (map_of ?pm k) = map_option (static_info (src_ann src)) (cl_pods cl k)"
    using pods_follow_apply(2) [OF pods] by (simp add: tracker_apply_def)
  then obtain b where b: "cl_pods cl k = Some b" "strip_interfaces p = static_info (src_ann src) b"
    using k by (cases "cl_pods cl k") auto
  then have "pi_Namespace p = pod_Namespace b \<and> pi_Name p = pod_Name b"
    by (cases p) (simp add: strip_interfaces_def static_info_def pod_info_def)
  then show "NamespacedName (pi_Namespace p) (pi_Name p) = k" using keyed [OF b(1)] by (simp add: pod_key_def)
qed

lemma pod_found:
  assumes "server_reach src cl s" and "p \<in> set (PodMap_List (sv_podMap (update_maps s)))"
  shows "GetPodInfo (sv_podMap (update_maps s)) (pi_Namespace p) (pi_Name p) = Inr p"
  using pods_keyed [OF assms(1)] assms(2) by (auto simp: PodMap_List_def GetPodInfo_def go_map_set)

lemma pods_distinct:
  assumes "server_reach src cl s"
  shows "distinct (PodMap_List (sv_podMap (update_maps s)))"
proof -
  let ?pm = "sv_podMap (update_maps s)" and ?key = "\<lambda>p :: PodInfo. NamespacedName (pi_Namespace p) (pi_Name p)"
  have "map ?key (map snd ?pm) = map fst ?pm"
    using pods_keyed(2) [OF assms] by (auto simp: case_prod_unfold)
  then have "distinct (map ?key (map snd ?pm))"
    using pods_keyed(1) [OF assms] by (simp add: go_map_def del: map_map)
  then show ?thesis unfolding PodMap_List_def distinct_map by (rule conjunct1)
qed

text \<open>With no event arriving, the pods of the node are visited in the state of the start.\<close>

lemma pass_pod_idle: "sv_podChanges s = [] \<Longrightarrow> pass_pod env (\<lambda>_ s. s) p s = s"
  by (simp add: pass_pod_def update_pods_idle)

lemma pass_pods_idle: "sv_podChanges s = [] \<Longrightarrow> fold (pass_pod env (\<lambda>_ s. s)) ps s = s"
  by (induction ps) (simp_all add: pass_pod_idle)

lemma visited_idle:
  "sv_podChanges s = [] \<Longrightarrow> \<forall>p\<in>set ps. GetPodInfo (sv_podMap s) (pi_Namespace p) (pi_Name p) = Inr p \<Longrightarrow>
    visited env (\<lambda>_ s. s) ps s = map (\<lambda>p. (p, s)) (filter (on_node env) ps)"
  by (induction ps) (simp_all add: pass_pod_idle visit_def)

lemma visited_quiet:
  assumes "server_reach src cl s0" and "s = update_maps s0"
  shows "visited env (\<lambda>_ s. s) (PodMap_List (sv_podMap s)) s = map (\<lambda>p. (p, s)) (local_pods env s)"
proof -
  have "sv_podChanges s = []" by (simp add: assms(2) update_maps_fields)
  moreover have "\<forall>p\<in>set (PodMap_List (sv_podMap s)). GetPodInfo (sv_podMap s) (pi_Namespace p) (pi_Name p) = Inr p"
    using pod_found [OF assms(1)] by (simp add: assms(2))
  moreover have "on_node env = (\<lambda>p. CheckNodeNameIdentical (env_Hostname env) (pi_NodeName p))"
    by (rule ext) (simp add: on_node_def)
  ultimately show ?thesis by (simp add: visited_idle local_pods_def)
qed

lemma attached_quiet: "attached_at env (map (\<lambda>p. (p, s)) (local_pods env s)) rep_of = attached env s rep_of"
  by (simp add: attached_at_def attached_def image_image comp_def)

lemma visit_jobs_rules:
  assumes "distinct (map ifc_uid (elems (pi_Interfaces p)))"
  shows "set (visit_jobs env (p, s)) = Pair p ` wanted_rules env s p ` set (elems (pi_Interfaces p))"
    and "distinct (visit_jobs env (p, s))"
proof -
  obtain rules err where run: "RenderEgress (env_selectors env) p (sv_policyMap s) (sv_podMap s) (sv_namespaceMap s) = (rules, err)"
    by fastforce
  note rendered = render_run [OF assms run]
  have "distinct rules" using rendered by (simp add: distinct_map)
  moreover have "set rules = wanted_rules env s p ` set (elems (pi_Interfaces p))"
    using rendered by (auto simp: wanted_rules_def)
  moreover have "visit_jobs env (p, s) = (if elems (pi_Interfaces p) = [] then [] else map (Pair p) rules)"
    using run rendered by (simp add: visit_jobs_def)
  ultimately show "set (visit_jobs env (p, s)) = Pair p ` wanted_rules env s p ` set (elems (pi_Interfaces p))"
    and "distinct (visit_jobs env (p, s))"
    by (auto simp: distinct_map inj_on_def)
qed

definition job_rep :: "(string \<Rightarrow> string) \<Rightarrow> job \<Rightarrow> string" where
  "job_rep rep_of j = rep_of (ri_DeviceID (rs_IfcInfo (snd j)))"

lemma job_rep_wanted [simp]: "job_rep rep_of (p, wanted_rules env s p ifc) = rep_of (if_DeviceID ifc)"
  by (simp add: job_rep_def wanted_rules_def rule_set_for_def rule_interface_def)

text \<open>The jobs are the interfaces of the visited pods, each with a representor of its own.\<close>

lemma jobs_attached:
  assumes "attached_at env vs rep_of"
  shows "set (all_jobs env vs) = (\<Union>(p, s)\<in>set vs. Pair p ` wanted_rules env s p ` set (elems (pi_Interfaces p)))"
    and "distinct (map (job_rep rep_of) (all_jobs env vs))"
proof -
  have of_pod: "set (visit_jobs env v) = Pair (fst v) ` wanted_rules env (snd v) (fst v) ` set (elems (pi_Interfaces (fst v)))"
    "distinct (visit_jobs env v)" if "v \<in> set vs" for v
    using visit_jobs_rules [of "fst v" env "snd v"] that assms by (auto simp: attached_at_def)
  show "set (all_jobs env vs) = (\<Union>(p, s)\<in>set vs. Pair p ` wanted_rules env s p ` set (elems (pi_Interfaces p)))"
    unfolding all_jobs_def by (simp add: of_pod case_prod_unfold)
  have reps: "distinct (map (rep_of \<circ> if_DeviceID) (concat (map (elems \<circ> pi_Interfaces \<circ> fst) vs)))"
    using assms by (simp add: attached_at_def comp_assoc)
  have inj: "inj_on (rep_of \<circ> if_DeviceID) (set (elems (pi_Interfaces (fst v))))" if "v \<in> set vs" for v
    using that distinct_concat_part [OF reps that] by (simp add: distinct_map)
  show "distinct (map (job_rep rep_of) (all_jobs env vs))"
    unfolding all_jobs_def
  proof (rule distinct_concat_keys [OF _ reps])
    fix v
    assume v: "v \<in> set vs"
    have "inj_on (job_rep rep_of) (set (visit_jobs env v))"
      using inj [OF v] unfolding of_pod(1) [OF v] by (auto simp: inj_on_def)
    then show "distinct (map (job_rep rep_of) (visit_jobs env v)) \<and>
        job_rep rep_of ` set (visit_jobs env v) \<subseteq> (rep_of \<circ> if_DeviceID) ` set ((elems \<circ> pi_Interfaces \<circ> fst) v)"
      using of_pod [OF v] by (auto simp: distinct_map)
  qed
qed

text \<open>The wanted filters are ones the drivers can install.\<close>

lemma isolating_enforced:
  assumes "selectors_mean (env_selectors env) crd" and "implementable env crd fine s p ifc"
    and "pol \<in> set (map snd (sv_policyMap s))" and "enforced (env_selectors env) p ifc pol"
  shows "fine pol"
proof -
  have "filter (enforced (env_selectors env) p ifc) (map snd (sv_policyMap s)) = isolating_on crd s p ifc"
    unfolding isolating_on_def
    using supported_enforced [OF assms(1), of "map snd (sv_policyMap s)" p ifc "sv_podMap s" "sv_namespaceMap s"] assms(2)
    by (simp add: implementable_def)
  moreover have "pol \<in> set (filter (enforced (env_selectors env) p ifc) (map snd (sv_policyMap s)))"
    using assms(3,4) by simp
  ultimately show ?thesis using assms(2) unfolding implementable_def by metis
qed

lemma wanted_addable:
  assumes "selectors_mean (env_selectors env) crd" and "implementable env crd usual_cidrs s p ifc"
    and "GenerateFromPolicyRuleSet (wanted_rules env s p ifc) = Inr objs"
  shows "\<forall>f\<in>set (obj_Filters objs). cmd_addable f"
  by (rule rendered_addable [OF _ assms(3) [unfolded wanted_rules_def]])
    (use isolating_enforced [OF assms(1,2)] in blast)

lemma wanted_expressible:
  assumes "selectors_mean (env_selectors env) crd" and "implementable env crd no_port_zero s p ifc"
    and "GenerateFromPolicyRuleSet (wanted_rules env s p ifc) = Inr objs"
  shows "\<forall>f\<in>set (obj_Filters objs). nl_expressible f"
  by (rule rendered_expressible [OF _ assms(3) [unfolded wanted_rules_def]])
    (use isolating_enforced [OF assms(1,2)] in blast)

section \<open>What a synchronisation does to a device\<close>

text \<open>
  A job succeeds on a device when the representor is found, the rules generate, the actuator is
  created (with the netlink driver this looks up the link) and actuating reports no error.
\<close>

definition job_succeeds :: "('sel, 'ls, 'd) Env \<Rightarrow> PolicyRuleSet \<Rightarrow> 'd \<Rightarrow> bool" where
  "job_succeeds env rs d \<longleftrightarrow>
     (case getRepresentor env (ri_DeviceID (rs_IfcInfo rs)) d of
        Inl _ \<Rightarrow> False
      | Inr rep \<Rightarrow>
          (case GenerateFromPolicyRuleSet rs of
             Inl _ \<Rightarrow> False
           | Inr objs \<Rightarrow>
               (case createActuatorFromRepFn env rep d of
                  Inl _ \<Rightarrow> False
                | Inr actuator \<Rightarrow> fst (actuator objs d) = None)))"

text \<open>
  The outcome for one interface, from the filters \<open>old\<close> to the filters \<open>now\<close> on its
  representor; \<open>ok\<close> says whether the job succeeded. With an isolating policy the wanted filters
  replace the others, up to handles, and enforce the policies; without one the filters of chain 0
  go. A failure of any call leaves something between the two.
\<close>

definition interface_synced ::
  "('sel, 'ls, 'd) Env \<Rightarrow> 'sel Meaning \<Rightarrow> 'sel Server \<Rightarrow> PodInfo \<Rightarrow> InterfaceInfo \<Rightarrow> bool \<Rightarrow>
    FlowerFilter set \<Rightarrow> FlowerFilter set \<Rightarrow> bool" where
  "interface_synced env crd s p ifc ok old now \<longleftrightarrow>
     (\<exists>objs. GenerateFromPolicyRuleSet (wanted_rules env s p ifc) = Inr objs \<and>
       (if isolating_on crd s p ifc = []
        then {f \<in> old. chain_no f \<noteq> 0} \<subseteq> now \<and> now \<subseteq> old \<and> (ok \<longrightarrow> now = {f \<in> old. chain_no f \<noteq> 0})
        else enforces crd (if_NetattachName ifc) (sv_podMap s) (sv_namespaceMap s) (isolating_on crd s p ifc)
            (tc_verdict (obj_Filters objs)) \<and>
          norm_filter ` old \<inter> norm_filter ` set (obj_Filters objs) \<subseteq> norm_filter ` now \<and>
          norm_filter ` now \<subseteq> norm_filter ` old \<union> norm_filter ` set (obj_Filters objs) \<and>
          (ok \<longrightarrow> norm_filter ` now = norm_filter ` set (obj_Filters objs))))"

lemma interface_bounded:
  "interface_synced env crd s p ifc ok old now \<Longrightarrow> isolating_on crd s p ifc \<noteq> [] \<Longrightarrow>
    \<exists>objs. GenerateFromPolicyRuleSet (wanted_rules env s p ifc) = Inr objs \<and>
      norm_filter ` now \<subseteq> norm_filter ` old \<union> norm_filter ` set (obj_Filters objs)"
  by (auto simp: interface_synced_def)

text \<open>The device after one job.\<close>

lemma do_job_dev:
  assumes "getRepresentor env (ri_DeviceID (rs_IfcInfo rs)) (wd_dev w) \<in> insert (Inr rep) (range Inl)"
    and "createActuatorFromRepFn env rep (wd_dev w) \<in> insert (Inr (Actuate api)) (range Inl)"
    and "GenerateFromPolicyRuleSet rs = Inr objs"
  shows "wd_dev (do_job env (p, rs) w) = snd (Actuate api objs (wd_dev w)) \<and>
      (job_succeeds env rs (wd_dev w) \<longrightarrow> fst (Actuate api objs (wd_dev w)) = None) \<or>
    wd_dev (do_job env (p, rs) w) = wd_dev w \<and> \<not> job_succeeds env rs (wd_dev w)"
proof (cases "getRepresentor env (ri_DeviceID (rs_IfcInfo rs)) (wd_dev w)")
  case (Inl e)
  then show ?thesis by (simp add: do_job_def sync_rule_set_def job_succeeds_def)
next
  case rep: (Inr r)
  then have r: "r = rep" using assms(1) by auto
  show ?thesis
  proof (cases "createActuatorFromRepFn env rep (wd_dev w)")
    case (Inl e)
    then show ?thesis using rep by (simp add: do_job_def sync_rule_set_def job_succeeds_def r assms(3))
  next
    case (Inr act)
    then have "act = Actuate api" using assms(2) by auto
    then show ?thesis
      using rep Inr unfolding do_job_def sync_rule_set_def job_succeeds_def r
      by (cases "Actuate api objs (wd_dev w)") (auto simp: assms(3) split: option.split)
  qed
qed

context tc_devices
begin

lemma interface_outcome:
  assumes "selectors_mean (env_selectors env) crd" and "implementable env crd fine s p ifc"
    and "\<forall>objs. GenerateFromPolicyRuleSet (wanted_rules env s p ifc) = Inr objs \<longrightarrow> (\<forall>f\<in>set (obj_Filters objs). good f)"
    and "getRepresentor env (if_DeviceID ifc) (wd_dev w) \<in> insert (Inr rep) (range Inl)"
    and "createActuatorFromRepFn env rep (wd_dev w) \<in> insert (Inr (Actuate (api rep))) (range Inl)"
    and "inj_on ff_Attrs (inst rep (wd_dev w))" and "inj_on norm_filter (inst rep (wd_dev w))"
  shows "interface_synced env crd s p ifc (job_succeeds env (wanted_rules env s p ifc) (wd_dev w))
    (inst rep (wd_dev w)) (inst rep (wd_dev (do_job env (p, wanted_rules env s p ifc) w)))"
proof -
  let ?rules = "wanted_rules env s p ifc" and ?ok = "job_succeeds env (wanted_rules env s p ifc) (wd_dev w)"
  obtain objs where objs: "GenerateFromPolicyRuleSet ?rules = Inr objs"
    using rule_set_generates unfolding wanted_rules_def by blast
  have "\<forall>pol\<in>set (map snd (sv_policyMap s)). supported (env_selectors env) crd p ifc (sv_podMap s) (sv_namespaceMap s) pol"
    using assms(2) by (simp add: implementable_def)
  note meaning = pipeline [OF assms(1) this objs [unfolded wanted_rules_def], folded isolating_on_def]
  have q: "obj_QDisc objs = Some ingress" using objs by (simp add: Generate_Inr_iff)
  have rep: "getRepresentor env (ri_DeviceID (rs_IfcInfo ?rules)) (wd_dev w) \<in> insert (Inr rep) (range Inl)"
    using assms(4) by (simp add: wanted_rules_def rule_set_for_def rule_interface_def)
  let ?after = "wd_dev (do_job env (p, ?rules) w)"
  consider (ran) "?after = snd (Actuate (api rep) objs (wd_dev w))"
      "?ok \<longrightarrow> fst (Actuate (api rep) objs (wd_dev w)) = None"
    | (kept) "?after = wd_dev w" "\<not> ?ok"
    using do_job_dev [OF rep assms(5) objs, of p] by blast
  note dev = this
  have some: "isolating_on crd s p ifc \<noteq> [] \<Longrightarrow> obj_Filters objs \<noteq> []"
  proof
    assume some: "isolating_on crd s p ifc \<noteq> []" and none: "obj_Filters objs = []"
    then have "enforces crd (if_NetattachName ifc) (sv_podMap s) (sv_namespaceMap s) (isolating_on crd s p ifc) (tc_verdict [])"
      using meaning by simp
    then have "tc_verdict [] pk \<noteq> Unmatched" if "pk_EthType pk = ''ip''" for pk
      using that by (auto simp: enforces_def crd_verdict_def split: if_splits)
    moreover have "pk_EthType (ex_tcp_packet 0) = ''ip''" by (simp add: ex_tcp_packet_def go_consts)
    ultimately show False by (force simp: tc_verdict_def winning_def)
  qed
  show ?thesis
  proof (cases "isolating_on crd s p ifc = []")
    case True
    then have none: "obj_Filters objs = []" using meaning by simp
    note run = tc_contract.actuate_nothing_run [OF device prod.collapse [symmetric] q none refl]
    show ?thesis
      unfolding interface_synced_def
      by (rule exI [of _ objs]) 
        (rule dev, use objs True run in simp_all)
  next
    case False
    note run = tc_contract.actuate_run [OF device prod.collapse [symmetric] q some [OF False] assms(6,7)
        mp [OF spec [OF assms(3)] objs]]
    show ?thesis
      unfolding interface_synced_def
      by (rule exI [of _ objs]) 
        (rule dev, use objs False run meaning in simp_all)
  qed
qed

text \<open>All devices after a synchronisation.\<close>

lemma pass_outcome:
  assumes means: "selectors_mean (env_selectors env) crd"
    and vs: "vs = visited env arrive (PodMap_List (sv_podMap (update_maps s0))) (update_maps s0)"
    and att: "attached_at env vs rep_of"
    and act: "\<forall>(p, s)\<in>set vs. \<forall>ifc\<in>set (elems (pi_Interfaces p)). \<forall>d.
      createActuatorFromRepFn env (rep_of (if_DeviceID ifc)) d
        \<in> insert (Inr (Actuate (api (rep_of (if_DeviceID ifc))))) (range Inl)"
    and impl: "\<forall>(p, s)\<in>set vs. \<forall>ifc\<in>set (elems (pi_Interfaces p)). implementable env crd fine s p ifc"
    and good: "\<forall>(p, s)\<in>set vs. \<forall>ifc\<in>set (elems (pi_Interfaces p)). \<forall>objs.
      GenerateFromPolicyRuleSet (wanted_rules env s p ifc) = Inr objs \<longrightarrow> (\<forall>f\<in>set (obj_Filters objs). good f)"
    and inj: "\<And>rep. inj_on ff_Attrs (inst rep (wd_dev w)) \<and> inj_on norm_filter (inst rep (wd_dev w))"
    and run: "syncMultiPolicy env arrive s0 w = (s', w')"
  shows "(p, s) \<in> set vs \<Longrightarrow> ifc \<in> set (elems (pi_Interfaces p)) \<Longrightarrow> rep = rep_of (if_DeviceID ifc) \<Longrightarrow>
      interface_synced env crd s p ifc
        (job_succeeds env (wanted_rules env s p ifc)
           (wd_dev (until_job (do_job env) (all_jobs env vs) (p, wanted_rules env s p ifc) w)))
        (inst rep (wd_dev w)) (inst rep (wd_dev w'))"
    and "rep \<notin> rep_of ` if_DeviceID ` (\<Union>p\<in>fst ` set vs. set (elems (pi_Interfaces p))) \<Longrightarrow>
      inst rep (wd_dev w') = inst rep (wd_dev w)"
proof -
  note jobs = jobs_attached [OF att] and dev = sync_run(2) [OF run, folded vs]
  have host: "getRepresentor env (if_DeviceID ifc) d \<in> insert (Inr (rep_of (if_DeviceID ifc))) (range Inl)"
    if "(p, s) \<in> set vs" and "ifc \<in> set (elems (pi_Interfaces p))" for p s ifc d
  proof -
    have "p \<in> fst ` set vs" using that(1) by force
    then show ?thesis using att that(2) unfolding attached_at_def by blast
  qed
  have apart: "inst k (wd_dev (do_job env j v)) = inst k (wd_dev v)"
    if j: "j \<in> set (all_jobs env vs)" and k: "job_rep rep_of j \<noteq> k" for j v k
  proof -
    obtain p s ifc where p: "(p, s) \<in> set vs" "ifc \<in> set (elems (pi_Interfaces p))"
      and j: "j = (p, wanted_rules env s p ifc)"
      using j unfolding jobs(1) by blast
    let ?rep = "rep_of (if_DeviceID ifc)"
    have at: "getRepresentor env (ri_DeviceID (rs_IfcInfo (wanted_rules env s p ifc))) (wd_dev v) \<in> insert (Inr ?rep) (range Inl)"
      using host [OF p] by (simp add: wanted_rules_def rule_set_for_def rule_interface_def)
    obtain objs where objs: "GenerateFromPolicyRuleSet (wanted_rules env s p ifc) = Inr objs"
      using rule_set_generates unfolding wanted_rules_def by blast
    note d = do_job_dev [OF at bspec [OF act p(1), unfolded prod.case, rule_format, OF p(2)] objs, of p]
    have "k \<noteq> ?rep" using k by (simp add: j eq_commute)
    from other_device [OF this] show ?thesis using d unfolding j by metis
  qed
  show "interface_synced env crd s p ifc
        (job_succeeds env (wanted_rules env s p ifc)
           (wd_dev (until_job (do_job env) (all_jobs env vs) (p, wanted_rules env s p ifc) w)))
        (inst rep (wd_dev w)) (inst rep (wd_dev w'))"
    if p: "(p, s) \<in> set vs" "ifc \<in> set (elems (pi_Interfaces p))" and rep: "rep = rep_of (if_DeviceID ifc)"
  proof -
    let ?j = "(p, wanted_rules env s p ifc)"
    let ?u = "until_job (do_job env) (all_jobs env vs) ?j w"
    have mem: "?j \<in> set (all_jobs env vs)" using p unfolding jobs(1) by blast
    have one: "inst rep (wd_dev ?u) = inst rep (wd_dev w)"
      "inst rep (wd_dev (fold (do_job env) (all_jobs env vs) w)) = inst rep (wd_dev (do_job env ?j ?u))"
      using fold_one [where I = "\<lambda>k w. inst k (wd_dev w)" and f = "do_job env", OF jobs(2) mem apart, of w]
      by (simp_all add: rep)
    have keys: "inj_on ff_Attrs (inst rep (wd_dev ?u))" "inj_on norm_filter (inst rep (wd_dev ?u))"
      unfolding one(1) using inj by simp_all
    have "interface_synced env crd s p ifc (job_succeeds env (wanted_rules env s p ifc) (wd_dev ?u))
        (inst rep (wd_dev ?u)) (inst rep (wd_dev (do_job env ?j ?u)))"
    proof (rule interface_outcome [OF means _ _ _ _ keys])
      show "implementable env crd fine s p ifc" using bspec [OF impl p(1)] p(2) by simp
      show "\<forall>objs. GenerateFromPolicyRuleSet (wanted_rules env s p ifc) = Inr objs \<longrightarrow> (\<forall>f\<in>set (obj_Filters objs). good f)"
        using bspec [OF good p(1)] p(2) by simp
      show "getRepresentor env (if_DeviceID ifc) (wd_dev ?u) \<in> insert (Inr rep) (range Inl)"
        unfolding rep by (rule host [OF p])
      show "createActuatorFromRepFn env rep (wd_dev ?u) \<in> insert (Inr (Actuate (api rep))) (range Inl)"
        using bspec [OF act p(1)] p(2) unfolding rep prod.case by blast
    qed
    then show ?thesis unfolding dev one .
  qed
  show "inst rep (wd_dev w') = inst rep (wd_dev w)"
    if rep: "rep \<notin> rep_of ` if_DeviceID ` (\<Union>p\<in>fst ` set vs. set (elems (pi_Interfaces p)))"
  proof -
    have "rep \<notin> job_rep rep_of ` set (all_jobs env vs)"
      using rep unfolding jobs(1) by (force simp: image_iff)
    then show ?thesis
      unfolding dev
      by (intro fold_other [where I = "\<lambda>k w. inst k (wd_dev w)" and key = "job_rep rep_of"]) (simp_all only: apart simp_thms)
  qed
qed

text \<open>The same when no event arrives.\<close>

lemma sync_outcome:
  assumes "selectors_mean (env_selectors env) crd" and "server_reach src cl s0" and "s = update_maps s0"
    and "attached env s rep_of"
    and act: "\<forall>p\<in>set (local_pods env s). \<forall>ifc\<in>set (elems (pi_Interfaces p)). \<forall>d.
      createActuatorFromRepFn env (rep_of (if_DeviceID ifc)) d
        \<in> insert (Inr (Actuate (api (rep_of (if_DeviceID ifc))))) (range Inl)"
    and impl: "\<forall>p\<in>set (local_pods env s). \<forall>ifc\<in>set (elems (pi_Interfaces p)). implementable env crd fine s p ifc"
    and good: "\<forall>p\<in>set (local_pods env s). \<forall>ifc\<in>set (elems (pi_Interfaces p)). \<forall>objs.
      GenerateFromPolicyRuleSet (wanted_rules env s p ifc) = Inr objs \<longrightarrow> (\<forall>f\<in>set (obj_Filters objs). good f)"
    and inj: "\<And>rep. inj_on ff_Attrs (inst rep (wd_dev w)) \<and> inj_on norm_filter (inst rep (wd_dev w))"
    and run: "syncMultiPolicy env (\<lambda>_ s. s) s0 w = (s', w')"
  shows "p \<in> set (local_pods env s) \<Longrightarrow> ifc \<in> set (elems (pi_Interfaces p)) \<Longrightarrow> rep = rep_of (if_DeviceID ifc) \<Longrightarrow>
      interface_synced env crd s p ifc
        (job_succeeds env (wanted_rules env s p ifc)
           (wd_dev (until_job (do_job env) (sync_jobs env s) (p, wanted_rules env s p ifc) w)))
        (inst rep (wd_dev w)) (inst rep (wd_dev w'))"
    and "rep \<notin> rep_of ` if_DeviceID ` (\<Union>p\<in>set (local_pods env s). set (elems (pi_Interfaces p))) \<Longrightarrow>
      inst rep (wd_dev w') = inst rep (wd_dev w)"
    and "s' = s"
proof -
  let ?vs = "map (\<lambda>p. (p, s)) (local_pods env s)"
  note quiet = visited_quiet [OF assms(2,3), of env]
  have vs: "?vs = visited env (\<lambda>_ s. s) (PodMap_List (sv_podMap (update_maps s0))) (update_maps s0)"
    unfolding assms(3) [symmetric] by (rule quiet [symmetric])
  have jobs: "sync_jobs env s = all_jobs env ?vs" by (simp add: sync_jobs_def quiet)
  have fst: "fst ` set ?vs = set (local_pods env s)" by (simp add: image_image)
  have att: "attached_at env ?vs rep_of" using assms(4) by (simp only: attached_quiet)
  have all: "(\<forall>(p, s)\<in>set ?vs. P p s) \<longleftrightarrow> (\<forall>p\<in>set (local_pods env s). P p s)" for P by simp
  note out = pass_outcome [OF assms(1) vs att, unfolded all fst, OF act impl good inj run]
  show "interface_synced env crd s p ifc
        (job_succeeds env (wanted_rules env s p ifc)
           (wd_dev (until_job (do_job env) (sync_jobs env s) (p, wanted_rules env s p ifc) w)))
        (inst rep (wd_dev w)) (inst rep (wd_dev w'))"
    if "p \<in> set (local_pods env s)" "ifc \<in> set (elems (pi_Interfaces p))" "rep = rep_of (if_DeviceID ifc)"
    unfolding jobs by (rule out(1)) (use that in simp_all)
  show "inst rep (wd_dev w') = inst rep (wd_dev w)"
    if "rep \<notin> rep_of ` if_DeviceID ` (\<Union>p\<in>set (local_pods env s). set (elems (pi_Interfaces p)))"
    by (rule out(2) [OF that])
  show "s' = s"
    using sync_run(1) [OF run] by (simp add: pass_pods_idle update_maps_fields assms(3))
qed

end

end
