(* ===== verification/Sync_Example.thy ===== *)
theory Sync_Example
  imports Sync_Run
begin

text \<open>
  A node for the witnesses: a server that has seen a network definition, a pod with one interface
  and a policy, and two hosts on which only the device \<open>eth3\<close> exists, one under the command line
  program and one under the netlink library.
\<close>

section \<open>The server\<close>

definition ex_events :: "(string \<times> string) list Server" where
  "ex_events =
     deliver_policy (Added (pli_Policy ex_egress_policy))
       (deliver_pod ex_src (Added ex_pod)
         (deliver_netdef ex_cni (Added (ex_netdef ''accelerated-bridge'')) ex_ready))"

definition ex_seen :: "(string \<times> string) list Cluster" where
  "ex_seen =
     (let c0 = ex_cluster; c1 = c0\<lparr>cl_netdefs := after netdef_key (cl_netdefs c0) (Added (ex_netdef ''accelerated-bridge''))\<rparr>;
          c2 = c1\<lparr>cl_pods := after pod_key (cl_pods c1) (Added ex_pod)\<rparr>
      in c2\<lparr>cl_policies := after policy_key (cl_policies c2) (Added (pli_Policy ex_egress_policy))\<rparr>)"

lemma ex_events_reach: "server_reach ex_src ex_seen ex_events"
proof -
  have cni: "src_cni ex_src = ex_cni" by (simp add: ex_src_def)
  have start: "0 < sv_startPodConfig (deliver_netdef ex_cni (Added (ex_netdef ''accelerated-bridge''))
      (ex_ready :: (string \<times> string) list Server))" by code_simp
  show ?thesis
    unfolding ex_events_def ex_seen_def Let_def
    by (rule reach_policy_event, rule reach_pod_event,
        rule reach_netdef_event [of ex_src, unfolded cni, OF ex_ready_reach])
      (simp_all only: start, simp_all add: ex_cluster_def empty_cluster_def)
qed

definition ex_pod_info :: PodInfo where
  "ex_pod_info = fst (newPodInfo ex_ann ex_plugins ex_ndt ex_pod)"

lemma ex_pod_info_ifcs: "pi_Interfaces ex_pod_info = Some [ex_ifc_info]"
  by code_simp

lemma ex_maps:
  "sv_podMap (update_maps ex_events) = [(NamespacedName ''blue'' ''p1'', ex_pod_info)]"
  "sv_policyMap (update_maps ex_events) = [(NamespacedName ''blue'' ''p'', ex_egress_policy)]"
  "sv_namespaceMap (update_maps ex_events) = []"
  by code_simp+

section \<open>The hosts\<close>

definition ex_tool_view :: "string \<Rightarrow> bool \<Rightarrow> installed set" where
  "ex_tool_view dev w = (if dev = ''eth3'' then ex_filters_of w else {})"

definition ex_nl_view :: "string \<Rightarrow> NlFlower list \<Rightarrow> NlFlower set" where
  "ex_nl_view rep w = (if rep = ''eth3'' then ex_view w else {})"

definition ex_links :: "string \<Rightarrow> Link" where
  "ex_links rep = (if rep = ''eth3'' then ex_link else \<lparr>link_Index = 0\<rparr>)"

text \<open>Commands for another device name it, and the program refuses them.\<close>

lemma parse_tc_device: "parse_tc (on_dev obj verb dev @ args) = Some (dev', cmd) \<Longrightarrow> dev' = dev"
  by (auto simp: parse_tc_def on_dev_def split: if_splits list.splits)

lemma ex_device_other:
  assumes "\<And>cmd'. parse_tc args \<noteq> Some (''eth3'', cmd')"
  shows "Cmd_Run ex_device cmd args w = (Some (External ''exit status 2''), w)"
    and "Cmd_Output ex_device cmd args w = (Inl (External ''exit status 1''), w)"
proof -
  have "dev \<noteq> ''eth3''" if "parse_tc args = Some (dev, cmd')" for dev cmd' using assms that by blast
  then show "Cmd_Run ex_device cmd args w = (Some (External ''exit status 2''), w)"
    "Cmd_Output ex_device cmd args w = (Inl (External ''exit status 1''), w)"
    by (simp_all add: ex_device_def Let_def split: option.split prod.split)
qed

lemma ex_device_apart:
  assumes "dev \<noteq> ''eth3''"
  shows "Cmd_Run ex_device cmd (on_dev obj verb dev @ args) w = (Some (External ''exit status 2''), w)"
proof (rule ex_device_other(1))
  show "parse_tc (on_dev obj verb dev @ args) \<noteq> Some (''eth3'', cmd')" for cmd'
    using parse_tc_device assms by metis
qed

lemma ex_device_output_keeps: "snd (Cmd_Output ex_device cmd args w) = w"
  by (simp add: ex_device_def)

lemma ex_no_device:
  assumes "dev \<noteq> ''eth3''"
  shows "tool_contract ex_device dev (\<lambda>_. {})"
proof
  fix x :: installed and w w' :: bool and args r l cmd
  show "expected x" if "x \<in> {}" using that by simp
  have other: "parse_tc args \<noteq> Some (''eth3'', cmd')" if "parse_tc args = Some (dev, cmd)" for cmd'
    using that assms by simp
  show "if r = None then tc_effect cmd {} {} else {} = ({} :: installed set)"
    if "Cmd_Run ex_device ''tc'' args w = (r, w')" and "parse_tc args = Some (dev, cmd)"
    using that(1) ex_device_other(1) [OF other [OF that(2)]] by auto
  show "{} = ({} :: installed set) \<and> (\<forall>out. l = Inr out \<longrightarrow>
      (cmd = FilterList \<longrightarrow> lists_filters out {}) \<and> (cmd = ChainList \<longrightarrow> lists_chains out {}))"
    if "Cmd_Output ex_device ''tc'' args w = (l, w')" and "parse_tc args = Some (dev, cmd)"
    using that(1) ex_device_other(2) [OF other [OF that(2)]] by auto
qed

lemma ex_tool_devices: "tool_devices ex_device ex_tool_view"
proof (rule tool_devices.intro)
  fix dev dev' obj verb :: string and args
  show "tool_contract ex_device dev (ex_tool_view dev)"
    using ex_tool_contract ex_no_device [of dev] by (cases "dev = ''eth3''") (simp_all add: ex_tool_view_def [abs_def])
  show "keeps (ex_tool_view dev') (Cmd_Run ex_device ''tc'' (on_dev obj verb dev @ args))" if "dev \<noteq> dev'"
    using that ex_device_apart [of dev] by (auto simp: keeps_def ex_tool_view_def)
  show "keeps (ex_tool_view dev') (Cmd_Output ex_device ''tc'' (on_dev obj verb dev @ args))"
    by (simp add: keeps_def ex_device_output_keeps)
qed

interpretation ex_tool_host: tool_devices ex_device ex_tool_view
  by (rule ex_tool_devices)

lemma ex_no_link: "link_Index lnk \<noteq> 3 \<Longrightarrow> nl_contract ex_nl lnk (\<lambda>_. {})"
  by unfold_locales (auto simp: ex_nl_def ex_only_def ex_only_list_def on_link_def)

lemma ex_nl_devices: "nl_devices ex_nl ex_links ex_nl_view"
proof (rule nl_devices.intro)
  fix rep rep' :: string and d k p c
  show "nl_contract ex_nl (ex_links rep) (ex_nl_view rep)"
    using ex_nl_contract ex_no_link by (cases "rep = ''eth3''") (simp_all add: ex_nl_view_def [abs_def] ex_links_def)
  show "keeps (ex_nl_view rep') (nl_QdiscAdd ex_nl d) \<and> keeps (ex_nl_view rep') (nl_QdiscDel ex_nl d)"
    if other: "rep \<noteq> rep'" and "nq_LinkIndex d = link_Index (ex_links rep)"
    using that other by (auto simp: keeps_def ex_nl_view_def ex_nl_def ex_links_def ex_only_def split: if_splits)
  show "keeps (ex_nl_view rep') (nl_FilterAdd ex_nl k) \<and> keeps (ex_nl_view rep') (nl_FilterDel ex_nl k)"
    if other: "rep \<noteq> rep'" and "fl_LinkIndex k = link_Index (ex_links rep)"
    using that other by (auto simp: keeps_def ex_nl_view_def ex_nl_def ex_links_def ex_only_def split: if_splits)
  show "keeps (ex_nl_view rep') (nl_QdiscList ex_nl (ex_links rep)) \<and>
      keeps (ex_nl_view rep') (nl_FilterList ex_nl (ex_links rep) p) \<and>
      keeps (ex_nl_view rep') (nl_ChainList ex_nl (ex_links rep) p)"
    by (simp add: keeps_def ex_nl_def ex_only_list_def)
  show "keeps (ex_nl_view rep') (nl_ChainDel ex_nl (ex_links rep) c)" if other: "rep \<noteq> rep'"
    using other by (auto simp: keeps_def ex_nl_view_def ex_nl_def ex_links_def ex_only_def)
qed

interpretation ex_nl_host: nl_devices ex_nl ex_links ex_nl_view
  by (rule ex_nl_devices)

section \<open>The environments\<close>

definition ex_tool_env :: "((string \<times> string) list, labels, bool) Env" where
  "ex_tool_env =
     \<lparr>env_selectors = ex_api, env_options = default_options, env_Hostname = ''node1'',
      env_failures = no_failures, GetVfIndexByPciAddress = \<lambda>_ _. Inr 3,
      GetUplinkRepresentor = \<lambda>_ _. Inr ''p0'', GetVfRepresentor = \<lambda>_ _ _. Inr ''eth3'',
      LinkByName = \<lambda>_ _. Inr ex_link, env_netlink = ex_no_netlink, env_exec = ex_device,
      opt_createActuatorForRep = None\<rparr>"

definition ex_nl_env :: "((string \<times> string) list, labels, NlFlower list) Env" where
  "ex_nl_env =
     \<lparr>env_selectors = ex_api, env_options = default_options\<lparr>opt_tcDriver := ''netlink''\<rparr>,
      env_Hostname = ''node1'', env_failures = no_failures, GetVfIndexByPciAddress = \<lambda>_ _. Inr 3,
      GetUplinkRepresentor = \<lambda>_ _. Inr ''p0'', GetVfRepresentor = \<lambda>_ _ _. Inr ''eth3'',
      LinkByName = \<lambda>rep _. Inr (ex_links rep), env_netlink = ex_nl, env_exec = ex_no_tc,
      opt_createActuatorForRep = None\<rparr>"

lemma ex_local:
  "env_Hostname env = ''node1'' \<Longrightarrow> local_pods env (update_maps ex_events) = [ex_pod_info]"
proof -
  have "CheckNodeNameIdentical ''node1'' (pi_NodeName ex_pod_info)" by code_simp
  then show "env_Hostname env = ''node1'' \<Longrightarrow> local_pods env (update_maps ex_events) = [ex_pod_info]"
    by (simp add: local_pods_def ex_maps PodMap_List_def)
qed

lemma ex_attached:
  assumes "env_Hostname env = ''node1''" and "\<And>d. getRepresentor env ''0000:03:00.2'' d = Inr ''eth3''"
  shows "attached env (update_maps ex_events) (\<lambda>_. ''eth3'')"
  unfolding attached_def ex_local [OF assms(1)] using assms(2) by (simp add: ex_pod_info_ifcs ex_ifc_info_def)

lemma ex_isolating_on: "isolating_on ex_meaning (update_maps ex_events) ex_pod_info ex_ifc_info = [ex_egress_policy]"
  by code_simp

section \<open>Facts about the run\<close>

lemma ex_nl_run:
  "job_succeeds ex_nl_env (wanted_rules ex_nl_env (update_maps ex_events) ex_pod_info ex_ifc_info) [ex_nl_listed 80]"
  by code_simp

lemma ex_nl_first:
  "takeWhile (\<lambda>x. x \<noteq> (ex_pod_info, wanted_rules ex_nl_env (update_maps ex_events) ex_pod_info ex_ifc_info))
     (sync_jobs ex_nl_env (update_maps ex_events)) = []"
  by code_simp

lemma ex_policy_fits: "no_port_zero ex_egress_policy" "usual_cidrs ex_egress_policy"
  by (simp add: no_port_zero_def, code_simp) (simp add: usual_cidrs_def, code_simp)

end
