(* ===== verification/Sync_Arrivals.thy ===== *)
theory Sync_Arrivals
  imports Sync_Example
begin

text \<open>
  A synchronisation into which informer events arrive. \<open>syncMultiPolicy\<close> updates all maps at its
  start and the pods again before each pod of the node, so a pod is programmed with what the
  cluster says of it then, and with the policies and namespaces of the start. The handlers only
  touch the trackers, so an event that arrives while a pod is worked on is seen at the next one.
\<close>

section \<open>What a visit sees\<close>

text \<open>Before each pod of the node any number of handlers is called.\<close>

fun hears ::
  "Sources \<Rightarrow> ('sel, 'ls, 'd) Env \<Rightarrow> (PodInfo \<Rightarrow> 'sel Server \<Rightarrow> 'sel Server) \<Rightarrow> PodInfo list \<Rightarrow>
    'sel Cluster \<Rightarrow> 'sel Server \<Rightarrow> 'sel Cluster \<Rightarrow> bool" where
  "hears src env arrive [] cl s cl' \<longleftrightarrow> cl' = cl"
| "hears src env arrive (p # ps) cl s cl' \<longleftrightarrow>
     (if on_node env p
      then \<exists>cl1. heard src cl s cl1 (arrive p s) \<and> hears src env arrive ps cl1 (update_pods (arrive p s)) cl'
      else hears src env arrive ps cl s cl')"

text \<open>The pods as the cluster has them, each under its own name.\<close>

lemma pods_current:
  assumes "server_reach src cl s" and "sv_podChanges s = []"
  shows "map_option strip_interfaces \<circ> map_of (sv_podMap s) = map_option (static_info (src_ann src)) \<circ> cl_pods cl"
    and "GetPodInfo (sv_podMap s) ns n = Inr i \<Longrightarrow>
      \<exists>pod. cl_pods cl (NamespacedName ns n) = Some pod \<and> strip_interfaces i = static_info (src_ann src) pod"
proof -
  have "pods_follow (src_ann src) (cl_pods cl) [] (sv_podMap s)"
    using follows_reach [OF assms(1)] assms(2) by (simp add: follows_def)
  from pods_follow_apply(2) [OF this]
  have at: "map_option strip_interfaces (map_of (sv_podMap s) k) = map_option (static_info (src_ann src)) (cl_pods cl k)" for k
    by (simp add: tracker_apply_def)
  then show "map_option strip_interfaces \<circ> map_of (sv_podMap s) = map_option (static_info (src_ann src)) \<circ> cl_pods cl"
    by (simp add: fun_eq_iff)
  show "\<exists>pod. cl_pods cl (NamespacedName ns n) = Some pod \<and> strip_interfaces i = static_info (src_ann src) pod"
    if "GetPodInfo (sv_podMap s) ns n = Inr i"
    using that at [of "NamespacedName ns n"]
    by (cases "cl_pods cl (NamespacedName ns n)") (auto simp: GetPodInfo_def split: option.splits)
qed

lemma visited_states:
  assumes "server_reach src cl s" and "hears src env arrive ps cl s cl'" and "(i, t) \<in> set (visited env arrive ps s)"
  shows "\<exists>cl1 p. p \<in> set ps \<and> on_node env p \<and> server_reach src cl1 t \<and> sv_podChanges t = [] \<and>
    GetPodInfo (sv_podMap t) (pi_Namespace p) (pi_Name p) = Inr i \<and>
    sv_policyMap t = sv_policyMap s \<and> sv_namespaceMap t = sv_namespaceMap s"
  using assms
proof (induction ps arbitrary: cl s)
  case (Cons p ps)
  show ?case
  proof (cases "on_node env p")
    case True
    let ?s = "update_pods (arrive p s)"
    obtain cl1 where heard: "heard src cl s cl1 (arrive p s)" and rest: "hears src env arrive ps cl1 ?s cl'"
      using Cons.prems(2) True by auto
    have reach: "server_reach src cl1 ?s"
      by (rule server_reach.synced_pods [OF heard_reach [OF heard Cons.prems(1)]])
    have same: "sv_policyMap ?s = sv_policyMap s" "sv_namespaceMap ?s = sv_namespaceMap s" "sv_podChanges ?s = []"
      using heard_keeps_maps [OF heard] by (simp_all add: update_pods_fields)
    have "(i, t) \<in> set (visit env p ?s) \<or> (i, t) \<in> set (visited env arrive ps ?s)"
      using Cons.prems(3) True by (simp add: pass_pod_def Let_def)
    then show ?thesis
    proof
      assume "(i, t) \<in> set (visit env p ?s)"
      then have "t = ?s" "GetPodInfo (sv_podMap ?s) (pi_Namespace p) (pi_Name p) = Inr i"
        by (auto simp: visit_def split: if_splits sum.splits)
      then show ?thesis using True reach same by auto
    next
      assume "(i, t) \<in> set (visited env arrive ps ?s)"
      from Cons.IH [OF reach rest this] show ?thesis using same by auto
    qed
  next
    case False
    then have "(i, t) \<in> set (visited env arrive ps s)" "hears src env arrive ps cl s cl'"
      using Cons.prems by (simp_all add: pass_pod_def visit_def Let_def)
    from Cons.IH [OF Cons.prems(1) this(2,1)] show ?thesis by auto
  qed
qed simp


section \<open>Example\<close>

text \<open>The pod of the example node is deleted and made again on another node before its turn.\<close>

definition ex_moved :: Pod where
  "ex_moved = ex_pod\<lparr>pod_NodeName := ''node2'', pod_UID := ''u2''\<rparr>"

definition ex_arrive :: "PodInfo \<Rightarrow> (string \<times> string) list Server \<Rightarrow> (string \<times> string) list Server" where
  "ex_arrive p s = deliver_pod ex_src (Added ex_moved) (deliver_pod ex_src (Deleted ex_pod) s)"

definition ex_moved_info :: PodInfo where
  "ex_moved_info = fst (newPodInfo ex_ann ex_plugins ex_ndt ex_moved)"

definition ex_moved_server :: "(string \<times> string) list Server" where
  "ex_moved_server = update_pods (ex_arrive ex_pod_info (update_maps ex_events))"

lemma ex_moved_visit:
  "visited ex_tool_env ex_arrive (PodMap_List (sv_podMap (update_maps ex_events))) (update_maps ex_events) =
    [(ex_moved_info, ex_moved_server)]"
proof -
  have "on_node ex_tool_env ex_pod_info" by code_simp
  moreover have "GetPodInfo (sv_podMap ex_moved_server) (pi_Namespace ex_pod_info) (pi_Name ex_pod_info) = Inr ex_moved_info"
    by code_simp
  ultimately show ?thesis
    by (simp add: ex_maps PodMap_List_def pass_pod_def visit_def ex_moved_server_def)
qed

lemma ex_moved_away: "\<not> on_node ex_tool_env ex_moved_info" by code_simp

lemma ex_moved_heard:
  "\<exists>cl1. heard ex_src ex_seen (update_maps ex_events) cl1 (ex_arrive p (update_maps ex_events))"
proof -
  have closed: "0 < sv_startPodConfig (update_maps ex_events)"
    "0 < sv_startPodConfig (deliver_pod ex_src (Deleted ex_pod) (update_maps ex_events))" by code_simp+
  have here: "cl_pods ex_seen (pod_key ex_pod) = Some ex_pod"
    by (simp add: ex_seen_def ex_cluster_def empty_cluster_def Let_def)
  have key: "pod_key ex_moved = pod_key ex_pod" by (simp add: ex_moved_def pod_key_def)
  have "heard ex_src ex_seen (update_maps ex_events) (ex_seen\<lparr>cl_pods := after pod_key (cl_pods ex_seen) (Deleted ex_pod)\<rparr>)
      (deliver_pod ex_src (Deleted ex_pod) (update_maps ex_events))"
    by (rule heard.more [OF heard.nothing handler_step.pod_event [OF closed(1)]]) (simp add: here)
  from heard.more [OF this handler_step.pod_event [OF closed(2), where ev = "Added ex_moved"]]
  show ?thesis unfolding ex_arrive_def by (auto simp: key)
qed

text \<open>
  So a pod that left the node while the synchronisation ran is still programmed: the test of the
  node is made on the pod as listed at the start, and not on the information the loop reads again.
\<close>

lemma ex_moved_hears:
  "\<exists>cl'. hears ex_src ex_tool_env ex_arrive (PodMap_List (sv_podMap (update_maps ex_events))) ex_seen
    (update_maps ex_events) cl'"
proof -
  have "on_node ex_tool_env ex_pod_info" by code_simp
  then show ?thesis using ex_moved_heard by (simp add: ex_maps PodMap_List_def)
qed

lemma moved_pod_is_programmed:
  "\<exists>i t. (i, t) \<in> set (visited ex_tool_env ex_arrive (PodMap_List (sv_podMap (update_maps ex_events))) (update_maps ex_events)) \<and>
    \<not> on_node ex_tool_env i \<and> visit_jobs ex_tool_env (i, t) \<noteq> []"
proof -
  have "visit_jobs ex_tool_env (ex_moved_info, ex_moved_server) \<noteq> []" by code_simp
  with ex_moved_away show ?thesis unfolding ex_moved_visit by auto
qed


end
