(* ===== verification/Server_Start.thy ===== *)
theory Server_Start
  imports Server_Sync
begin

text \<open>
  \<open>NewServer\<close> of \<open>pkg/server/server.go\<close>: where the configuration comes from, the directory for
  rule files, the clients and the host name, in the order of the code, with an error of any step
  returned at once. The constructors of client-go are fields of \<open>Platform\<close>; a client itself is
  not modelled, only whether it can be made.
\<close>

section \<open>Options of the start\<close>

record 'cfg StartOptions = Options +
  opt_KConfig :: "'cfg option"
  opt_Kubeconfig :: string
  opt_master :: string

record 'cfg Platform =
  LoadClientConfig :: "string \<Rightarrow> string \<Rightarrow> error + 'cfg"
  InClusterConfig :: "error + 'cfg"
  clientset_NewForConfig :: "'cfg \<Rightarrow> error option"
  multiclient_NewForConfig :: "'cfg \<Rightarrow> error option"
  netdefclient_NewForConfig :: "'cfg \<Rightarrow> error option"
  os_Hostname :: "error + string"

section \<open>The steps\<close>

text \<open>Lines 203 to 218: a given configuration, else the named file, else the one of the cluster.\<close>

definition kube_config :: "'cfg Platform \<Rightarrow> 'cfg StartOptions \<Rightarrow> error + 'cfg" where
  "kube_config pf opts =
     (case opt_KConfig opts of
        Some cfg \<Rightarrow> Inr cfg
      | None \<Rightarrow> if opt_Kubeconfig opts \<noteq> [] then LoadClientConfig pf (opt_Kubeconfig opts) (opt_master opts)
                else InClusterConfig pf)"

text \<open>Lines 220 to 228: make the directory if \<open>Stat\<close> says that it is not there.\<close>

definition prepare_rules_dir :: "Failures \<Rightarrow> string \<Rightarrow> FS \<Rightarrow> error option \<times> FS" where
  "prepare_rules_dir fl podRulesPath fs =
     (if podRulesPath = [] then (None, fs)
      else if os_Stat fl podRulesPath fs = StatNotExist then os_Mkdir fl podRulesPath fs
      else (None, fs))"

text \<open>Lines 230 to 243.\<close>

definition make_clients :: "'cfg Platform \<Rightarrow> 'cfg \<Rightarrow> error option" where
  "make_clients pf cfg =
     (case clientset_NewForConfig pf cfg of
        Some e \<Rightarrow> Some e
      | None \<Rightarrow>
          (case multiclient_NewForConfig pf cfg of
             Some e \<Rightarrow> Some e
           | None \<Rightarrow> netdefclient_NewForConfig pf cfg))"

definition NewServer_run ::
  "'cfg Platform \<Rightarrow> Failures \<Rightarrow> 'cfg StartOptions \<Rightarrow> FS \<Rightarrow> (error + (string \<times> 'sel Server)) \<times> FS" where
  "NewServer_run pf fl opts fs =
     (case kube_config pf opts of
        Inl e \<Rightarrow> (Inl e, fs)
      | Inr cfg \<Rightarrow>
          (case prepare_rules_dir fl (opt_podRulesPath opts) fs of
             (Some e, fs1) \<Rightarrow> (Inl e, fs1)
           | (None, fs1) \<Rightarrow>
               (case make_clients pf cfg of
                  Some e \<Rightarrow> (Inl e, fs1)
                | None \<Rightarrow>
                    (case GetHostname (os_Hostname pf) (opt_hostnameOverride opts) of
                       Inl e \<Rightarrow> (Inl e, fs1)
                     | Inr hostname \<Rightarrow> (Inr (hostname, NewServer), fs1)))))"

section \<open>Properties\<close>

lemma to_lower_nonempty: "to_lower s = [] \<longleftrightarrow> s = []"
  by (simp add: to_lower_def)

lemma GetHostname_ok:
  "GetHostname h override = Inr name \<Longrightarrow> name \<noteq> [] \<and> to_lower name = name"
  by (auto simp: GetHostname_def Let_def to_lower_nonempty split: if_splits sum.splits)

lemma prepare_effect:
  assumes "prepare_rules_dir fl path fs = (r, fs')"
  shows "map_of fs' q = map_of fs q \<or> r = None \<and> path \<noteq> [] \<and> q = resolve path \<and> map_of fs q = None \<and> map_of fs' q = Some Dir"
  using assms
  by (auto simp: prepare_rules_dir_def os_Mkdir_def os_Stat_def update_conv' split: if_splits option.splits)

lemma prepare_success:
  assumes "prepare_rules_dir fl path fs = (None, fs')" and "path \<noteq> []" and "stat_fails fl path fs = None"
  shows "map_of fs' (resolve path) \<noteq> None"
  using assms
  by (auto simp: prepare_rules_dir_def os_Mkdir_def os_Stat_def update_conv' split: if_splits option.splits)


section \<open>Examples\<close>

definition ex_platform :: "unit Platform" where
  "ex_platform =
     \<lparr>LoadClientConfig = \<lambda>_ _. Inl (External ''no such file''), InClusterConfig = Inr (),
      clientset_NewForConfig = \<lambda>_. None, multiclient_NewForConfig = \<lambda>_. None,
      netdefclient_NewForConfig = \<lambda>_. None, os_Hostname = Inr '' Node1.local''\<rparr>"

definition ex_start :: "unit StartOptions" where
  "ex_start =
     \<lparr>opt_hostnameOverride = [], opt_networkPlugins = [''accelerated-bridge''], opt_podRulesPath = ''/r'',
      opt_tcDriver = ''cmdline'', opt_KConfig = None, opt_Kubeconfig = [], opt_master = []\<rparr>"


end
