(* ===== verification/Server_Run.thy ===== *)
theory Server_Run
  imports Sync_Arrivals Server_Start
begin

text \<open>
  The life of the process: \<open>main\<close> of \<open>cmd/multi-networkpolicy-tc/main.go\<close>, the signal handler of
  \<open>pkg/utils/signal.go\<close> and \<open>Run\<close>, \<open>RunPodConfig\<close>, \<open>SyncLoop\<close> and \<open>birthCry\<close> of
  \<open>pkg/server/server.go\<close>. Each goroutine has its position in the state; a step is one statement of
  one goroutine, an event that an informer delivers, the begin of a synchronisation by the runner,
  its work on one pod, its end or a signal, and the steps of all of them interleave freely. Informers, runner and broadcaster are client-go's:
  an informer whose factory was started delivers events and syncs, the runner calls
  \<open>syncMultiPolicy\<close> at any time while its loop runs, and a select with several ready cases may take
  any of them.
\<close>

section \<open>Starting the program\<close>

text \<open>\<open>NewOptions\<close> and \<open>AddFlags\<close>: registering a flag sets its default.\<close>

definition NewOptions :: "'cfg StartOptions" where
  "NewOptions =
     \<lparr>opt_hostnameOverride = [], opt_networkPlugins = [], opt_podRulesPath = [], opt_tcDriver = [],
      opt_KConfig = None, opt_Kubeconfig = [], opt_master = []\<rparr>"

definition AddFlags :: "'cfg StartOptions \<Rightarrow> 'cfg StartOptions" where
  "AddFlags opts = opts\<lparr>opt_networkPlugins := [''accelerated-bridge''], opt_tcDriver := ''cmdline''\<rparr>"

text \<open>
  \<open>SetupSignalHandler\<close> closes a package variable, so a second call panics.
\<close>

definition SetupSignalHandler :: "bool \<Rightarrow> error option" where
  "SetupSignalHandler called_before = (if called_before then Some (Panic ''close of closed channel'') else None)"

section \<open>The goroutines\<close>

datatype ConfigRun = NotRunning | WaitingForSync | Finished

record Informer =
  in_started :: bool
  in_run :: ConfigRun

definition no_informer :: Informer where
  "no_informer = \<lparr>in_started = False, in_run = NotRunning\<rparr>"

text \<open>Configure, register the server, \<open>go config.Run(ctx.Done())\<close> and start the factory.\<close>

definition start_informer :: Informer where
  "start_informer = \<lparr>in_started = True, in_run = WaitingForSync\<rparr>"

datatype Goroutine = NotStarted | Blocked | Ended

datatype LoopState = LoopNotStarted | Polling | Looping | LoopEnded

text \<open>The next statement of \<open>Run\<close>.\<close>

datatype RunPC =
    RunBroadcaster | RunShutdown | RunNamespaces | RunStarter | RunPolicies | RunNetDefs | RunSyncLoop
  | RunBirthCry | RunWait | RunReturned

datatype SignalState = NoSignal | OneSignal

record ('sel, 'd) Process =
  pr_cluster :: "'sel Cluster"
  pr_server :: "'sel Server"
  pr_world :: "'d World"
  pr_done :: bool
  pr_pc :: RunPC
  pr_recording :: bool
  pr_shutdown :: Goroutine
  pr_shutdowns :: nat
  pr_ns :: Informer
  pr_policy :: Informer
  pr_netdef :: Informer
  pr_pod :: Informer
  pr_starter :: Goroutine
  pr_loop :: LoopState
  pr_sync :: "(PodInfo list \<times> string list) option"
  pr_events :: "string list"
  pr_signals :: SignalState
  pr_exit :: "int option"

text \<open>
  \<open>pr_done\<close> says that the context was cancelled, \<open>pr_events\<close> what was recorded on the node object;
  \<open>pr_cluster\<close> is what the informers have reported so far.
\<close>

definition process_start :: "'sel Server \<Rightarrow> 'd World \<Rightarrow> ('sel, 'd) Process" where
  "process_start s w =
     \<lparr>pr_cluster = empty_cluster, pr_server = s, pr_world = w, pr_done = False, pr_pc = RunBroadcaster,
      pr_recording = False, pr_shutdown = NotStarted, pr_shutdowns = 0, pr_ns = no_informer,
      pr_policy = no_informer, pr_netdef = no_informer, pr_pod = no_informer, pr_starter = NotStarted,
      pr_loop = LoopNotStarted, pr_sync = None, pr_events = [], pr_signals = NoSignal, pr_exit = None\<rparr>"

definition birthCry :: "('sel, 'd) Process \<Rightarrow> ('sel, 'd) Process" where
  [simp]: "birthCry p = p\<lparr>pr_events := pr_events p @ [''Started multi-networkpolicy-tc.'']\<rparr>"

text \<open>The statements of \<open>Run\<close> up to the wait at its end. \<open>NewServer\<close> always sets the broadcaster.\<close>

fun run_statement :: "RunPC \<Rightarrow> ('sel, 'd) Process \<Rightarrow> ('sel, 'd) Process" where
  "run_statement RunBroadcaster p = p\<lparr>pr_recording := True, pr_pc := RunShutdown\<rparr>"
| "run_statement RunShutdown p = p\<lparr>pr_shutdown := Blocked, pr_pc := RunNamespaces\<rparr>"
| "run_statement RunNamespaces p = p\<lparr>pr_ns := start_informer, pr_pc := RunStarter\<rparr>"
| "run_statement RunStarter p = p\<lparr>pr_starter := Blocked, pr_pc := RunPolicies\<rparr>"
| "run_statement RunPolicies p = p\<lparr>pr_policy := start_informer, pr_pc := RunNetDefs\<rparr>"
| "run_statement RunNetDefs p = p\<lparr>pr_netdef := start_informer, pr_pc := RunSyncLoop\<rparr>"
| "run_statement RunSyncLoop p = p\<lparr>pr_loop := Polling, pr_pc := RunBirthCry\<rparr>"
| "run_statement RunBirthCry p = (birthCry p)\<lparr>pr_pc := RunWait\<rparr>"
| "run_statement RunWait p = p\<lparr>pr_pc := RunReturned\<rparr>"
| "run_statement RunReturned p = p\<lparr>pr_exit := Some 0\<rparr>"

text \<open>\<open>RunPodConfig\<close>, called by the starter goroutine once its channel is closed.\<close>

definition RunPodConfig :: "('sel, 'd) Process \<Rightarrow> ('sel, 'd) Process" where
  "RunPodConfig p = p\<lparr>pr_pod := start_informer\<rparr>"

definition run_ended :: "Informer \<Rightarrow> Informer" where
  "run_ended i = i\<lparr>in_run := Finished\<rparr>"

text \<open>
  The steps of the program's own goroutines. \<open>Config.Run\<close> calls the handlers when the caches have
  synced and returns without a call when the context is done first. A synchronisation that the
  runner has begun works on one pod per step, and the informers go on meanwhile; \<open>pr_sync\<close> holds the
  pods it has still to do and the identifiers it has collected.
\<close>

inductive own_step ::
  "Sources \<Rightarrow> ('sel, 'ls, 'd) Env \<Rightarrow> ('sel, 'd) Process \<Rightarrow> ('sel, 'd) Process \<Rightarrow> bool"
  for src :: Sources and env :: "('sel, 'ls, 'd) Env" where
  statement: "pr_pc p = RunWait \<longrightarrow> pr_done p \<Longrightarrow> own_step src env p (run_statement (pr_pc p) p)"
| shutdown: "pr_shutdown p = Blocked \<Longrightarrow> pr_done p \<Longrightarrow>
    own_step src env p (p\<lparr>pr_shutdown := Ended, pr_shutdowns := Suc (pr_shutdowns p)\<rparr>)"
| starter_pods: "pr_starter p = Blocked \<Longrightarrow> sv_startPodConfigClosed (pr_server p) \<Longrightarrow>
    own_step src env p (RunPodConfig (p\<lparr>pr_starter := Ended\<rparr>))"
| starter_done: "pr_starter p = Blocked \<Longrightarrow> pr_done p \<Longrightarrow> own_step src env p (p\<lparr>pr_starter := Ended\<rparr>)"
| ns_run: "in_run (pr_ns p) = WaitingForSync \<Longrightarrow> synced \<or> pr_done p \<Longrightarrow>
    own_step src env p (p\<lparr>pr_ns := run_ended (pr_ns p),
      pr_server := NamespaceConfig_Run [server_namespace_handler] synced (pr_server p)\<rparr>)"
| policy_run: "in_run (pr_policy p) = WaitingForSync \<Longrightarrow> synced \<or> pr_done p \<Longrightarrow>
    own_step src env p (p\<lparr>pr_policy := run_ended (pr_policy p),
      pr_server := NetworkPolicyConfig_Run [server_policy_handler] synced (pr_server p)\<rparr>)"
| netdef_run: "in_run (pr_netdef p) = WaitingForSync \<Longrightarrow> synced \<or> pr_done p \<Longrightarrow>
    own_step src env p (p\<lparr>pr_netdef := run_ended (pr_netdef p),
      pr_server := NetDefConfig_Run [server_netdef_handler (src_cni src)] synced (pr_server p)\<rparr>)"
| pod_run: "in_run (pr_pod p) = WaitingForSync \<Longrightarrow> synced \<or> pr_done p \<Longrightarrow>
    own_step src env p (p\<lparr>pr_pod := run_ended (pr_pod p),
      pr_server := PodConfig_Run [server_pod_handler src] synced (pr_server p)\<rparr>)"
| loop_polled: "pr_loop p = Polling \<Longrightarrow> isInitialized (pr_server p) \<or> pr_done p \<Longrightarrow>
    own_step src env p (p\<lparr>pr_loop := Looping, pr_server := Sync (pr_server p)\<rparr>)"
| loop_stopped: "pr_loop p = Looping \<Longrightarrow> pr_sync p = None \<Longrightarrow> pr_done p \<Longrightarrow>
    own_step src env p (p\<lparr>pr_loop := LoopEnded\<rparr>)"
| sync_one: "pr_sync p = Some (q # qs, acc) \<Longrightarrow>
    sync_pod env (\<lambda>_ s. s) q (pr_server p, acc, pr_world p) = (s', acc', w') \<Longrightarrow>
    own_step src env p (p\<lparr>pr_server := s', pr_world := w', pr_sync := Some (qs, acc')\<rparr>)"
| sync_end: "pr_sync p = Some ([], acc) \<Longrightarrow> wo = pr_world p \<Longrightarrow>
    own_step src env p (p\<lparr>pr_world := wo\<lparr>wd_fs := deleteStalePodInterfaceRules env acc (wd_fs wo)\<rparr>, pr_sync := None\<rparr>)"

text \<open>What comes from outside: informer events, calls by the runner, signals.\<close>

inductive outside_step ::
  "Sources \<Rightarrow> ('sel, 'd) Process \<Rightarrow> ('sel, 'd) Process \<Rightarrow> bool" for src :: Sources where
  ns_event: "in_started (pr_ns p) \<Longrightarrow> cl = pr_cluster p \<Longrightarrow> legal ns_Name (cl_namespaces cl) nev \<Longrightarrow>
    outside_step src p (p\<lparr>pr_cluster := cl\<lparr>cl_namespaces := after ns_Name (cl_namespaces cl) nev\<rparr>,
      pr_server := deliver_namespace nev (pr_server p)\<rparr>)"
| policy_event: "in_started (pr_policy p) \<Longrightarrow> cl = pr_cluster p \<Longrightarrow> legal policy_key (cl_policies cl) pev \<Longrightarrow>
    outside_step src p (p\<lparr>pr_cluster := cl\<lparr>cl_policies := after policy_key (cl_policies cl) pev\<rparr>,
      pr_server := deliver_policy pev (pr_server p)\<rparr>)"
| netdef_event: "in_started (pr_netdef p) \<Longrightarrow> cl = pr_cluster p \<Longrightarrow> legal netdef_key (cl_netdefs cl) dev \<Longrightarrow>
    outside_step src p (p\<lparr>pr_cluster := cl\<lparr>cl_netdefs := after netdef_key (cl_netdefs cl) dev\<rparr>,
      pr_server := deliver_netdef (src_cni src) dev (pr_server p)\<rparr>)"
| pod_event: "in_started (pr_pod p) \<Longrightarrow> cl = pr_cluster p \<Longrightarrow> legal pod_key (cl_pods cl) ev \<Longrightarrow>
    outside_step src p (p\<lparr>pr_cluster := cl\<lparr>cl_pods := after pod_key (cl_pods cl) ev\<rparr>,
      pr_server := deliver_pod src ev (pr_server p)\<rparr>)"
| sync_call: "pr_loop p = Looping \<Longrightarrow> pr_sync p = None \<Longrightarrow> s' = update_maps (pr_server p) \<Longrightarrow>
    outside_step src p (p\<lparr>pr_server := s', pr_sync := Some (PodMap_List (sv_podMap s'), [])\<rparr>)"
| first_signal: "pr_signals p = NoSignal \<Longrightarrow> outside_step src p (p\<lparr>pr_signals := OneSignal, pr_done := True\<rparr>)"
| second_signal: "pr_signals p = OneSignal \<Longrightarrow> outside_step src p (p\<lparr>pr_exit := Some 1\<rparr>)"

text \<open>A process that has exited does nothing any more.\<close>

definition process_step ::
  "Sources \<Rightarrow> ('sel, 'ls, 'd) Env \<Rightarrow> ('sel, 'd) Process \<Rightarrow> ('sel, 'd) Process \<Rightarrow> bool" where
  "process_step src env p p' \<longleftrightarrow> pr_exit p = None \<and> (own_step src env p p' \<or> outside_step src p p')"

inductive process_reach ::
  "Sources \<Rightarrow> ('sel, 'ls, 'd) Env \<Rightarrow> 'd World \<Rightarrow> ('sel, 'd) Process \<Rightarrow> bool"
  for src :: Sources and env :: "('sel, 'ls, 'd) Env" and w :: "'d World" where
  start: "process_reach src env w (process_start NewServer w)"
| step: "process_reach src env w p \<Longrightarrow> process_step src env p p' \<Longrightarrow> process_reach src env w p'"

text \<open>
  \<open>main\<close>: a second set up of signals panics, flags that do not parse and a server that cannot be
  made exit with code 1, otherwise the server runs. \<open>parse\<close> is what cobra and pflag make of the
  command line, on the options with their defaults.
\<close>

datatype ('sel, 'd) Outcome = Exited int | Crashed error | Serving string "('sel, 'd) Process"

definition main_start ::
  "bool \<Rightarrow> ('cfg StartOptions \<Rightarrow> error + 'cfg StartOptions) \<Rightarrow> 'cfg Platform \<Rightarrow> Failures \<Rightarrow> 'd World \<Rightarrow>
    ('sel, 'd) Outcome \<times> 'd World" where
  "main_start called_before parse pf fl w =
     (case SetupSignalHandler called_before of
        Some e \<Rightarrow> (Crashed e, w)
      | None \<Rightarrow>
          (case parse (AddFlags NewOptions) of
             Inl _ \<Rightarrow> (Exited 1, w)
           | Inr opts \<Rightarrow>
               (case NewServer_run pf fl opts (wd_fs w) of
                  (Inl _, fs) \<Rightarrow> (Exited 1, w\<lparr>wd_fs := fs\<rparr>)
                | (Inr (hostname, s), fs) \<Rightarrow>
                    (Serving hostname (process_start s (w\<lparr>wd_fs := fs\<rparr>)), w\<lparr>wd_fs := fs\<rparr>))))"

section \<open>Invariants of the process\<close>

lemma flags_kept:
  "flag_fields s' = flag_fields s \<Longrightarrow> sv_startPodConfigClosed s' = sv_startPodConfigClosed s \<and>
    isInitialized s' = isInitialized s"
  by (simp add: flag_fields_def isInitialized_def)

lemmas kept_by = flags_kept [OF updates_keep_flags(1)] flags_kept [OF updates_keep_flags(2)]
  flags_kept [OF updates_keep_flags(3)] flags_kept [OF updates_keep_flags(4)]
  flags_kept [OF updates_keep_flags(5)] flags_kept [OF updates_keep_flags(6)]
  flags_kept [OF updates_keep_flags(7)]

lemma synced_keep:
  assumes "flags_inv s" and "s' \<in> {Server_OnPodSynced s, Server_OnPolicySynced s, Server_OnNetDefSynced s, Server_OnNamespaceSynced s}"
  shows "(sv_startPodConfigClosed s \<longrightarrow> sv_startPodConfigClosed s') \<and> (isInitialized s \<longrightarrow> isInitialized s')"
  using assms
  by (cases "sv_policySynced s"; cases "sv_netdefSynced s"; cases "sv_nsSynced s"; cases "sv_podSynced s")
    (auto simp: flag_defs isInitialized_def)

text \<open>\<open>Config.Run\<close> that returns without a sync calls no handler.\<close>

lemma run_unsynced:
  "PodConfig_Run hs1 False s = s" "NetworkPolicyConfig_Run hs2 False s = s"
  "NetDefConfig_Run hs3 False s = s" "NamespaceConfig_Run hs4 False s = s"
  by (simp_all add: PodConfig_Run_def NetworkPolicyConfig_Run_def NetDefConfig_Run_def NamespaceConfig_Run_def controller_run_def)

text \<open>The server of a process: its state follows the cluster, and what has been started had to be.\<close>

definition server_inv :: "Sources \<Rightarrow> ('sel, 'd) Process \<Rightarrow> bool" where
  "server_inv src p \<longleftrightarrow>
     server_reach src (pr_cluster p) (pr_server p) \<and>
     (in_run (pr_pod p) \<noteq> NotRunning \<or> in_started (pr_pod p) \<longrightarrow> sv_startPodConfigClosed (pr_server p)) \<and>
     (pr_loop p = Looping \<longrightarrow> isInitialized (pr_server p) \<or> pr_done p)"

definition thread_inv :: "('sel, 'd) Process \<Rightarrow> bool" where
  "thread_inv p \<longleftrightarrow>
     (pr_pc p = RunReturned \<longrightarrow> pr_done p) \<and> (pr_exit p \<noteq> None \<longrightarrow> pr_done p) \<and>
     (pr_signals p = OneSignal \<longleftrightarrow> pr_done p) \<and>
     pr_shutdowns p = (if pr_shutdown p = Ended then 1 else 0) \<and> (pr_shutdown p = Ended \<longrightarrow> pr_done p) \<and>
     (pr_pc p \<in> {RunBroadcaster, RunShutdown} \<longrightarrow> pr_shutdown p = NotStarted) \<and>
     (pr_exit p = Some 0 \<longrightarrow> pr_pc p = RunReturned) \<and>
     (pr_pc p \<notin> {RunBirthCry, RunWait, RunReturned} \<longrightarrow> pr_loop p = LoopNotStarted) \<and>
     (pr_sync p \<noteq> None \<longrightarrow> pr_loop p = Looping) \<and>
     length (pr_events p) = (if pr_pc p \<in> {RunWait, RunReturned} then 1 else 0)"

lemma server_inv_flags: "server_inv src p \<Longrightarrow> flags_inv (pr_server p)"
  using flags_reach by (auto simp: server_inv_def)

lemma closed_started: "flags_inv s \<Longrightarrow> sv_startPodConfigClosed s \<Longrightarrow> 0 < sv_startPodConfig s"
  by (simp add: flags_inv_def)

lemma server_inv_own:
  assumes "own_step src env p p'" and "server_inv src p"
  shows "server_inv src p'"
proof -
  note fi = server_inv_flags [OF assms(2)] and inv = assms(2) [unfolded server_inv_def]
  note keep = synced_keep [OF fi]
  from assms(1) show ?thesis
  proof cases
    case statement
    then show ?thesis using inv by (cases "pr_pc p") (simp_all add: server_inv_def)
  next
    case (ns_run synced)
    then show ?thesis
      using inv keep reach_namespaces_synced [of src "pr_cluster p" "pr_server p"]
      by (cases synced) (auto simp: server_inv_def run_ended_def run_unsynced dispatch_simps)
  next
    case (policy_run synced)
    then show ?thesis
      using inv keep reach_policies_synced [of src "pr_cluster p" "pr_server p"]
      by (cases synced) (auto simp: server_inv_def run_ended_def run_unsynced dispatch_simps)
  next
    case (netdef_run synced)
    then show ?thesis
      using inv keep reach_netdefs_synced [of src "pr_cluster p" "pr_server p"]
      by (cases synced) (auto simp: server_inv_def run_ended_def run_unsynced dispatch_simps)
  next
    case (pod_run synced)
    have "0 < sv_startPodConfig (pr_server p)"
      by (rule closed_started [OF fi]) (use inv pod_run in simp)
    then show ?thesis
      using pod_run inv keep reach_pods_synced [of src "pr_cluster p" "pr_server p"]
      by (cases synced) (auto simp: server_inv_def run_ended_def run_unsynced dispatch_simps)
  next
    case loop_polled
    then show ?thesis
      using inv server_reach.asked [of src "pr_cluster p" "pr_server p"] by (simp add: server_inv_def kept_by)
  next
    case (sync_one q qs acc s' acc' w')
    have "s' = pr_server p \<or> s' = update_pods (pr_server p)"
      using sync_pod_jobs [of env "\<lambda>_ s. s" q "pr_server p" acc "pr_world p"] sync_one(3)
      by (auto simp: pass_pod_def split: if_splits)
    then show ?thesis
      using sync_one inv server_reach.synced_pods [of src "pr_cluster p" "pr_server p"]
      by (auto simp: server_inv_def kept_by)
  qed (use inv in \<open>simp_all add: server_inv_def RunPodConfig_def\<close>)
qed

lemma server_inv_outside:
  assumes "outside_step src p p'" and "server_inv src p"
  shows "server_inv src p'"
proof -
  note fi = server_inv_flags [OF assms(2)] and inv = assms(2) [unfolded server_inv_def]
  from assms(1) show ?thesis
  proof cases
    case (ns_event cl nev)
    then show ?thesis
      using inv reach_namespace_event [of src "pr_cluster p" "pr_server p" nev]
      by (simp add: server_inv_def dispatch_simps kept_by)
  next
    case (policy_event cl pev)
    then show ?thesis
      using inv reach_policy_event [of src "pr_cluster p" "pr_server p" pev]
      by (simp add: server_inv_def dispatch_simps kept_by)
  next
    case (netdef_event cl dev)
    then show ?thesis
      using inv reach_netdef_event [of src "pr_cluster p" "pr_server p" dev]
      by (simp add: server_inv_def dispatch_simps kept_by)
  next
    case (pod_event cl ev)
    have "0 < sv_startPodConfig (pr_server p)"
      by (rule closed_started [OF fi]) (use inv pod_event in simp)
    then show ?thesis
      using pod_event inv reach_pod_event [of src "pr_cluster p" "pr_server p" ev]
      by (simp add: server_inv_def dispatch_simps kept_by)
  next
    case (sync_call s')
    then show ?thesis
      using inv server_reach.synced_maps [of src "pr_cluster p" "pr_server p"]
      by (simp add: server_inv_def kept_by)
  qed (use inv in \<open>simp_all add: server_inv_def\<close>)
qed

lemma thread_inv_step:
  assumes "own_step src env p p' \<or> outside_step src p p'" and "thread_inv p"
  shows "thread_inv p'"
  using assms(1)
proof
  assume "own_step src env p p'"
  then show ?thesis
  proof cases
    case statement
    then show ?thesis using assms(2) by (cases "pr_pc p") (auto simp: thread_inv_def)
  qed (use assms(2) in \<open>auto simp: thread_inv_def RunPodConfig_def\<close>)
next
  assume "outside_step src p p'"
  then show ?thesis
    by cases (use assms(2) in \<open>auto simp: thread_inv_def\<close>)
qed

lemma process_inv: "process_reach src env w p \<Longrightarrow> server_inv src p \<and> thread_inv p"
proof (induction rule: process_reach.induct)
  case start
  then show ?case
    by (simp add: server_inv_def thread_inv_def process_start_def no_informer_def server_reach.boot)
next
  case (step p p')
  then show ?case
    using server_inv_own server_inv_outside thread_inv_step unfolding process_step_def by blast
qed

section \<open>What holds while the process runs\<close>

lemma initialized_synced:
  "flags_inv s \<Longrightarrow> isInitialized s \<Longrightarrow> sv_podSynced s \<and> AllExceptPodsSynced s"
  by (simp add: flags_inv_def isInitialized_def AllSynced_def AllExceptPodsSynced_def split: if_splits)

text \<open>
  C10. The life of the process, for every interleaving of its goroutines, the informers, the runner
  and the signals: the runner is started without a cancellation only when all four informers have
  synced; the pod informer runs only after the three others have synced, and its channel was closed
  once; \<open>Run\<close> returns and the process exits only after a signal, with code 0 only when \<open>Run\<close> has
  returned; the broadcaster is shut down at most once, and not before the signal; the start event
  is recorded at most once; and what a synchronisation works on is the cluster as the informers
  reported it.
\<close>

theorem process_life:
  assumes "process_reach src env w p"
  shows "(pr_loop p = Looping \<and> \<not> pr_done p \<longrightarrow>
      sv_podSynced (pr_server p) \<and> AllExceptPodsSynced (pr_server p)) \<and>
    (in_started (pr_pod p) \<longrightarrow> AllExceptPodsSynced (pr_server p) \<and> sv_startPodConfig (pr_server p) = 1) \<and>
    (pr_pc p = RunReturned \<or> pr_exit p \<noteq> None \<longrightarrow> pr_done p) \<and>
    (pr_exit p = Some 0 \<longrightarrow> pr_pc p = RunReturned) \<and>
    pr_shutdowns p \<le> 1 \<and> (0 < pr_shutdowns p \<longrightarrow> pr_done p) \<and> length (pr_events p) \<le> 1 \<and>
    server_reach src (pr_cluster p) (pr_server p)"
proof -
  from process_inv [OF assms] have s: "server_inv src p" and t: "thread_inv p" by simp_all
  note fi = server_inv_flags [OF s]
  have "sv_podSynced (pr_server p) \<and> AllExceptPodsSynced (pr_server p)" if "pr_loop p = Looping" "\<not> pr_done p"
    by (rule initialized_synced [OF fi]) (use s that in \<open>simp add: server_inv_def\<close>)
  moreover have "AllExceptPodsSynced (pr_server p) \<and> sv_startPodConfig (pr_server p) = 1" if "in_started (pr_pod p)"
    using s that fi by (simp add: server_inv_def flags_inv_def)
  moreover have "server_reach src (pr_cluster p) (pr_server p)"
    using s by (simp add: server_inv_def)
  moreover have "pr_pc p = RunReturned \<or> pr_exit p \<noteq> None \<longrightarrow> pr_done p"
    "pr_exit p = Some 0 \<longrightarrow> pr_pc p = RunReturned" "pr_shutdowns p \<le> 1" "0 < pr_shutdowns p \<longrightarrow> pr_done p"
    "length (pr_events p) \<le> 1"
    using t by (auto simp: thread_inv_def)
  ultimately show ?thesis by blast
qed

section \<open>The end of the process\<close>

text \<open>How many steps the goroutines of the program can still take by themselves.\<close>

fun statements_left :: "RunPC \<Rightarrow> nat" where
  "statements_left RunBroadcaster = 9"
| "statements_left RunShutdown = 8"
| "statements_left RunNamespaces = 7"
| "statements_left RunStarter = 6"
| "statements_left RunPolicies = 5"
| "statements_left RunNetDefs = 4"
| "statements_left RunSyncLoop = 3"
| "statements_left RunBirthCry = 2"
| "statements_left RunWait = 1"
| "statements_left RunReturned = 0"

definition goroutine_left :: "Goroutine \<Rightarrow> nat" where
  "goroutine_left g = (if g = Blocked then 1 else 0)"

definition informer_left :: "Informer \<Rightarrow> nat" where
  "informer_left i = (if in_run i = WaitingForSync then 1 else 0)"

fun loop_left :: "LoopState \<Rightarrow> nat" where
  "loop_left LoopNotStarted = 0"
| "loop_left Polling = 2"
| "loop_left Looping = 1"
| "loop_left LoopEnded = 0"

definition sync_left :: "('sel, 'd) Process \<Rightarrow> nat" where
  "sync_left p = (case pr_sync p of None \<Rightarrow> 0 | Some (qs, _) \<Rightarrow> Suc (length qs))"

definition work_left :: "('sel, 'd) Process \<Rightarrow> nat" where
  "work_left p =
     3 * statements_left (pr_pc p) + (if pr_exit p = None then 1 else 0) + goroutine_left (pr_shutdown p) +
     2 * goroutine_left (pr_starter p) + informer_left (pr_ns p) + informer_left (pr_policy p) +
     informer_left (pr_netdef p) + informer_left (pr_pod p) + loop_left (pr_loop p) + sync_left p"

lemmas left_defs = work_left_def sync_left_def goroutine_left_def informer_left_def start_informer_def run_ended_def RunPodConfig_def

definition running_step ::
  "Sources \<Rightarrow> ('sel, 'ls, 'd) Env \<Rightarrow> ('sel, 'd) Process \<Rightarrow> ('sel, 'd) Process \<Rightarrow> bool" where
  "running_step src env p p' \<longleftrightarrow> pr_exit p = None \<and> own_step src env p p'"

lemma work_decreases: "running_step src env p p' \<Longrightarrow> work_left p' < work_left p"
  unfolding running_step_def
proof (elim conjE)
  assume e: "pr_exit p = None" and "own_step src env p p'"
  from this(2) show ?thesis
  proof cases
    case statement
    then show ?thesis using e by (cases "pr_pc p"; cases "pr_loop p") (simp_all add: left_defs)
  qed (use e in \<open>simp_all add: left_defs\<close>)
qed

lemma work_bounded: "work_left p \<le> 37 + sync_left p"
proof -
  have "statements_left (pr_pc p) \<le> 9" by (cases "pr_pc p") simp_all
  moreover have "loop_left (pr_loop p) \<le> 2" by (cases "pr_loop p") simp_all
  ultimately show ?thesis by (simp add: work_left_def goroutine_left_def informer_left_def)
qed

lemma running_keeps:
  "running_step src env p p' \<Longrightarrow> pr_done p' = pr_done p \<and> (pr_exit p' = None \<or> pr_exit p' = Some 0)"
  unfolding running_step_def
proof (elim conjE)
  assume e: "pr_exit p = None" and "own_step src env p p'"
  from this(2) show ?thesis
  proof cases
    case statement
    then show ?thesis using e by (cases "pr_pc p") simp_all
  qed (use e in \<open>simp_all add: RunPodConfig_def\<close>)
qed

lemma running_path:
  assumes "(running_step src env ^^ n) p q" and "pr_exit p = None"
  shows "n \<le> work_left p \<and> pr_done q = pr_done p \<and> (pr_exit q = None \<or> pr_exit q = Some 0)"
  using assms
proof (induction n arbitrary: q)
  case (Suc n)
  then obtain r where r: "(running_step src env ^^ n) p r" "running_step src env r q" by auto
  have "n + work_left r \<le> work_left p" if "(running_step src env ^^ n) p r" for n r
    using that
  proof (induction n arbitrary: r)
    case (Suc n)
    then obtain r' where "(running_step src env ^^ n) p r'" "running_step src env r' r" by auto
    then show ?case using Suc.IH [of r'] work_decreases [of src env r' r] by simp
  qed simp
  from this [OF r(1)] work_decreases [OF r(2)] have "Suc n \<le> work_left p" by simp
  with Suc.IH [OF r(1)] running_keeps [OF r(2)] Suc.prems(2) show ?case by simp
qed simp

lemma running_can_step: "pr_done p \<Longrightarrow> pr_exit p = None \<Longrightarrow> running_step src env p (run_statement (pr_pc p) p)"
  by (simp add: running_step_def own_step.statement)


section \<open>A signal during start-up\<close>

definition up_to_loop :: "('sel, 'd) Process \<Rightarrow> ('sel, 'd) Process" where
  "up_to_loop p =
     run_statement RunSyncLoop (run_statement RunNetDefs (run_statement RunPolicies (run_statement RunStarter
       (run_statement RunNamespaces (run_statement RunShutdown (run_statement RunBroadcaster p))))))"

lemma reach_own: "process_reach src env w p \<Longrightarrow> pr_exit p = None \<Longrightarrow> own_step src env p p' \<Longrightarrow> process_reach src env w p'"
  by (erule process_reach.step) (simp add: process_step_def)

lemma reach_outside:
  "process_reach src env w p \<Longrightarrow> pr_exit p = None \<Longrightarrow> outside_step src p p' \<Longrightarrow> process_reach src env w p'"
  by (erule process_reach.step) (simp add: process_step_def)

lemma reach_statement:
  "process_reach src env w p \<Longrightarrow> pr_exit p = None \<Longrightarrow> pr_pc p = pc \<Longrightarrow> pc \<noteq> RunWait \<Longrightarrow>
    process_reach src env w (run_statement pc p)"
  using own_step.statement [of p src env] by (auto intro: reach_own)

lemma reach_up_to_loop: "process_reach src env w (up_to_loop (process_start NewServer w))"
  unfolding up_to_loop_def
  by (intro reach_statement process_reach.start) (simp_all add: process_start_def)

text \<open>
  C25. \<open>SyncLoop\<close> ignores why its wait has ended: a signal that comes while the caches are still
  empty lets the runner start with an uninitialized server, and a synchronisation then takes the
  empty maps for the cluster and cleans up as if no pod had rules.
\<close>

theorem signal_starts_uninitialized_sync:
  "\<exists>p. process_reach src env w p \<and> pr_exit p = None \<and> \<not> isInitialized (pr_server p) \<and> pr_cluster p = empty_cluster \<and>
    wd_fs (pr_world p) = deleteStalePodInterfaceRules env [] (wd_fs w)"
proof -
  define p1 :: "('a, 'b) Process" where "p1 = (up_to_loop (process_start NewServer w))\<lparr>pr_signals := OneSignal, pr_done := True\<rparr>"
  define p2 where "p2 = p1\<lparr>pr_loop := Looping, pr_server := Sync (pr_server p1)\<rparr>"
  note defs = p1_def p2_def up_to_loop_def process_start_def
  have "process_reach src env w p1"
    unfolding p1_def
    by (rule reach_outside [OF reach_up_to_loop _ outside_step.first_signal]) (simp_all add: defs)
  then have p2: "process_reach src env w p2"
    unfolding p2_def by (rule reach_own [OF _ _ own_step.loop_polled]) (simp_all add: defs)
  have server: "pr_server p2 = Sync NewServer" "pr_world p2 = w" by (simp_all add: defs)
  have empty: "sv_podMap (update_maps (Sync NewServer)) = []"
    by (simp add: Sync_def NewServer_def update_maps_def Let_def case_prod_unfold PodMap_Update_def
        NewPodChangeTracker_def tracker_apply_def)
  define p3 where "p3 = p2\<lparr>pr_server := update_maps (pr_server p2), pr_sync := Some ([], [])\<rparr>"
  define p4 where "p4 = p3\<lparr>pr_world := w\<lparr>wd_fs := deleteStalePodInterfaceRules env [] (wd_fs w)\<rparr>, pr_sync := None\<rparr>"
  have begin_sync: "outside_step src p2 p3"
    using outside_step.sync_call [of p2 "update_maps (pr_server p2)" src]
    by (simp add: p3_def server empty PodMap_List_def) (simp add: defs)
  have end_sync: "own_step src env p3 p4"
    using own_step.sync_end [of p3 "[]" "pr_world p3" src env] by (simp add: p4_def p3_def server)
  have "process_reach src env w p3"
    by (rule reach_outside [OF p2 _ begin_sync]) (simp add: defs)
  then have "process_reach src env w p4"
    by (rule reach_own [OF _ _ end_sync]) (simp add: p3_def defs)
  moreover have "\<not> isInitialized (NewServer :: 'a Server)" by (simp add: isInitialized_def NewServer_def)
  then have "\<not> isInitialized (pr_server p4)" by (simp add: p3_def p4_def server kept_by)
  moreover have "pr_exit p4 = None" "pr_cluster p4 = empty_cluster" by (simp_all add: p3_def p4_def defs)
  ultimately show ?thesis by (intro exI [of _ p4]) (simp add: p4_def)
qed

section \<open>Outcomes of the start\<close>

lemma default_options_registered: "Options.truncate (AddFlags NewOptions) = default_options"
  by (simp add: AddFlags_def NewOptions_def default_options_def Options.truncate_def)


section \<open>Examples\<close>

definition ex_polling :: "((string \<times> string) list, bool) Process" where
  "ex_polling = (up_to_loop (process_start NewServer \<lparr>wd_dev = True, wd_fs = []\<rparr>))\<lparr>pr_signals := OneSignal, pr_done := True\<rparr>"

theorem process_life_witness:
  "pr_done ex_polling \<and> pr_shutdowns ex_polling \<le> 1 \<and>
    server_reach ex_src (pr_cluster ex_polling) (pr_server ex_polling)"
proof -
  have "process_reach ex_src ex_tool_env \<lparr>wd_dev = True, wd_fs = []\<rparr> ex_polling"
    unfolding ex_polling_def
    by (rule reach_outside [OF reach_up_to_loop _ outside_step.first_signal])
      (simp_all add: up_to_loop_def process_start_def)
  from process_life [OF this] show ?thesis by (simp add: ex_polling_def)
qed



end
