(* ===== verification/Sync_Process.thy ===== *)
theory Sync_Process
  imports Server_Run
begin

text \<open>
  The synchronisations of the running process are those of \<open>syncMultiPolicy\<close>. In the process the
  work on each pod is a step between the steps of the other goroutines; whatever happens between
  the begin and the end of a synchronisation, there are events that explain it: \<open>syncMultiPolicy\<close>
  with these events arriving between its pods makes of the world what the process made of it.
\<close>

section \<open>Splitting a synchronisation at a pod\<close>

lemma sync_pod_at: "arrive p = arrive' p \<Longrightarrow> sync_pod env arrive p st = sync_pod env arrive' p st"
  by (simp add: sync_pod_def case_prod_unfold)

lemma sync_pods_at:
  "(\<And>p. p \<in> set ps \<Longrightarrow> arrive p = arrive' p) \<Longrightarrow> fold (sync_pod env arrive) ps st = fold (sync_pod env arrive') ps st"
  by (rule fold_cong) (auto intro: sync_pod_at)

lemma pass_pods_at:
  "(\<And>p. p \<in> set ps \<Longrightarrow> arrive p = arrive' p) \<Longrightarrow> fold (pass_pod env arrive) ps s = fold (pass_pod env arrive') ps s"
  by (rule fold_cong) (simp_all add: pass_pod_def fun_eq_iff)

lemma hears_at:
  "(\<And>p. p \<in> set ps \<Longrightarrow> arrive p = arrive' p) \<Longrightarrow> hears src env arrive ps cl s cl' = hears src env arrive' ps cl s cl'"
  by (induction ps arbitrary: cl s) simp_all

lemma hears_snoc:
  "hears src env arrive ps cl s cl1 \<Longrightarrow>
    (if on_node env q then heard src cl1 (fold (pass_pod env arrive) ps s) cl2 (arrive q (fold (pass_pod env arrive) ps s))
     else cl2 = cl1) \<Longrightarrow> hears src env arrive (ps @ [q]) cl s cl2"
  by (induction ps arbitrary: cl s) (auto simp: pass_pod_def split: if_splits)

lemma sync_pod_local:
  "on_node env q \<Longrightarrow> sync_pod env arrive q (s, acc, w) = sync_pod env (\<lambda>_ s. s) q (arrive q s, acc, w)"
  by (simp add: sync_pod_def on_node_def Let_def)

lemma sync_pod_remote: "\<not> on_node env q \<Longrightarrow> sync_pod env arrive q st = st"
  by (cases st) (simp add: sync_pod_def on_node_def)

lemma heard_trans: "heard src cl1 s1 cl2 s2 \<Longrightarrow> heard src cl s cl1 s1 \<Longrightarrow> heard src cl s cl2 s2"
  by (induction rule: heard.induct) (auto intro: heard.intros)

section \<open>Steps during a synchronisation\<close>

lemma statement_keeps:
  "pr_world (run_statement pc p) = pr_world p \<and> pr_server (run_statement pc p) = pr_server p \<and>
    pr_cluster (run_statement pc p) = pr_cluster p \<and> pr_sync (run_statement pc p) = pr_sync p"
  by (cases pc) simp_all

definition keeps_sync :: "Sources \<Rightarrow> ('sel, 'd) Process \<Rightarrow> ('sel, 'd) Process \<Rightarrow> bool" where
  "keeps_sync src p p' \<longleftrightarrow>
     pr_world p' = pr_world p \<and> pr_sync p' = pr_sync p \<and> heard src (pr_cluster p) (pr_server p) (pr_cluster p') (pr_server p')"

lemma one_heard: "handler_step src cl s cl' s' \<Longrightarrow> heard src cl s cl' s'"
  by (rule heard.more [OF heard.nothing])

text \<open>Every other step only brings events; the synchronisation goes on pod by pod until its end.\<close>

lemma own_during_sync:
  assumes "own_step src env p p'" and "server_inv src p" and "pr_sync p \<noteq> None" and "pr_loop p = Looping"
  shows "keeps_sync src p p' \<or>
    (\<exists>q qs acc s' acc' w'. pr_sync p = Some (q # qs, acc) \<and>
       sync_pod env (\<lambda>_ s. s) q (pr_server p, acc, pr_world p) = (s', acc', w') \<and>
       p' = p\<lparr>pr_server := s', pr_world := w', pr_sync := Some (qs, acc')\<rparr>) \<or>
    (\<exists>acc. pr_sync p = Some ([], acc) \<and> pr_cluster p' = pr_cluster p \<and> pr_server p' = pr_server p \<and> pr_sync p' = None \<and>
       pr_world p' = (pr_world p)\<lparr>wd_fs := deleteStalePodInterfaceRules env acc (wd_fs (pr_world p))\<rparr>)"
  using assms(1)
proof cases
  case statement
  then show ?thesis using statement_keeps [of "pr_pc p" p] by (simp add: keeps_sync_def heard.nothing)
next
  case (ns_run synced)
  then show ?thesis
    using one_heard [OF handler_step.namespaces_synced, of src "pr_cluster p" "pr_server p"]
    by (cases synced) (simp_all add: keeps_sync_def run_unsynced heard.nothing)
next
  case (policy_run synced)
  then show ?thesis
    using one_heard [OF handler_step.policies_synced, of src "pr_cluster p" "pr_server p"]
    by (cases synced) (simp_all add: keeps_sync_def run_unsynced heard.nothing)
next
  case (netdef_run synced)
  then show ?thesis
    using one_heard [OF handler_step.netdefs_synced, of src "pr_cluster p" "pr_server p"]
    by (cases synced) (simp_all add: keeps_sync_def run_unsynced heard.nothing)
next
  case (pod_run synced)
  have "0 < sv_startPodConfig (pr_server p)"
    by (rule closed_started [OF server_inv_flags [OF assms(2)]]) (use assms(2) pod_run in \<open>simp add: server_inv_def\<close>)
  from one_heard [OF handler_step.pods_synced [OF this], of src "pr_cluster p"] show ?thesis
    using pod_run by (cases synced) (simp_all add: keeps_sync_def run_unsynced heard.nothing)
qed (use assms(3,4) in \<open>simp_all add: keeps_sync_def heard.nothing RunPodConfig_def\<close>)

lemma outside_during_sync:
  assumes "outside_step src p p'" and "server_inv src p" and "pr_sync p \<noteq> None"
  shows "keeps_sync src p p'"
  using assms(1)
proof cases
  case (ns_event cl nev)
  then show ?thesis
    by (simp add: keeps_sync_def one_heard handler_step.namespace_event del: deliver_namespace.simps)
next
  case (policy_event cl pev)
  then show ?thesis
    by (simp add: keeps_sync_def one_heard handler_step.policy_event del: deliver_policy.simps)
next
  case (netdef_event cl dev)
  then show ?thesis
    by (simp add: keeps_sync_def one_heard handler_step.netdef_event del: deliver_netdef.simps)
next
  case (pod_event cl ev)
  have "0 < sv_startPodConfig (pr_server p)"
    by (rule closed_started [OF server_inv_flags [OF assms(2)]]) (use assms(2) pod_event in \<open>simp add: server_inv_def\<close>)
  then show ?thesis
    using pod_event by (simp add: keeps_sync_def one_heard handler_step.pod_event del: deliver_pod.simps)
qed (use assms(3) in \<open>simp_all add: keeps_sync_def heard.nothing\<close>)

section \<open>A whole synchronisation of the process\<close>

text \<open>
  From the begin at \<open>p0\<close> the process has worked on the pods \<open>ps\<close>: with suitable events, the loop of
  \<open>syncMultiPolicy\<close> over \<open>ps\<close> gives the world and the identifiers of the process, and what the server
  has heard since the last pod is still to be seen.
\<close>

definition explained ::
  "Sources \<Rightarrow> ('sel, 'ls, 'd) Env \<Rightarrow> ('sel, 'd) Process \<Rightarrow> (PodInfo \<Rightarrow> 'sel Server \<Rightarrow> 'sel Server) \<Rightarrow>
    PodInfo list \<Rightarrow> string list \<Rightarrow> ('sel, 'd) Process \<Rightarrow> bool" where
  "explained src env p0 arrive ps acc p \<longleftrightarrow>
     (let s0 = update_maps (pr_server p0) in
      fold (sync_pod env arrive) ps (s0, [], pr_world p0) = (fold (pass_pod env arrive) ps s0, acc, pr_world p) \<and>
      (\<exists>cl. hears src env arrive ps (pr_cluster p0) s0 cl \<and>
        heard src cl (fold (pass_pod env arrive) ps s0) (pr_cluster p) (pr_server p)))"

lemma explained_keep:
  "explained src env p0 arrive ps acc p \<Longrightarrow> keeps_sync src p p' \<Longrightarrow> explained src env p0 arrive ps acc p'"
  using heard_trans by (fastforce simp: explained_def keeps_sync_def Let_def)

text \<open>The next pod: the events heard since the last one arrive at it.\<close>

lemma explained_pod:
  assumes "explained src env p0 arrive ps acc p" and "q \<notin> set ps"
    and "sync_pod env (\<lambda>_ s. s) q (pr_server p, acc, pr_world p) = (s', acc', w')"
    and "p' = p\<lparr>pr_server := s', pr_world := w', pr_sync := x\<rparr>"
  shows "\<exists>arrive'. explained src env p0 arrive' (ps @ [q]) acc' p'"
proof -
  let ?s0 = "update_maps (pr_server p0)"
  let ?arrive = "arrive(q := \<lambda>_. pr_server p)"
  have at: "arrive r = ?arrive r" if "r \<in> set ps" for r using that assms(2) by auto
  have same: "fold (sync_pod env arrive) ps st = fold (sync_pod env ?arrive) ps st"
    "fold (pass_pod env arrive) ps ?s0 = fold (pass_pod env ?arrive) ps ?s0"
    "hears src env arrive ps (pr_cluster p0) ?s0 cl = hears src env ?arrive ps (pr_cluster p0) ?s0 cl" for st cl
    by (rule sync_pods_at, rule at, assumption) (rule pass_pods_at hears_at, rule at, assumption)+
  note ex = assms(1) [unfolded explained_def Let_def same]
  let ?sm = "fold (pass_pod env ?arrive) ps ?s0"
  obtain cl where run: "fold (sync_pod env ?arrive) ps (?s0, [], pr_world p0) = (?sm, acc, pr_world p)"
    and hears: "hears src env ?arrive ps (pr_cluster p0) ?s0 cl"
    and heard: "heard src cl ?sm (pr_cluster p) (pr_server p)"
    using ex by blast
  have fields: "pr_server p' = s'" "pr_world p' = w'" "pr_cluster p' = pr_cluster p" by (simp_all add: assms(4))
  show ?thesis
  proof (cases "on_node env q")
    case True
    have "sync_pod env ?arrive q (?sm, acc, pr_world p) = (s', acc', w')"
      by (rule trans [OF sync_pod_local [OF True]]) (simp add: assms(3))
    moreover have s': "s' = update_pods (pr_server p)"
    proof -
      obtain acc1 w1 where "sync_pod env (\<lambda>_ s. s) q (pr_server p, acc, pr_world p) =
          (pass_pod env (\<lambda>_ s. s) q (pr_server p), acc1, w1)"
        using sync_pod_jobs by blast
      then show ?thesis using assms(3) True by (simp add: pass_pod_def)
    qed
    moreover have "pass_pod env ?arrive q ?sm = s'" using True by (simp add: pass_pod_def s')
    moreover have "hears src env ?arrive (ps @ [q]) (pr_cluster p0) ?s0 (pr_cluster p)"
      by (rule hears_snoc [OF hears]) (simp add: True heard)
    ultimately show ?thesis
      using run fields by (intro exI [of _ ?arrive]) (auto simp: explained_def Let_def heard.nothing)
  next
    case False
    then have same: "s' = pr_server p" "acc' = acc" "w' = pr_world p"
      using assms(3) by (simp_all add: sync_pod_remote)
    have "hears src env ?arrive (ps @ [q]) (pr_cluster p0) ?s0 cl"
      by (rule hears_snoc [OF hears]) (simp add: False)
    then show ?thesis
      using run heard fields False
      by (intro exI [of _ ?arrive]) (auto simp: explained_def Let_def same sync_pod_remote pass_pod_def)
  qed
qed

text \<open>The steps between the begin and the end.\<close>

definition syncing ::
  "Sources \<Rightarrow> ('sel, 'ls, 'd) Env \<Rightarrow> ('sel, 'd) Process \<Rightarrow> ('sel, 'd) Process \<Rightarrow> bool" where
  "syncing src env p p' \<longleftrightarrow> process_step src env p p' \<and> pr_sync p \<noteq> None \<and> pr_sync p' \<noteq> None"

lemma syncing_explained:
  assumes "process_reach src env w p0" and "outside_step src p0 p1" and "pr_exit p0 = None"
    and "pr_sync p0 = None" and "pr_sync p1 \<noteq> None" and "(syncing src env)\<^sup>*\<^sup>* p1 p"
  defines "pods \<equiv> PodMap_List (sv_podMap (update_maps (pr_server p0)))"
  shows "process_reach src env w p \<and>
    (\<exists>arrive ps qs acc. pods = ps @ qs \<and> pr_sync p = Some (qs, acc) \<and> explained src env p0 arrive ps acc p)"
  using assms(6)
proof (induction rule: rtranclp_induct)
  case base
  have begin_sync: "p1 = p0\<lparr>pr_server := update_maps (pr_server p0), pr_sync := Some (pods, [])\<rparr>"
    using assms(2,4,5) by cases (simp_all add: pods_def)
  have "explained src env p0 (\<lambda>_ s. s) [] [] p1"
    by (simp add: explained_def begin_sync heard.nothing)
  moreover have "process_reach src env w p1" by (rule reach_outside [OF assms(1,3,2)])
  ultimately show ?case using begin_sync by (intro conjI exI [of _ "[]"] exI [of _ pods]) auto
next
  case (step p p')
  obtain arrive ps qs acc where pods: "pods = ps @ qs" and sync: "pr_sync p = Some (qs, acc)"
    and ex: "explained src env p0 arrive ps acc p" and reach: "process_reach src env w p"
    using step.IH by blast
  have s: "process_step src env p p'" "pr_sync p' \<noteq> None" using step.hyps(2) by (simp_all add: syncing_def)
  have inv: "server_inv src p" "pr_loop p = Looping"
    using process_inv [OF reach] sync by (simp_all add: thread_inv_def)
  have "server_inv src p0" using process_inv [OF assms(1)] by simp
  then have "distinct pods"
    unfolding pods_def by (intro pods_distinct [of src "pr_cluster p0"]) (simp add: server_inv_def)
  have "keeps_sync src p p' \<or> (\<exists>q qs' s' acc' w'. qs = q # qs' \<and>
       sync_pod env (\<lambda>_ s. s) q (pr_server p, acc, pr_world p) = (s', acc', w') \<and>
       p' = p\<lparr>pr_server := s', pr_world := w', pr_sync := Some (qs', acc')\<rparr>)"
    using s own_during_sync [OF _ inv(1) _ inv(2)] outside_during_sync [OF _ inv(1)] sync
    unfolding process_step_def by fastforce
  then show ?case
  proof (elim disjE exE conjE)
    assume k: "keeps_sync src p p'"
    then have "pr_sync p' = Some (qs, acc)" using sync by (simp add: keeps_sync_def)
    then show ?thesis using explained_keep [OF ex k] pods process_reach.step [OF reach s(1)] by blast
  next
    fix q qs' s' acc' w'
    assume qs: "qs = q # qs'" and run: "sync_pod env (\<lambda>_ s. s) q (pr_server p, acc, pr_world p) = (s', acc', w')"
      and p': "p' = p\<lparr>pr_server := s', pr_world := w', pr_sync := Some (qs', acc')\<rparr>"
    have "q \<notin> set ps" using \<open>distinct pods\<close> pods qs by simp
    from explained_pod [OF ex this run p'] obtain arrive' where "explained src env p0 arrive' (ps @ [q]) acc' p'" by blast
    then show ?thesis
      using pods qs p' process_reach.step [OF reach s(1)]
      by (intro conjI exI [of _ arrive'] exI [of _ "ps @ [q]"] exI [of _ qs'] exI [of _ acc']) auto
  qed
qed

text \<open>
  C4. Every synchronisation of the running process, whatever steps of the other goroutines, events
  and signals come between its steps, is a run of \<open>syncMultiPolicy\<close> on the state at its begin with
  some events arriving between the pods: both leave the same devices and files, and the server of
  the process has heard just these events and those since the last pod.
\<close>

theorem process_sync_refines:
  assumes "process_reach src env w p0" and "outside_step src p0 p1" and "pr_exit p0 = None"
    and "pr_sync p0 = None" and "pr_sync p1 \<noteq> None" and "(syncing src env)\<^sup>*\<^sup>* p1 p2"
    and "process_step src env p2 p3" and "pr_sync p3 = None"
  shows "\<exists>arrive s' cl. syncMultiPolicy env arrive (pr_server p0) (pr_world p0) = (s', pr_world p3) \<and>
    hears src env arrive (PodMap_List (sv_podMap (update_maps (pr_server p0)))) (pr_cluster p0)
      (update_maps (pr_server p0)) cl \<and>
    heard src cl s' (pr_cluster p3) (pr_server p3)"
proof -
  let ?pods = "PodMap_List (sv_podMap (update_maps (pr_server p0)))"
  obtain arrive ps qs acc where pods: "?pods = ps @ qs" and sync: "pr_sync p2 = Some (qs, acc)"
    and ex: "explained src env p0 arrive ps acc p2" and reach: "process_reach src env w p2"
    using syncing_explained [OF assms(1-6)] by blast
  have inv: "server_inv src p2" "pr_loop p2 = Looping"
    using process_inv [OF reach] sync by (simp_all add: thread_inv_def)
  have "own_step src env p2 p3"
    using assms(7,8) outside_during_sync [OF _ inv(1)] sync by (auto simp: process_step_def keeps_sync_def)
  from own_during_sync [OF this inv(1) _ inv(2)] assms(8) sync
  have last: "qs = []" "pr_cluster p3 = pr_cluster p2" "pr_server p3 = pr_server p2"
    "pr_world p3 = (pr_world p2)\<lparr>wd_fs := deleteStalePodInterfaceRules env acc (wd_fs (pr_world p2))\<rparr>"
    by (auto simp: keeps_sync_def)
  have "?pods = ps" using pods last by simp
  then show ?thesis
    using ex last by (intro exI [of _ arrive]) (auto simp: syncMultiPolicy_def explained_def Let_def)
qed

section \<open>Example\<close>

text \<open>The example node from its start to a running loop, without a signal.\<close>

definition ex_booted :: "((string \<times> string) list, bool) Process" where
  "ex_booted = up_to_loop (process_start NewServer \<lparr>wd_dev = True, wd_fs = []\<rparr>)"

definition ex_serving :: "((string \<times> string) list, bool) Process" where
  "ex_serving = ex_booted\<lparr>pr_ns := run_ended start_informer, pr_policy := run_ended start_informer,
     pr_netdef := run_ended start_informer, pr_starter := Ended, pr_pod := run_ended start_informer,
     pr_loop := Looping, pr_server := Sync ex_ready\<rparr>"

lemma ex_booted_fields:
  "pr_ns ex_booted = start_informer" "pr_policy ex_booted = start_informer" "pr_netdef ex_booted = start_informer"
  "pr_starter ex_booted = Blocked" "pr_loop ex_booted = Polling" "pr_exit ex_booted = None" "pr_sync ex_booted = None"
  "pr_server ex_booted = NewServer" "pr_cluster ex_booted = empty_cluster" "pr_pod ex_booted = no_informer"
  "pr_world ex_booted = \<lparr>wd_dev = True, wd_fs = []\<rparr>"
  by (simp_all add: ex_booted_def up_to_loop_def process_start_def)

lemma ex_serving_reach: "process_reach ex_src ex_tool_env \<lparr>wd_dev = True, wd_fs = []\<rparr> ex_serving"
proof -
  note f = ex_booted_fields start_informer_def run_ended_def
  define p1 where "p1 = ex_booted\<lparr>pr_ns := run_ended start_informer, pr_server := Server_OnNamespaceSynced NewServer\<rparr>"
  define p2 where "p2 = p1\<lparr>pr_policy := run_ended start_informer, pr_server := Server_OnPolicySynced (Server_OnNamespaceSynced NewServer)\<rparr>"
  define p3 where "p3 = p2\<lparr>pr_netdef := run_ended start_informer, pr_server := ex_started\<rparr>"
  define p4 where "p4 = p3\<lparr>pr_starter := Ended, pr_pod := start_informer\<rparr>"
  define p5 where "p5 = p4\<lparr>pr_pod := run_ended start_informer, pr_server := ex_ready\<rparr>"
  have closed: "sv_startPodConfigClosed (ex_started :: (string \<times> string) list Server)"
    and ready: "isInitialized (ex_ready :: (string \<times> string) list Server)" by code_simp+
  have "process_reach ex_src ex_tool_env \<lparr>wd_dev = True, wd_fs = []\<rparr> ex_booted"
    unfolding ex_booted_def by (rule reach_up_to_loop)
  then have "process_reach ex_src ex_tool_env \<lparr>wd_dev = True, wd_fs = []\<rparr> p1"
    by (rule reach_own) (use own_step.ns_run [of ex_booted True ex_src ex_tool_env] in \<open>simp_all add: f p1_def dispatch_simps\<close>)
  then have "process_reach ex_src ex_tool_env \<lparr>wd_dev = True, wd_fs = []\<rparr> p2"
    by (rule reach_own) (use own_step.policy_run [of p1 True ex_src ex_tool_env] in \<open>simp_all add: f p1_def p2_def dispatch_simps\<close>)
  then have "process_reach ex_src ex_tool_env \<lparr>wd_dev = True, wd_fs = []\<rparr> p3"
    by (rule reach_own)
      (use own_step.netdef_run [of p2 True ex_src ex_tool_env] in \<open>simp_all add: f p1_def p2_def p3_def dispatch_simps ex_started_def\<close>)
  then have "process_reach ex_src ex_tool_env \<lparr>wd_dev = True, wd_fs = []\<rparr> p4"
    by (rule reach_own)
      (use own_step.starter_pods [of p3 ex_src ex_tool_env] closed in \<open>simp_all add: f p1_def p2_def p3_def p4_def RunPodConfig_def\<close>)
  then have "process_reach ex_src ex_tool_env \<lparr>wd_dev = True, wd_fs = []\<rparr> p5"
    by (rule reach_own)
      (use own_step.pod_run [of p4 True ex_src ex_tool_env] in
        \<open>simp_all add: f p1_def p2_def p3_def p4_def p5_def dispatch_simps ex_ready_def\<close>)
  then show ?thesis
    by (rule reach_own)
      (use own_step.loop_polled [of p5 ex_src ex_tool_env] ready in
        \<open>simp_all add: f p1_def p2_def p3_def p4_def p5_def ex_serving_def\<close>)
qed

text \<open>A pod arrives, a synchronisation begins, the pod goes, the synchronisation works on it and ends.\<close>

definition ex_pod_seen :: "((string \<times> string) list, bool) Process" where
  "ex_pod_seen = ex_serving\<lparr>pr_cluster := empty_cluster\<lparr>cl_pods := [pod_key ex_pod \<mapsto> ex_pod]\<rparr>,
     pr_server := deliver_pod ex_src (Added ex_pod) (Sync ex_ready)\<rparr>"

definition ex_begun :: "((string \<times> string) list, bool) Process" where
  "ex_begun = ex_pod_seen\<lparr>pr_server := update_maps (pr_server ex_pod_seen),
     pr_sync := Some (PodMap_List (sv_podMap (update_maps (pr_server ex_pod_seen))), [])\<rparr>"

definition ex_pod_gone :: "((string \<times> string) list, bool) Process" where
  "ex_pod_gone = ex_begun\<lparr>pr_cluster := empty_cluster,
     pr_server := deliver_pod ex_src (Deleted ex_pod) (pr_server ex_begun)\<rparr>"

definition ex_worked :: "((string \<times> string) list, bool) Process" where
  "ex_worked = ex_pod_gone\<lparr>pr_server := update_pods (pr_server ex_pod_gone), pr_sync := Some ([], [])\<rparr>"

definition ex_ended :: "((string \<times> string) list, bool) Process" where
  "ex_ended = ex_worked\<lparr>pr_sync := None\<rparr>"

lemmas ex_sync_defs = ex_ended_def ex_worked_def ex_pod_gone_def ex_begun_def ex_pod_seen_def

lemma ex_serving_fields:
  "pr_loop ex_serving = Looping" "pr_exit ex_serving = None" "pr_sync ex_serving = None"
  "pr_cluster ex_serving = empty_cluster" "pr_server ex_serving = Sync ex_ready"
  "in_started (pr_pod ex_serving)" "pr_world ex_serving = \<lparr>wd_dev = True, wd_fs = []\<rparr>"
  by (simp_all add: ex_serving_def ex_booted_fields run_ended_def start_informer_def)

lemma ex_begin: "outside_step ex_src ex_pod_seen ex_begun"
  using outside_step.sync_call [of ex_pod_seen "update_maps (pr_server ex_pod_seen)" ex_src]
  by (simp add: ex_begun_def) (simp add: ex_pod_seen_def ex_serving_fields)

lemma ex_begun_gone: "outside_step ex_src ex_begun ex_pod_gone"
proof -
  have "(empty_cluster :: (string \<times> string) list Cluster)\<lparr>cl_pods := Map.empty\<rparr> = empty_cluster"
    by (simp add: empty_cluster_def)
  then show ?thesis
    using outside_step.pod_event [of ex_begun "pr_cluster ex_begun" "Deleted ex_pod" ex_src]
    by (simp add: ex_pod_gone_def ex_begun_def ex_pod_seen_def ex_serving_fields del: deliver_pod.simps)
qed

definition ex_early_info :: PodInfo where
  "ex_early_info = fst (newPodInfo ex_ann ex_plugins NewNetDefChangeTracker ex_pod)"

lemma ex_gone_worked: "own_step ex_src ex_tool_env ex_pod_gone ex_worked"
proof -
  let ?seen = "deliver_pod ex_src (Added ex_pod) (Sync ex_ready) :: (string \<times> string) list Server"
  let ?gone = "deliver_pod ex_src (Deleted ex_pod) (update_maps ?seen)"
  have "PodMap_List (sv_podMap (update_maps ?seen)) = [ex_early_info]" by code_simp
  then have pods: "pr_sync ex_pod_gone = Some ([ex_early_info], [])" and server: "pr_server ex_pod_gone = ?gone"
    by (simp_all add: ex_pod_gone_def ex_begun_def ex_pod_seen_def del: deliver_pod.simps)
  have "\<exists>e. GetPodInfo (sv_podMap (update_pods ?gone)) (pi_Namespace ex_early_info) (pi_Name ex_early_info) = Inl e"
  proof -
    have "map_of (sv_podMap (update_pods ?gone)) (NamespacedName (pi_Namespace ex_early_info) (pi_Name ex_early_info)) = None"
      by code_simp
    then show ?thesis by (simp add: GetPodInfo_def)
  qed
  moreover have "CheckNodeNameIdentical (env_Hostname ex_tool_env) (pi_NodeName ex_early_info)" by code_simp
  ultimately have "sync_pod ex_tool_env (\<lambda>_ s. s) ex_early_info (?gone, [], pr_world ex_pod_gone) =
      (update_pods ?gone, [], pr_world ex_pod_gone)"
    by (auto simp: sync_pod_def Let_def)
  from own_step.sync_one [OF pods, unfolded server, OF this] show ?thesis
    unfolding ex_worked_def server by simp
qed

lemma ex_worked_ended: "own_step ex_src ex_tool_env ex_worked ex_ended"
proof -
  have "deleteStalePodInterfaceRules ex_tool_env [] fs = fs" for fs
    by (simp add: deleteStalePodInterfaceRules_def ex_tool_env_def default_options_def)
  then show ?thesis
    using own_step.sync_end [of ex_worked "[]" "pr_world ex_worked" ex_src ex_tool_env]
    by (simp add: ex_worked_def ex_ended_def)
qed

theorem process_sync_refines_witness:
  "\<exists>arrive s' cl. syncMultiPolicy ex_tool_env arrive (pr_server ex_pod_seen) \<lparr>wd_dev = True, wd_fs = []\<rparr> =
      (s', \<lparr>wd_dev = True, wd_fs = []\<rparr>) \<and> heard ex_src cl s' empty_cluster (pr_server ex_ended)"
proof -
  have "outside_step ex_src ex_serving ex_pod_seen"
    using outside_step.pod_event [of ex_serving empty_cluster "Added ex_pod" ex_src]
    by (simp add: ex_pod_seen_def ex_serving_fields del: deliver_pod.simps)
      (simp add: empty_cluster_def del: deliver_pod.simps)
  from reach_outside [OF ex_serving_reach _ this]
  have reach: "process_reach ex_src ex_tool_env \<lparr>wd_dev = True, wd_fs = []\<rparr> ex_pod_seen"
    by (simp add: ex_serving_fields)
  have run: "pr_exit ex_pod_seen = None" "pr_sync ex_pod_seen = None" "pr_sync ex_begun \<noteq> None" "pr_sync ex_ended = None"
    and more: "pr_exit ex_begun = None" "pr_exit ex_pod_gone = None" "pr_exit ex_worked = None"
      "pr_sync ex_pod_gone \<noteq> None" "pr_sync ex_worked \<noteq> None"
    by (simp_all add: ex_sync_defs ex_serving_fields)
  have "syncing ex_src ex_tool_env ex_begun ex_pod_gone" "syncing ex_src ex_tool_env ex_pod_gone ex_worked"
    using ex_begun_gone ex_gone_worked run more by (simp_all add: syncing_def process_step_def)
  then have path: "(syncing ex_src ex_tool_env)\<^sup>*\<^sup>* ex_begun ex_worked" by (rule converse_rtranclp_into_rtranclp [OF _ r_into_rtranclp])
  have last: "process_step ex_src ex_tool_env ex_worked ex_ended"
    using ex_worked_ended more by (simp add: process_step_def)
  have "pr_world ex_pod_seen = \<lparr>wd_dev = True, wd_fs = []\<rparr>" "pr_world ex_ended = \<lparr>wd_dev = True, wd_fs = []\<rparr>"
    "pr_cluster ex_ended = empty_cluster"
    by (simp_all add: ex_sync_defs ex_serving_fields)
  with process_sync_refines [OF reach ex_begin run(1-3) path last run(4)] show ?thesis by metis
qed

end
