(* ===== verification/Renderer_Suite.thy ===== *)
theory Renderer_Suite
  imports Policy_Meaning
begin

text \<open>
  The renderer on the policies of its own test suite: the fixtures of \<open>pkg/policyrules/testutil\<close>
  (\<open>policies.go\<close>, \<open>utils.go\<close>) and every case of \<open>policyrules_test.go\<close>, with the comparison the tests
  use. It says that the model of the renderer gives what the authors of the code expect of it. The
  selectors are those of apimachinery on equality requirements only, which is all the fixtures use.
  The kinds, API versions and empty fields of the fixtures are left out, as the model has no such
  fields.
\<close>

section \<open>Builders\<close>

definition NewPodInfoBuiler :: PodInfo where
  "NewPodInfoBuiler =
     \<lparr>pi_UID = [], pi_Name = [], pi_Labels = None, pi_Namespace = [], pi_NetworkStatus = None,
      pi_NodeName = [], pi_Interfaces = None\<rparr>"

definition PodInfo_WithName :: "string \<Rightarrow> PodInfo \<Rightarrow> PodInfo" where
  "PodInfo_WithName n b = b\<lparr>pi_Name := n\<rparr>"

definition PodInfo_WithNamespace :: "string \<Rightarrow> PodInfo \<Rightarrow> PodInfo" where
  "PodInfo_WithNamespace ns b = b\<lparr>pi_Namespace := ns\<rparr>"

text \<open>The loop of both \<open>WithLabels\<close>; a text without \<open>=\<close> panics.\<close>

fun set_labels :: "string list \<Rightarrow> (string, string) mapping \<Rightarrow> error + (string, string) mapping" where
  "set_labels [] m = Inr m"
| "set_labels (kv # kvs) m =
     (case split_on CHR ''='' kv of
        k # v # _ \<Rightarrow> set_labels kvs (Mapping.update k v m)
      | _ \<Rightarrow> Inl (Panic ''index out of range''))"

definition PodInfo_WithLabels :: "string list \<Rightarrow> PodInfo \<Rightarrow> error + PodInfo" where
  "PodInfo_WithLabels kvs b = map_sum id (\<lambda>m. b\<lparr>pi_Labels := Some m\<rparr>) (set_labels kvs Mapping.empty)"

definition PodInfo_WithInterface ::
  "string \<Rightarrow> string \<Rightarrow> string \<Rightarrow> string \<Rightarrow> string slice \<Rightarrow> PodInfo \<Rightarrow> PodInfo" where
  "PodInfo_WithInterface netAttachName deviceID interfaceName interfaceType ips b =
     (let ii = \<lparr>if_NetattachName = netAttachName, if_DeviceID = deviceID, if_InterfaceName = interfaceName,
                if_InterfaceType = interfaceType, if_IPs = ips\<rparr>
      in b\<lparr>pi_Interfaces := slice_append (pi_Interfaces b) [ii]\<rparr>)"

definition ResetInterfaces :: "PodInfo \<Rightarrow> PodInfo" where
  "ResetInterfaces b = b\<lparr>pi_Interfaces := None\<rparr>"

text \<open>\<open>uuid.New\<close> is the argument.\<close>

definition PodInfo_Build :: "string \<Rightarrow> PodInfo \<Rightarrow> PodInfo" where
  "PodInfo_Build uuid b = b\<lparr>pi_UID := uuid\<rparr>"

definition NewNamespaceInfoBuilder :: NamespaceInfo where
  "NewNamespaceInfoBuilder = \<lparr>nsi_Name = [], nsi_Labels = None\<rparr>"

definition NamespaceInfo_WithName :: "string \<Rightarrow> NamespaceInfo \<Rightarrow> NamespaceInfo" where
  "NamespaceInfo_WithName n b = b\<lparr>nsi_Name := n\<rparr>"

definition NamespaceInfo_WithLabels :: "string list \<Rightarrow> NamespaceInfo \<Rightarrow> error + NamespaceInfo" where
  "NamespaceInfo_WithLabels kvs b = map_sum id (\<lambda>m. b\<lparr>nsi_Labels := Some m\<rparr>) (set_labels kvs Mapping.empty)"

section \<open>Policies\<close>

type_synonym pairs = "(string \<times> string) list"

definition NewPolicyInfoBuilder :: "pairs Policy \<Rightarrow> pairs PolicyInfo" where
  "NewPolicyInfoBuilder zero = \<lparr>pli_PolicyNetworks = [], pli_Policy = zero\<rparr>"

definition PolicyInfo_WithNetworks :: "string list \<Rightarrow> pairs PolicyInfo \<Rightarrow> pairs PolicyInfo" where
  "PolicyInfo_WithNetworks nets b = b\<lparr>pli_PolicyNetworks := pli_PolicyNetworks b @ nets\<rparr>"

definition PolicyInfo_WithPolicy :: "pairs Policy \<Rightarrow> pairs PolicyInfo \<Rightarrow> pairs PolicyInfo" where
  "PolicyInfo_WithPolicy p b = b\<lparr>pli_Policy := p\<rparr>"

definition TargetNamespace :: string where "TargetNamespace = ''target''"

definition SourceNamespace :: string where "SourceNamespace = ''source''"

text \<open>The parts of the literals.\<close>

definition egress_policy :: "string \<Rightarrow> pairs \<Rightarrow> pairs EgressRule list \<Rightarrow> pairs Policy" where
  "egress_policy name sel rules =
     \<lparr>pol_Namespace = TargetNamespace, pol_Name = name, pol_Annotations = None, pol_PolicyTypes = [''Egress''],
      pol_PodSelector = sel, pol_Egress = rules, pol_Other = 0\<rparr>"

definition to_block :: "string \<Rightarrow> string list \<Rightarrow> pairs PolicyPeer" where
  "to_block cidr excepts =
     \<lparr>peer_PodSelector = None, peer_NamespaceSelector = None,
      peer_IPBlock = Some \<lparr>blk_CIDR = cidr, blk_Except = excepts\<rparr>\<rparr>"

definition to_pods :: "pairs \<Rightarrow> pairs \<Rightarrow> pairs PolicyPeer" where
  "to_pods pods nss = \<lparr>peer_PodSelector = Some pods, peer_NamespaceSelector = Some nss, peer_IPBlock = None\<rparr>"

definition at_port :: "string option \<Rightarrow> int \<Rightarrow> PolicyPort" where
  "at_port proto number = \<lparr>mp_Protocol = proto, mp_Port = Some (FromInt number)\<rparr>"

definition three_ports :: "PolicyPort list" where
  "three_ports = [at_port (Some ''TCP'') 6666, at_port (Some ''UDP'') 7777, at_port None 8888]"

abbreviation source_ns :: pairs where
  "source_ns \<equiv> [(''kubernetes.io/metadata.name'', SourceNamespace)]"

definition PolicyDefaultAllow :: "pairs Policy" where
  "PolicyDefaultAllow = egress_policy ''ipblock-policy-allow'' [] [\<lparr>eg_Ports = [], eg_To = []\<rparr>]"

definition PolicyDefaultDeny :: "pairs Policy" where
  "PolicyDefaultDeny = egress_policy ''ipblock-policy-allow'' [] []"

definition PolicyIPBlockNoPorts :: "pairs Policy" where
  "PolicyIPBlockNoPorts = egress_policy ''ipblock-policy'' [(''app'', ''target'')]
     [\<lparr>eg_Ports = [], eg_To = [to_block ''10.17.0.0/16'' [''10.17.0.0/24'']]\<rparr>]"

definition PolicyIPBlockWithPorts :: "pairs Policy" where
  "PolicyIPBlockWithPorts = egress_policy ''ipblock-policy'' []
     [\<lparr>eg_Ports = three_ports, eg_To = [to_block ''10.17.0.0/16'' [''10.17.0.0/24'']]\<rparr>]"

definition PolicyIPBlockWithMultipeRules :: "pairs Policy" where
  "PolicyIPBlockWithMultipeRules = egress_policy ''ipblock-policy'' [(''app'', ''target'')]
     [\<lparr>eg_Ports = [], eg_To = [to_block ''10.17.0.0/16'' [''10.17.0.0/24'', ''10.17.1.0/24'']]\<rparr>,
      \<lparr>eg_Ports = [at_port (Some ''TCP'') 6666],
       eg_To = [to_block ''20.17.0.0/16'' [''20.17.0.0/24'', ''20.17.1.0/24'']]\<rparr>]"

definition PolicyIPBlockWithMultipePeers :: "pairs Policy" where
  "PolicyIPBlockWithMultipePeers = egress_policy ''ipblock-policy'' [(''app'', ''target'')]
     [\<lparr>eg_Ports = [at_port (Some ''TCP'') 6666],
       eg_To = [to_block ''10.17.0.0/16'' [''10.17.0.0/24''], to_block ''20.17.0.0/16'' [''20.17.0.0/24'']]\<rparr>]"

definition PolicySelectorAsSourceNoPorts :: "pairs Policy" where
  "PolicySelectorAsSourceNoPorts = egress_policy ''selector-policy'' [(''app'', ''target'')]
     [\<lparr>eg_Ports = [], eg_To = [to_pods [(''app'', ''source'')] source_ns]\<rparr>]"

definition PolicySelectorAsSourceWithPorts :: "pairs Policy" where
  "PolicySelectorAsSourceWithPorts = egress_policy ''selector-policy'' [(''app'', ''target'')]
     [\<lparr>eg_Ports = three_ports, eg_To = [to_pods [] source_ns]\<rparr>]"

definition PolicySelectorAsSourceMultipleRules :: "pairs Policy" where
  "PolicySelectorAsSourceMultipleRules = egress_policy ''selector-policy'' []
     [\<lparr>eg_Ports = [], eg_To = [to_pods [(''app'', ''source-1'')] source_ns]\<rparr>,
      \<lparr>eg_Ports = [at_port (Some ''TCP'') 6666], eg_To = [to_pods [(''app'', ''source-2'')] source_ns]\<rparr>]"

definition PolicySelectorAsSourceMultiplePeers :: "pairs Policy" where
  "PolicySelectorAsSourceMultiplePeers = egress_policy ''selector-policy'' [(''app'', ''target'')]
     [\<lparr>eg_Ports = [at_port (Some ''TCP'') 6666],
       eg_To = [to_pods [(''app'', ''source-1'')] [], to_pods [(''app'', ''source-2'')] []]\<rparr>]"

section \<open>The comparison of the tests\<close>

definition ruleEqual :: "Rule \<Rightarrow> Rule \<Rightarrow> bool" where
  "ruleEqual this other \<longleftrightarrow>
     rule_Action this = rule_Action other \<and>
     length (rule_IPCidrs this) = length (rule_IPCidrs other) \<and>
     length (rule_Ports this) = length (rule_Ports other) \<and>
     list_all (\<lambda>ip. list_ex (\<lambda>otherIP. IPNet_String ip = IPNet_String otherIP) (rule_IPCidrs other)) (rule_IPCidrs this) \<and>
     list_all (\<lambda>port. list_ex (\<lambda>otherPort. port = otherPort) (rule_Ports other)) (rule_Ports this)"

definition checkRules :: "Rule list \<Rightarrow> Rule list \<Rightarrow> bool" where
  "checkRules actual expected \<longleftrightarrow>
     length actual = length expected \<and> list_all (\<lambda>rule. list_ex (ruleEqual rule) expected) actual"

definition checkInterfaceInfos :: "PolicyRuleSet list \<Rightarrow> InterfaceInfo list \<Rightarrow> bool" where
  "checkInterfaceInfos rules podInterfaceInfos \<longleftrightarrow>
     list_all (\<lambda>rs.
       let same = filter (\<lambda>ifc. if_InterfaceName ifc = ri_InterfaceName (rs_IfcInfo rs)) podInterfaceInfos
       in same \<noteq> [] \<and>
          list_all (\<lambda>ifc. ri_DeviceID (rs_IfcInfo rs) = if_DeviceID ifc \<and>
            ri_Network (rs_IfcInfo rs) = if_NetattachName ifc \<and>
            map IP_String (ri_IPs (rs_IfcInfo rs)) = elems (if_IPs ifc)) same) rules"

section \<open>The cases\<close>

record SuiteCase =
  case_target :: PodInfo
  case_policies :: "pairs PolicyMap"
  case_pods :: PodMap
  case_namespaces :: NamespaceMap
  case_sets :: nat
  case_rules :: "Rule list"

text \<open>What every test says of the result: no error, so many rule sets, and the rules in each.\<close>

definition suite_case_ok :: "SuiteCase \<Rightarrow> bool" where
  "suite_case_ok c \<longleftrightarrow>
     (case RenderEgress ex_api (case_target c) (case_policies c) (case_pods c) (case_namespaces c) of
        (ruleSets, err) \<Rightarrow>
          err = None \<and> length ruleSets = case_sets c \<and>
          checkInterfaceInfos ruleSets (elems (pi_Interfaces (case_target c))) \<and>
          list_all (\<lambda>rs. rs_Type rs = PolicyTypeEgress \<and> checkRules (elems (rs_Rules rs)) (case_rules c)) ruleSets)"

definition suite_pod :: "string \<Rightarrow> string \<Rightarrow> (string \<times> string \<times> string \<times> string) list \<Rightarrow> string \<Rightarrow> PodInfo" where
  "suite_pod name ns ifcs label =
     PodInfo_Build (''uid-'' @ name) (projr (PodInfo_WithLabels [''app='' @ label]
       (fold (\<lambda>(net, dev, ifc, ip). PodInfo_WithInterface net dev ifc ''accelerated-bridge'' (Some [ip])) ifcs
         (PodInfo_WithNamespace ns (PodInfo_WithName name NewPodInfoBuiler)))))"

definition suite_target :: PodInfo where
  "suite_target = suite_pod ''target-pod'' TargetNamespace [(''accel-net'', ''0000:03:00.4'', ''net1'', ''192.168.1.2'')] ''target''"

definition suite_source :: "string \<Rightarrow> string \<Rightarrow> string \<Rightarrow> string \<Rightarrow> PodInfo" where
  "suite_source name dev ip label = suite_pod name SourceNamespace [(''accel-net'', dev, ''net1'', ip)] label"

definition suite_namespaces :: NamespaceMap where
  "suite_namespaces = map (\<lambda>name. (name, projr (NamespaceInfo_WithLabels [''kubernetes.io/metadata.name='' @ name]
     (NamespaceInfo_WithName name NewNamespaceInfoBuilder)))) [''target'', ''source'']"

definition add_policy :: "pairs Policy \<Rightarrow> string list \<Rightarrow> NamespacedName \<times> pairs PolicyInfo" where
  "add_policy p nets =
     (NamespacedName (pol_Namespace p) (pol_Name p),
      PolicyInfo_WithNetworks nets (PolicyInfo_WithPolicy p (NewPolicyInfoBuilder p)))"

definition block_case :: "PodInfo \<Rightarrow> pairs Policy \<Rightarrow> string list \<Rightarrow> nat \<Rightarrow> Rule list \<Rightarrow> SuiteCase" where
  "block_case target p nets n rules =
     \<lparr>case_target = target, case_policies = [add_policy p nets], case_pods = [], case_namespaces = [],
      case_sets = n, case_rules = rules\<rparr>"

definition pods_case :: "pairs Policy list \<Rightarrow> PodInfo list \<Rightarrow> Rule list \<Rightarrow> SuiteCase" where
  "pods_case ps sources rules =
     \<lparr>case_target = suite_target, case_policies = map (\<lambda>p. add_policy p [''accel-net'']) ps,
      case_pods = map (\<lambda>i. (NamespacedName (pi_Namespace i) (pi_Name i), i)) (sources @ [suite_target]),
      case_namespaces = suite_namespaces, case_sets = 1, case_rules = rules\<rparr>"

definition rule_to :: "IPNet list \<Rightarrow> Port list \<Rightarrow> PolicyAction \<Rightarrow> Rule" where
  "rule_to nets ports act = \<lparr>rule_IPCidrs = nets, rule_Ports = ports, rule_Action = act\<rparr>"

definition net4 :: "u8 \<Rightarrow> u8 \<Rightarrow> u8 \<Rightarrow> IPNet" where
  "net4 a c m = \<lparr>net_IP = [a, 17, c, 0], net_Mask = [255, 255, m, 0]\<rparr>"

definition host4 :: "u8 \<Rightarrow> IPNet" where
  "host4 d = \<lparr>net_IP = [0, 0, 0, 0, 0, 0, 0, 0, 0, 0, 255, 255, 192, 168, 1, d], net_Mask = [255, 255, 255, 255]\<rparr>"

definition tcp_6666 :: "Port list" where
  "tcp_6666 = [\<lparr>port_Protocol = ProtocolTCP, port_Number = 6666\<rparr>]"

definition expected_ports :: "Port list" where
  "expected_ports = tcp_6666 @ [\<lparr>port_Protocol = ProtocolUDP, port_Number = 7777\<rparr>,
     \<lparr>port_Protocol = ProtocolTCP, port_Number = 8888\<rparr>]"

definition block_rules :: "u8 \<Rightarrow> Port list \<Rightarrow> Rule list" where
  "block_rules a ports = [rule_to [net4 a 0 0] ports PolicyActionPass, rule_to [net4 a 0 255] ports PolicyActionDrop]"

definition two_interfaces :: "string \<Rightarrow> string \<Rightarrow> PodInfo" where
  "two_interfaces net1 net2 = suite_pod ''target-pod'' TargetNamespace
     [(net1, ''0000:03:00.4'', ''net1'', ''192.168.1.2''), (net2, ''0000:03:00.5'', ''net2'', ''192.168.1.3'')] ''target''"

text \<open>The cases of \<open>RenderEgress\<close>, by the parts of the test file.\<close>

definition edge_cases :: "SuiteCase list" where
  "edge_cases =
     [block_case (suite_pod ''target-pod'' ''default'' [(''accel-net'', ''0000:03:00.4'', ''net1'', ''192.168.1.2'')] ''target'')
        PolicyIPBlockNoPorts [''accel-net''] 1 [],
      block_case suite_target PolicyDefaultDeny [''accel-net''] 1 [],
      block_case suite_target PolicyDefaultAllow [''accel-net''] 1 [rule_to [] [] PolicyActionPass]]"

definition block_cases :: "SuiteCase list" where
  "block_cases =
     [block_case suite_target PolicyIPBlockNoPorts [''accel-net''] 1 (block_rules 10 []),
      block_case suite_target PolicyIPBlockWithPorts [''accel-net''] 1 (block_rules 10 expected_ports),
      block_case suite_target PolicyIPBlockWithMultipeRules [''accel-net''] 1
        [rule_to [net4 10 0 0] [] PolicyActionPass, rule_to [net4 10 0 255, net4 10 1 255] [] PolicyActionDrop,
         rule_to [net4 20 0 0] tcp_6666 PolicyActionPass, rule_to [net4 20 0 255, net4 20 1 255] tcp_6666 PolicyActionDrop],
      block_case suite_target PolicyIPBlockWithMultipePeers [''accel-net''] 1 (block_rules 10 tcp_6666 @ block_rules 20 tcp_6666)]"

definition selector_cases :: "SuiteCase list" where
  "selector_cases =
     [pods_case [PolicySelectorAsSourceNoPorts]
        [suite_source ''source-pod-1'' ''0000:03:00.5'' ''192.168.1.3'' ''source'',
         suite_source ''source-pod-2'' ''0000:03:00.6'' ''192.168.1.4'' ''not-a-source'']
        [rule_to [host4 3] [] PolicyActionPass],
      pods_case [PolicySelectorAsSourceWithPorts]
        [suite_source ''source-pod-1'' ''0000:03:00.5'' ''192.168.1.3'' ''source'',
         suite_source ''source-pod-2'' ''0000:03:00.6'' ''192.168.1.4'' ''source'']
        [rule_to [host4 3, host4 4] expected_ports PolicyActionPass],
      pods_case [PolicySelectorAsSourceMultipleRules]
        [suite_source ''source-pod-1'' ''0000:03:00.5'' ''192.168.1.3'' ''source-1'',
         suite_source ''source-pod-2'' ''0000:03:00.6'' ''192.168.1.4'' ''source-2'']
        [rule_to [host4 3] [] PolicyActionPass, rule_to [host4 4] tcp_6666 PolicyActionPass],
      pods_case [PolicySelectorAsSourceMultiplePeers]
        [suite_source ''source-pod-1'' ''0000:03:00.5'' ''192.168.1.3'' ''source-1'',
         suite_source ''source-pod-2'' ''0000:03:00.6'' ''192.168.1.4'' ''source-2'']
        [rule_to [host4 3] tcp_6666 PolicyActionPass, rule_to [host4 4] tcp_6666 PolicyActionPass]]"

definition multiple_cases :: "SuiteCase list" where
  "multiple_cases =
     [pods_case [PolicySelectorAsSourceNoPorts, PolicyIPBlockNoPorts]
        [suite_source ''source-pod-1'' ''0000:03:00.5'' ''192.168.1.3'' ''source'']
        (rule_to [host4 3] [] PolicyActionPass # block_rules 10 []),
      block_case (two_interfaces ''accel-net'' ''accel-net'') PolicyIPBlockNoPorts [''accel-net''] 2 (block_rules 10 []),
      block_case (two_interfaces ''accel-net1'' ''accel-net2'') PolicyIPBlockNoPorts [''accel-net1'', ''accel-net2''] 2
        (block_rules 10 [])]"

definition suite :: "SuiteCase list" where
  "suite = edge_cases @ block_cases @ selector_cases @ multiple_cases"

lemma edge_cases_ok: "list_all suite_case_ok edge_cases" by code_simp

lemma block_cases_ok: "list_all suite_case_ok block_cases" by code_simp

lemma selector_cases_ok: "list_all suite_case_ok selector_cases" by code_simp

lemma multiple_cases_ok: "list_all suite_case_ok multiple_cases" by code_simp


end
