(* ===== verification/Spec2Isabelle.thy ===== *)
theory Spec2Isabelle
  imports Sync_Process Renderer_Suite
begin

text \<open>
  Verification of multi-networkpolicy-tc. This theory is the root: it puts the components
  together and holds the properties that span them.

  \<^bold>\<open>The program.\<close> A daemon on each node watches namespaces, pods, network attachment definitions
  and multi-network policies, and installs traffic control (tc) filters on the representors of
  the virtual functions of the node's pods so that the egress traffic of every pod interface is
  what the policies allow. Events of the informers change the trackers of the server; a
  synchronisation brings the maps up to date, renders the policies of each pod of the node to
  rules, generates filters from the rules and makes a device have exactly these filters, through
  netlink or through the program \<open>tc\<close>.

  \<^bold>\<open>Theories and sources.\<close>
  \<^item> \<open>Prelude\<close>, \<open>Go_Strings\<close>, \<open>Go_Net\<close>, \<open>Go_Json\<close>: the Go values and the parts of the Go library the
    program uses: errors as values, nil slices as \<open>None\<close>, machine words, text of numbers,
    addresses and masks, decoding of JSON.
  \<^item> \<open>K8s_Objects\<close>: the fields of the cluster's objects that the program reads.
  \<^item> \<open>Net_Utils\<close> (\<open>pkg/utils/utils.go\<close>), \<open>Policy_Rules\<close> (\<open>pkg/policyrules/types.go\<close>).
  \<^item> \<open>Change_Tracker\<close> and \<open>Namespace_Controller\<close>, \<open>Policy_Controller\<close>, \<open>NetDef_Controller\<close>,
    \<open>Pod_Controller\<close> (\<open>pkg/controllers\<close>): handlers, trackers and maps; \<open>apply\<close> and \<open>Update\<close> are
    \<open>tracker_apply\<close> and \<open>tracker_update\<close>, instantiated by each controller.
  \<^item> \<open>Policy_Renderer\<close>, \<open>Policy_Meaning\<close>, \<open>Rule_Types\<close> (\<open>pkg/policyrules/renderer.go\<close>): from policies to
    rules, what the policies mean for a packet, and the shape of every rendered rule.
  \<^item> \<open>Tc_Types\<close>, \<open>Tc_Filter\<close> (\<open>pkg/tc/types\<close>), \<open>Filter_Set\<close> (\<open>pkg/tc/filterset.go\<close>), \<open>Tc_Generator\<close> and
    \<open>Packet_Verdict\<close> (\<open>pkg/tc/generator\<close>): filters, sets of filters up to \<open>Equals\<close>, the generated
    filters and the verdict of the tc pipeline they form.
  \<^item> \<open>Tc_Actuator\<close> (\<open>pkg/tc/actuator_tc.go\<close>, \<open>pkg/tc/interface.go\<close>), \<open>Tc_File_Writer\<close>
    (\<open>pkg/tc/actuator_file_writer.go\<close>).
  \<^item> \<open>Tc_Netlink\<close>, \<open>Netlink_Contract\<close> (\<open>pkg/tc/driver/netlink\<close>); \<open>Tc_Cmdline\<close>, \<open>Net_Text\<close>,
    \<open>Cmdline_Reading\<close>, \<open>Cmdline_Contract\<close> (\<open>pkg/tc/driver/cmdline\<close>); \<open>Sync_Devices\<close> puts the devices of
    a node side by side.
  \<^item> \<open>Server_State\<close>, \<open>Server_Sync\<close>, \<open>Server_Start\<close>, \<open>Server_Run\<close> (\<open>pkg/server\<close>, \<open>pkg/utils/signal.go\<close>,
    \<open>cmd/multi-networkpolicy-tc/main.go\<close>): event handlers and flags, \<open>syncMultiPolicy\<close>, \<open>NewServer\<close>, and
    the life of the process: \<open>Run\<close>, its goroutines, the informers, the sync loop and signals as steps
    that interleave freely.
  \<^item> \<open>Egress_Path\<close>, \<open>Sync_Run\<close>, \<open>Sync_Arrivals\<close>, \<open>Sync_Process\<close>, \<open>Sync_Example\<close>: the components
    composed, a whole synchronisation as a pass over independent jobs, with events arriving between
    its pods, as a part of the running process, and a node for the witnesses.
  \<^item> \<open>Renderer_Suite\<close> (\<open>pkg/policyrules/testutil\<close>): the renderer on the fixtures and cases of its own
    test suite.

  \<^bold>\<open>State and interfaces.\<close> A Go struct is a record with the names of its fields and a short prefix,
  a method a function of the same name that returns the changed state. Everything outside the
  process is a value of a type variable (the world) that the calls pass along. Interfaces are
  locales: \<open>tracked\<close> (what a change tracker needs of a kind of objects, interpreted by the four
  controllers), \<open>set_ops\<close> and \<open>set_algebra\<close> (a set up to an equivalence, interpreted by the filter
  set), \<open>tc_contract\<close> (what the actuator relies on), \<open>nl_contract\<close> and \<open>tool_contract\<close> (what the netlink
  library and \<open>tc\<close> promise; each is a sublocale of \<open>tc_contract\<close>, which is the proof that the driver
  is right), \<open>tc_frame\<close>, \<open>tc_devices\<close>, \<open>nl_devices\<close> and \<open>tool_devices\<close> (the same for all devices of a
  node).

  \<^bold>\<open>What is shown.\<close> The maps are the image of the cluster after any events in any order
  (refinement by a tracker invariant); the start-up protocol, what holds in every state of the
  running process, and that a signal ends it (a measure on the work left); the rendered rules decide packets as
  the policies mean; the generated filters decide as the rules; the actuator makes the installed
  filters the wanted ones, and stays between old and wanted when a call fails; both drivers read
  back what they write and keep the contract; and, over all of these, what a whole synchronisation
  leaves on every device (\<open>cmdline_synchronisation\<close>, \<open>netlink_synchronisation\<close>), also when events
  arrive meanwhile (\<open>synchronisation_with_events\<close>, \<open>visits_are_current\<close>). Their hypothesis that the
  server is reachable holds in every state of the process, by \<open>process_life\<close>, and every
  synchronisation of the process is one of these, by \<open>process_sync_refines\<close>.

  \<^bold>\<open>Fuel.\<close> Only the JSON scanner takes fuel, \<open>2 * length + 2\<close> for the input it reads;
  \<open>json_scan_fuel\<close> shows that this is enough for every input. All other definitions are total by
  structural recursion.

  \<^bold>\<open>Assumptions and bounds.\<close> The selectors of apimachinery, the annotation parsers, the netlink
  library, \<open>tc\<close>, sriovnet and the file system are parameters; the contracts of selectors, netlink
  and \<open>tc\<close> are named hypotheses. A handler runs under the mutex of the server or of its tracker and
  is one step; the handlers only touch the trackers, so events that arrive while a pod is worked
  on count as arriving before the next one (\<open>arrive\<close>, and the steps of \<open>Server_Run\<close>). client-go's
  informers deliver legal events once started, and its runner may synchronise at any time while its
  loop runs. The bound in \<open>signal_ends_process\<close>, 37 steps and one for each
  pod a running synchronisation has left, bounds its measure in every state (\<open>work_bounded\<close>).

  \<^bold>\<open>Not modelled.\<close> Logging; the inside of client-go's informers, runner and event broadcaster; how
  cobra and pflag parse the command line (a parameter of \<open>main_start\<close>); the wrappers of \<open>pkg/net\<close>,
  which only forward; mocks and the test utilities of the controllers; a null entry of a CNI plugin
  list and invalid UTF-8 in JSON.
\<close>

section \<open>From policies to installed filters\<close>


section \<open>A whole synchronisation\<close>

text \<open>What the two drivers give the pass: the actuator of each representor and the keys of its filters.\<close>

lemma cmdline_actuator:
  "opt_createActuatorForRep env = None \<Longrightarrow> opt_tcDriver (env_options env) = ''cmdline'' \<Longrightarrow>
    createActuatorFromRepFn env rep d = Inr (Actuate (NewTcCmdLineImpl rep (env_exec env)))"
  by (simp add: createActuatorFromRepFn_def createActuatorForRep_def)

lemma cmdline_keys:
  "tool_devices exec K \<Longrightarrow> inj_on tc_id (K rep w) \<and> inj_on (norm_filter \<circ> as_filter) (K rep w) \<Longrightarrow>
    inj_on ff_Attrs (as_filter ` K rep w) \<and> inj_on norm_filter (as_filter ` K rep w)"
  using tool_contract.read_keys [OF tool_devices.tool, of exec K rep w] by (simp add: inj_on_imageI)



text \<open>
  C3. The same while events arrive, with the command line driver: whatever handlers are called
  between two pods, every interface of every pod of the node that the loop finds ends with the
  filters generated from the state of the server when the loop reached the pod, and they enforce
  the policies of that state (which \<open>visits_are_current\<close> describes); failures, other devices and
  hypotheses are as without events, the hypotheses for the state of each visit; and no event is
  lost on the way to the trackers.
\<close>

theorem synchronisation_with_events:
  assumes "selectors_mean (env_selectors env) crd"
    and "vs = visited env arrive (PodMap_List (sv_podMap (update_maps s0))) (update_maps s0)"
    and "attached_at env vs rep_of"
    and "opt_createActuatorForRep env = None" and "opt_tcDriver (env_options env) = ''cmdline''"
    and "tool_devices (env_exec env) K"
    and "\<forall>(p, s)\<in>set vs. \<forall>ifc\<in>set (elems (pi_Interfaces p)). implementable env crd usual_cidrs s p ifc"
    and "\<forall>rep. inj_on tc_id (K rep (wd_dev w)) \<and> inj_on (norm_filter \<circ> as_filter) (K rep (wd_dev w))"
    and "syncMultiPolicy env arrive s0 w = (s', w')"
  shows "(\<forall>(p, s)\<in>set vs. \<forall>ifc\<in>set (elems (pi_Interfaces p)).
      let rep = rep_of (if_DeviceID ifc);
          then_w = until_job (do_job env) (all_jobs env vs) (p, wanted_rules env s p ifc) w
      in interface_synced env crd s p ifc (job_succeeds env (wanted_rules env s p ifc) (wd_dev then_w))
           (as_filter ` K rep (wd_dev w)) (as_filter ` K rep (wd_dev w'))) \<and>
    (\<forall>rep. rep \<notin> rep_of ` if_DeviceID ` (\<Union>p\<in>fst ` set vs. set (elems (pi_Interfaces p))) \<longrightarrow>
      as_filter ` K rep (wd_dev w') = as_filter ` K rep (wd_dev w)) \<and>
    s' = fold (pass_pod env arrive) (PodMap_List (sv_podMap (update_maps s0))) (update_maps s0)"
proof -
  note act = cmdline_actuator [OF assms(4,5)] and keys = cmdline_keys [OF assms(6) spec [OF assms(8)]]
  have good: "\<forall>(p, s)\<in>set vs. \<forall>ifc\<in>set (elems (pi_Interfaces p)). \<forall>objs.
      GenerateFromPolicyRuleSet (wanted_rules env s p ifc) = Inr objs \<longrightarrow> (\<forall>f\<in>set (obj_Filters objs). cmd_addable f)"
    using assms(7) wanted_addable [OF assms(1)] by fast
  note run = tc_devices.pass_outcome [OF tool_devices.cmd_devices [OF assms(6)] assms(1-3) _ assms(7) good keys assms(9)]
  show ?thesis
    unfolding Let_def using run act sync_run(1) [OF assms(9)] by (simp add: case_prod_unfold)
qed

section \<open>Examples\<close>


text \<open>What the witnesses share: the policy of the example node fits both drivers.\<close>

lemma ex_fits:
  "env_selectors env = ex_api \<Longrightarrow> isolating_on ex_meaning s p ifc = [ex_egress_policy] \<Longrightarrow>
    map snd (sv_policyMap s) = [ex_egress_policy] \<Longrightarrow>
    implementable env ex_meaning usual_cidrs s p ifc \<and> implementable env ex_meaning no_port_zero s p ifc"
  by (simp add: implementable_def ex_supported ex_policy_fits)

lemma ex_tool_facts:
  "env_selectors ex_tool_env = ex_api" "env_Hostname ex_tool_env = ''node1''" "opt_createActuatorForRep ex_tool_env = None"
  "env_exec ex_tool_env = ex_device" "opt_tcDriver (env_options ex_tool_env) = ''cmdline''"
  "getRepresentor ex_tool_env a d = Inr ''eth3''"
  by (simp_all add: ex_tool_env_def getRepresentor_def default_options_def)

lemma ex_tool_keys:
  "\<forall>rep. inj_on tc_id (ex_tool_view rep w) \<and> inj_on (norm_filter \<circ> as_filter) (ex_tool_view rep w)"
  "as_filter ` ex_tool_view ''eth3'' True = {as_filter ex_installed}"
  by (simp_all add: ex_tool_view_def ex_filters_of_def)



text \<open>The visit of the pod that moved.\<close>

lemma ex_moved_facts:
  "elems (pi_Interfaces ex_moved_info) = [ex_ifc_info]"
  "isolating_on ex_meaning ex_moved_server ex_moved_info ex_ifc_info = [ex_egress_policy]"
  "map snd (sv_policyMap ex_moved_server) = [ex_egress_policy]"
  by code_simp+

theorem synchronisation_with_events_witness:
  "let w' = snd (syncMultiPolicy ex_tool_env ex_arrive ex_events \<lparr>wd_dev = True, wd_fs = []\<rparr>)
   in \<exists>objs. GenerateFromPolicyRuleSet (wanted_rules ex_tool_env ex_moved_server ex_moved_info ex_ifc_info) = Inr objs \<and>
        norm_filter ` as_filter ` ex_tool_view ''eth3'' (wd_dev w') \<subseteq>
          insert (norm_filter (as_filter ex_installed)) (norm_filter ` set (obj_Filters objs))"
proof -
  let ?w = "\<lparr>wd_dev = True, wd_fs = []\<rparr> :: bool World"
  note env = ex_tool_facts
  have att: "attached_at ex_tool_env [(ex_moved_info, ex_moved_server)] (\<lambda>_. ''eth3'')"
    by (simp add: attached_at_def ex_moved_facts env(6))
  have fits: "\<forall>(p, s)\<in>set [(ex_moved_info, ex_moved_server)]. \<forall>ifc\<in>set (elems (pi_Interfaces p)).
      implementable ex_tool_env ex_meaning usual_cidrs s p ifc"
    using ex_fits [OF env(1) ex_moved_facts(2,3)] by (simp add: ex_moved_facts(1))
  note synced = synchronisation_with_events [OF ex_api_means [folded env(1)] ex_moved_visit [symmetric] att env(3,5)
      ex_tool_devices [folded env(4)] fits ex_tool_keys(1) prod.collapse [symmetric]]
  obtain ok where "interface_synced ex_tool_env ex_meaning ex_moved_server ex_moved_info ex_ifc_info ok
      (as_filter ` ex_tool_view ''eth3'' (wd_dev ?w))
      (as_filter ` ex_tool_view ''eth3'' (wd_dev (snd (syncMultiPolicy ex_tool_env ex_arrive ex_events ?w))))"
    using conjunct1 [OF synced, of ?w]
    by (simp only: list.set ball_simps prod.case ex_moved_facts Let_def) blast
  from interface_bounded [OF this] show ?thesis by (simp add: ex_moved_facts ex_tool_keys(2) Let_def)
qed

end
